(* ===== verification/Json.thy ===== *)
theory Json
  imports VLS_Prelude
begin

text \<open>
  JSON values and Go's \<open>encoding/json\<close> encoder as the handlers use it: struct fields in
  declaration order, map keys sorted, strings escaped with HTML escaping on (the default of
  \<open>json.Marshal\<close> and of \<open>json.NewEncoder\<close>), invalid UTF-8 replaced. A number is kept as its
  literal. The main fact is that an encoded value is one line: it holds no control byte.
\<close>

datatype json =
    JNull
  | JBool bool
  | JNum string
  | JStr string
  | JArr "json list"
  | JObj "(string \<times> json) list"

definition JInt :: "int \<Rightarrow> json" where
  "JInt n = JNum (itoa n)"

text \<open>A Go map: its keys come out sorted.\<close>

definition JMap :: "(string \<times> json) list \<Rightarrow> json" where
  "JMap kvs = JObj (sort_key fst kvs)"

text \<open>Struct fields tagged \<open>omitempty\<close>.\<close>

definition omit_str :: "string \<Rightarrow> string \<Rightarrow> (string \<times> json) list" where
  "omit_str k v = (if v = [] then [] else [(k, JStr v)])"

definition omit_int :: "string \<Rightarrow> int \<Rightarrow> (string \<times> json) list" where
  "omit_int k n = (if n = 0 then [] else [(k, JInt n)])"

definition omit_any :: "string \<Rightarrow> json option \<Rightarrow> (string \<times> json) list" where
  "omit_any k v = (case v of None \<Rightarrow> [] | Some j \<Rightarrow> [(k, j)])"

subsection \<open>UTF-8\<close>

definition byte_in :: "nat \<Rightarrow> nat \<Rightarrow> char \<Rightarrow> bool" where
  "byte_in lo hi c \<longleftrightarrow> lo \<le> byte_val c \<and> byte_val c \<le> hi"

text \<open>
  The width of the code point a string starts with, by the class of its first byte; 0 when the
  string does not start with a valid encoding.
\<close>

definition width2 :: "string \<Rightarrow> nat" where
  "width2 t = (case t of b # _ \<Rightarrow> if byte_in 128 191 b then 2 else 0 | _ \<Rightarrow> 0)"

definition width3 :: "char \<Rightarrow> string \<Rightarrow> nat" where
  "width3 a t =
     (case t of b # c # _ \<Rightarrow>
        if byte_in (if byte_val a = 224 then 160 else 128) (if byte_val a = 237 then 159 else 191) b
           \<and> byte_in 128 191 c then 3 else 0
      | _ \<Rightarrow> 0)"

definition width4 :: "char \<Rightarrow> string \<Rightarrow> nat" where
  "width4 a t =
     (case t of b # c # d # _ \<Rightarrow>
        if byte_in (if byte_val a = 240 then 144 else 128) (if byte_val a = 244 then 143 else 191) b
           \<and> byte_in 128 191 c \<and> byte_in 128 191 d then 4 else 0
      | _ \<Rightarrow> 0)"

fun rune_width :: "string \<Rightarrow> nat" where
  "rune_width [] = 0"
| "rune_width (a # t) =
     (if byte_val a < 128 then 1
      else if byte_in 194 223 a then width2 t
      else if byte_in 224 239 a then width3 a t
      else if byte_in 240 244 a then width4 a t
      else 0)"

subsection \<open>The encoder\<close>

definition hex_digit :: "nat \<Rightarrow> char" where
  "hex_digit d = (if d < 10 then char_of (48 + d) else char_of (87 + d))"

definition esc_u00 :: "nat \<Rightarrow> string" where
  "esc_u00 n = CHR 0x5C # ''u00'' @ [hex_digit (n div 16), hex_digit (n mod 16)]"

definition esc_byte :: "char \<Rightarrow> string" where
  "esc_byte c =
     (if c = CHR 0x22 \<or> c = CHR 0x5C then [CHR 0x5C, c]
      else if c = CHR 0x08 then CHR 0x5C # ''b''
      else if c = CHR 0x0C then CHR 0x5C # ''f''
      else if c = CHR 0x0A then CHR 0x5C # ''n''
      else if c = CHR 0x0D then CHR 0x5C # ''r''
      else if c = CHR 0x09 then CHR 0x5C # ''t''
      else if byte_val c < 32 \<or> c = CHR ''<'' \<or> c = CHR ''>'' \<or> c = CHR ''&''
      then esc_u00 (byte_val c)
      else [c])"

function enc_chars :: "string \<Rightarrow> string" where
  "enc_chars s =
     (if s = [] then []
      else if rune_width s = 0 then CHR 0x5C # ''ufffd'' @ enc_chars (tl s)
      else if rune_width s = 1 then esc_byte (hd s) @ enc_chars (tl s)
      else if take 3 s = [CHR 0xE2, CHR 0x80, CHR 0xA8] then CHR 0x5C # ''u2028'' @ enc_chars (drop 3 s)
      else if take 3 s = [CHR 0xE2, CHR 0x80, CHR 0xA9] then CHR 0x5C # ''u2029'' @ enc_chars (drop 3 s)
      else take (rune_width s) s @ enc_chars (drop (rune_width s) s))"
  by pat_completeness auto
termination
  by (relation "measure length") auto

declare enc_chars.simps [simp del]

definition enc_str :: "string \<Rightarrow> string" where
  "enc_str s = CHR 0x22 # enc_chars s @ [CHR 0x22]"

fun join_with :: "string \<Rightarrow> string list \<Rightarrow> string" where
  "join_with sep [] = []"
| "join_with sep [x] = x"
| "join_with sep (x # y # ys) = x @ sep @ join_with sep (y # ys)"

fun enc_json :: "json \<Rightarrow> string" where
  "enc_json JNull = ''null''"
| "enc_json (JBool b) = (if b then ''true'' else ''false'')"
| "enc_json (JNum s) = s"
| "enc_json (JStr s) = enc_str s"
| "enc_json (JArr js) = ''['' @ join_with '','' (map enc_json js) @ '']''"
| "enc_json (JObj kvs) =
     ''{'' @ join_with '','' (map (\<lambda>(k, v). enc_str k @ '':'' @ enc_json v) kvs) @ ''}''"

subsection \<open>An encoded value is a single line\<close>

definition printable :: "string \<Rightarrow> bool" where
  "printable s \<longleftrightarrow> (\<forall>c \<in> set s. 32 \<le> byte_val c)"

fun json_ok :: "json \<Rightarrow> bool" where
  "json_ok (JNum s) \<longleftrightarrow> printable s"
| "json_ok (JArr js) \<longleftrightarrow> (\<forall>j \<in> set js. json_ok j)"
| "json_ok (JObj kvs) \<longleftrightarrow> (\<forall>kv \<in> set kvs. json_ok (snd kv))"
| "json_ok _ \<longleftrightarrow> True"

lemma printable_simps [simp]:
  "printable []"
  "printable (c # s) \<longleftrightarrow> 32 \<le> byte_val c \<and> printable s"
  "printable (s @ t) \<longleftrightarrow> printable s \<and> printable t"
  by (auto simp: printable_def)

lemma printable_join: "\<forall>x \<in> set xs. printable x \<Longrightarrow> printable sep \<Longrightarrow> printable (join_with sep xs)"
  by (induction sep xs rule: join_with.induct) auto

lemma printable_esc_u00 [simp]: "n < 256 \<Longrightarrow> printable (esc_u00 n)"
proof -
  assume n: "n < 256"
  have "d < 16 \<Longrightarrow> 32 \<le> byte_val (hex_digit d)" for d :: nat
    by (auto simp: hex_digit_def)
  moreover have "n div 16 < 16" "n mod 16 < 16" using n by auto
  ultimately show ?thesis by (simp add: esc_u00_def)
qed

lemma byte_val_less [simp]: "byte_val c < 256"
  using nat_of_char_less_256 [of c] by simp

lemma printable_esc_byte: "printable (esc_byte c)"
  by (simp add: esc_byte_def)

lemma byte_in_printable: "byte_in lo hi c \<Longrightarrow> 32 \<le> lo \<Longrightarrow> 32 \<le> byte_val c"
  by (simp add: byte_in_def)

lemma width2_take: "width2 t \<noteq> 0 \<Longrightarrow> width2 t = 2 \<and> printable (take 1 t)"
  by (auto simp: width2_def split: list.splits if_splits dest: byte_in_printable)

lemma width3_take: "width3 a t \<noteq> 0 \<Longrightarrow> width3 a t = 3 \<and> printable (take 2 t)"
  by (auto simp: width3_def split: list.splits if_splits dest: byte_in_printable)

lemma width4_take: "width4 a t \<noteq> 0 \<Longrightarrow> width4 a t = 4 \<and> printable (take 3 t)"
  by (auto simp: width4_def split: list.splits if_splits dest: byte_in_printable)

lemma rune_width_high:
  assumes "rune_width s \<noteq> 0" "rune_width s \<noteq> 1"
  shows "printable (take (rune_width s) s)"
proof (cases s)
  case (Cons a t)
  from Cons assms have a: "\<not> byte_val a < 128" by auto
  then consider "rune_width s = width2 t" | "rune_width s = width3 a t" | "rune_width s = width4 a t"
    using Cons assms by (auto split: if_splits)
  then show ?thesis
    using assms(1) Cons a width2_take [of t] width3_take [of a t] width4_take [of a t]
    by cases simp_all
qed (use assms in simp)

lemma printable_enc_chars: "printable (enc_chars s)"
proof (induction s rule: enc_chars.induct)
  case (1 s)
  then show ?case
    by (subst enc_chars.simps) (simp add: printable_esc_byte rune_width_high)
qed

lemma printable_enc_str: "printable (enc_str s)"
  by (simp add: enc_str_def printable_enc_chars)

lemma printable_enc_json: "json_ok j \<Longrightarrow> printable (enc_json j)"
proof (induction j rule: enc_json.induct)
  case (5 js)
  then show ?case by (auto intro!: printable_join)
next
  case (6 kvs)
  then show ?case by (fastforce intro!: printable_join simp: printable_enc_str)
qed (auto simp: printable_enc_str)

lemma printable_nl: "printable s \<Longrightarrow> CHR 0x0A \<notin> set s"
  by (auto simp: printable_def)

lemma printable_nat_str: "printable (nat_str n)"
proof -
  have "is_digit c \<Longrightarrow> 32 \<le> byte_val c" for c by (simp add: is_digit_def)
  with nat_str_digits [of n] show ?thesis by (auto simp: printable_def list_all_iff)
qed

lemma json_ok_JInt [simp]: "json_ok (JInt n)"
  by (simp add: JInt_def itoa_def printable_nat_str)

lemma json_ok_JMap [simp]: "json_ok (JMap kvs) \<longleftrightarrow> (\<forall>kv \<in> set kvs. json_ok (snd kv))"
  by (simp add: JMap_def)

lemma json_ok_omit [simp]:
  "\<forall>kv \<in> set (omit_str k s). json_ok (snd kv)"
  "\<forall>kv \<in> set (omit_int k n). json_ok (snd kv)"
  "(\<forall>kv \<in> set (omit_any k v). json_ok (snd kv)) \<longleftrightarrow> (\<forall>j. v = Some j \<longrightarrow> json_ok j)"
  by (auto simp: omit_str_def omit_int_def omit_any_def split: option.splits)

end
