(* ===== verification/Go_Http.thy ===== *)
theory Go_Http
  imports Json
begin

text \<open>
  Go's \<open>net/http\<close> as the server uses it. A handler is a function of the writer's capabilities,
  the request and the server state; it returns the new state, the trace of operations it
  performed on its \<open>ResponseWriter\<close>, and how it ended. Wrapping writers (the recorders of the
  middleware) read the same trace. What reaches the client is the trace played on the
  server's own writer (\<open>respond\<close>), for a request other than HEAD, whose answer has no body, and taking
  a \<open>Content-Length\<close> that a handler declares to be the length of what it writes.
\<close>

subsection \<open>Headers\<close>

type_synonym header = "string \<Rightarrow> string list option"

definition token_byte :: "char \<Rightarrow> bool" where
  "token_byte c \<longleftrightarrow> is_upper c \<or> is_lower c \<or> is_digit c \<or> c \<in> set ''!#$%&*+-.^_`|~'' \<or> c = CHR 0x27"

fun canon_aux :: "bool \<Rightarrow> string \<Rightarrow> string" where
  "canon_aux up [] = []"
| "canon_aux up (c # cs) =
     (let c' = (if up then upper_byte c else lower_byte c) in c' # canon_aux (c' = CHR ''-'') cs)"

text \<open>\<open>textproto.CanonicalMIMEHeaderKey\<close>.\<close>

definition canonical_key :: "string \<Rightarrow> string" where
  "canonical_key k = (if list_all token_byte k then canon_aux True k else k)"

definition hget :: "header \<Rightarrow> string \<Rightarrow> string" where
  "hget h k = (case h (canonical_key k) of Some (v # vs) \<Rightarrow> v | _ \<Rightarrow> [])"

definition hset :: "header \<Rightarrow> string \<Rightarrow> string \<Rightarrow> header" where
  "hset h k v = h(canonical_key k \<mapsto> [v])"

definition hdel :: "header \<Rightarrow> string \<Rightarrow> header" where
  "hdel h k = h(canonical_key k := None)"

lemma hget_hset: "hget (hset h k v) k' = (if canonical_key k = canonical_key k' then v else hget h k')"
  by (simp add: hget_def hset_def)

lemma hget_hdel: "hget (hdel h k) k' = (if canonical_key k = canonical_key k' then [] else hget h k')"
  by (simp add: hget_def hdel_def)

subsection \<open>Requests\<close>

record principal =
  p_id :: string
  p_authenticated :: bool

text \<open>The values the server puts into a request context, and its deadline (nanoseconds).\<close>

record ctx =
  c_request_id :: "string option"
  c_principal :: "principal option"
  c_deadline :: "int option"

definition background :: ctx where
  "background = \<lparr>c_request_id = None, c_principal = None, c_deadline = None\<rparr>"

text \<open>A request body: the bytes the client sent and the limit of an \<open>http.MaxBytesReader\<close>.\<close>

record body =
  b_data :: string
  b_limit :: "int option"

record request =
  r_method :: string
  r_path :: string
  r_url :: string
  r_query :: "string \<Rightarrow> string"
  r_header :: header
  r_body :: "body option"
  r_content_length :: int
  r_remote :: string
  r_ctx :: ctx
  r_params :: "string \<Rightarrow> string"

definition user_agent :: "request \<Rightarrow> string" where
  "user_agent r = hget (r_header r) ''User-Agent''"

definition too_large :: "body \<Rightarrow> bool" where
  "too_large b = (case b_limit b of None \<Rightarrow> False | Some n \<Rightarrow> n < int (length (b_data b)))"

text \<open>The bytes a reader of the body can get before it fails or ends.\<close>

definition available :: "body \<Rightarrow> string" where
  "available b = (case b_limit b of None \<Rightarrow> b_data b | Some n \<Rightarrow> take (nat n) (b_data b))"

definition msg_too_large :: string where
  "msg_too_large = ''http: request body too large''"

text \<open>\<open>io.ReadAll\<close> on a request body.\<close>

definition read_body :: "body \<Rightarrow> (string, string) result" where
  "read_body b = (if too_large b then Inl msg_too_large else Inr (b_data b))"

lemma read_body_Inr: "read_body b = Inr d \<longleftrightarrow> \<not> too_large b \<and> d = b_data b"
  by (auto simp: read_body_def)

subsection \<open>Operations on a response writer\<close>

datatype wop =
    SetHeader string string
  | DelHeader string
  | WriteHeader int
  | WriteBytes string
  | Flush

text \<open>What a writer offers beside \<open>http.ResponseWriter\<close>: whether it is an \<open>http.Flusher\<close>.\<close>

record writer =
  w_flusher :: bool

text \<open>
  How a handler ends: it returns, it panics (the panic unwinds to its caller), or the panic
  has unwound a goroutine nobody recovers, which ends the process.
\<close>

datatype outcome = Done | Panicked | Crashed

text \<open>\<open>http.Error\<close>.\<close>

definition http_error :: "string \<Rightarrow> int \<Rightarrow> wop list" where
  "http_error msg code =
     [DelHeader ''Content-Length'',
      SetHeader ''Content-Type'' ''text/plain; charset=utf-8'',
      SetHeader ''X-Content-Type-Options'' ''nosniff'',
      WriteHeader code, WriteBytes (msg @ nl)]"

subsection \<open>The server's own writer\<close>

record resp =
  rs_header :: header
  rs_wrote :: bool
  rs_status :: int
  rs_sent :: header
  rs_body :: string
  rs_flushed :: nat

definition init_resp :: resp where
  "init_resp = \<lparr>rs_header = (\<lambda>_. None), rs_wrote = False, rs_status = 200,
     rs_sent = (\<lambda>_. None), rs_body = [], rs_flushed = 0\<rparr>"

definition body_allowed :: "int \<Rightarrow> bool" where
  "body_allowed c \<longleftrightarrow> \<not> (100 \<le> c \<and> c \<le> 199) \<and> c \<noteq> 204 \<and> c \<noteq> 304"

text \<open>
  \<open>WriteHeader\<close> sends the headers set so far; a second call changes nothing. An informational
  status other than 101 is sent on its own and leaves the final header open.
\<close>

definition write_header :: "int \<Rightarrow> resp \<Rightarrow> resp" where
  "write_header c r =
     (if rs_wrote r \<or> (100 \<le> c \<and> c \<le> 199 \<and> c \<noteq> 101) then r
      else r\<lparr>rs_wrote := True, rs_status := c, rs_sent := rs_header r\<rparr>)"

definition ensure_header :: "resp \<Rightarrow> resp" where
  "ensure_header r = (if rs_wrote r then r else write_header 200 r)"

fun wop_step :: "resp \<Rightarrow> wop \<Rightarrow> resp" where
  "wop_step r (SetHeader k v) = r\<lparr>rs_header := hset (rs_header r) k v\<rparr>"
| "wop_step r (DelHeader k) = r\<lparr>rs_header := hdel (rs_header r) k\<rparr>"
| "wop_step r (WriteHeader c) = write_header c r"
| "wop_step r (WriteBytes b) =
     (let r' = ensure_header r in
      if body_allowed (rs_status r') then r'\<lparr>rs_body := rs_body r' @ b\<rparr> else r')"
| "wop_step r Flush =
     (let r' = ensure_header r in r'\<lparr>rs_flushed := length (rs_body r')\<rparr>)"

text \<open>The number \<open>Write\<close> returns: nothing is written where the status allows no body.\<close>

definition written :: "resp \<Rightarrow> string \<Rightarrow> nat" where
  "written r b = (if body_allowed (rs_status (ensure_header r)) then length b else 0)"

definition play :: "wop list \<Rightarrow> resp \<Rightarrow> resp" where
  "play ops r = foldl wop_step r ops"

definition respond :: "wop list \<Rightarrow> resp" where
  "respond ops = ensure_header (play ops init_resp)"

lemma play_simps [trace_simps]:
  "play [] r = r"
  "play (x # xs) r = play xs (wop_step r x)"
  "play (xs @ ys) r = play ys (play xs r)"
  by (simp_all add: play_def)

subsection \<open>Traces that commit the header once\<close>

fun is_header_op :: "wop \<Rightarrow> bool" where
  "is_header_op (SetHeader k v) = True"
| "is_header_op (DelHeader k) = True"
| "is_header_op _ = False"

fun is_commit :: "wop \<Rightarrow> bool" where
  "is_commit (WriteHeader c) = (\<not> (100 \<le> c \<and> c \<le> 199 \<and> c \<noteq> 101))"
| "is_commit (WriteBytes b) = True"
| "is_commit Flush = True"
| "is_commit _ = False"

definition commits :: "wop list \<Rightarrow> bool" where
  "commits ops \<longleftrightarrow> (\<exists>x \<in> set ops. is_commit x)"

lemma wop_step_wrote: "rs_wrote (wop_step r x) \<longleftrightarrow> rs_wrote r \<or> is_commit x"
  by (cases x) (auto simp: write_header_def ensure_header_def Let_def)

lemma play_wrote: "rs_wrote (play ops r) \<longleftrightarrow> rs_wrote r \<or> commits ops"
  by (induction ops arbitrary: r) (auto simp: trace_simps wop_step_wrote commits_def)

lemma wop_step_frozen:
  "rs_wrote r \<Longrightarrow> rs_status (wop_step r x) = rs_status r \<and> rs_sent (wop_step r x) = rs_sent r"
  by (cases x) (auto simp: write_header_def ensure_header_def Let_def)

text \<open>Once the header is out, nothing changes the status or the headers the client sees.\<close>

lemma play_frozen:
  "rs_wrote r \<Longrightarrow> rs_status (play ops r) = rs_status r \<and> rs_sent (play ops r) = rs_sent r"
proof (induction ops arbitrary: r)
  case (Cons x xs)
  then show ?case
    using wop_step_frozen [of r x] by (simp add: trace_simps wop_step_wrote)
qed (simp add: trace_simps)

lemma header_op_step:
  "is_header_op x \<Longrightarrow> \<not> rs_wrote r \<Longrightarrow>
     rs_wrote (wop_step r x) = False \<and> rs_status (wop_step r x) = rs_status r
     \<and> rs_body (wop_step r x) = rs_body r"
  by (cases x) simp_all

lemma play_header_ops:
  "list_all is_header_op ops \<Longrightarrow> \<not> rs_wrote r \<Longrightarrow>
     \<not> rs_wrote (play ops r) \<and> rs_status (play ops r) = rs_status r
     \<and> rs_body (play ops r) = rs_body r"
  by (induction ops arbitrary: r) (auto simp: trace_simps header_op_step)

lemma init_resp_simps [simp]:
  "rs_wrote init_resp = False" "rs_status init_resp = 200" "rs_body init_resp = []"
  "rs_flushed init_resp = 0"
  by (simp_all add: init_resp_def)

lemma respond_append_commits:
  assumes "commits xs"
  shows "rs_status (respond (xs @ ys)) = rs_status (respond xs)"
    and "rs_sent (respond (xs @ ys)) = rs_sent (respond xs)"
proof -
  have w: "rs_wrote (play xs init_resp)" using assms by (simp add: play_wrote)
  then have w': "rs_wrote (play ys (play xs init_resp))" by (simp add: play_wrote)
  show "rs_status (respond (xs @ ys)) = rs_status (respond xs)"
    and "rs_sent (respond (xs @ ys)) = rs_sent (respond xs)"
    using play_frozen [OF w, of ys] w w'
    by (simp_all add: respond_def trace_simps ensure_header_def)
qed

text \<open>Headers set first, then one status, then the body.\<close>

lemma respond_status:
  assumes "list_all is_header_op hs" "\<not> (100 \<le> c \<and> c \<le> 199 \<and> c \<noteq> 101)"
  shows "rs_status (respond (hs @ WriteHeader c # ops)) = c"
proof -
  let ?r = "play hs init_resp"
  have "\<not> rs_wrote ?r" using play_header_ops [OF assms(1), of init_resp] by simp
  then have w: "rs_wrote (wop_step ?r (WriteHeader c))" "rs_status (wop_step ?r (WriteHeader c)) = c"
    using assms(2) by (auto simp: write_header_def)
  have "rs_wrote (play ops (wop_step ?r (WriteHeader c)))" using w(1) by (simp add: play_wrote)
  then show ?thesis
    using play_frozen [OF w(1), of ops] w(2)
    by (simp add: respond_def trace_simps ensure_header_def)
qed

lemma commits_simps [simp]:
  "commits [] = False"
  "commits (x # xs) \<longleftrightarrow> is_commit x \<or> commits xs"
  "commits (xs @ ys) \<longleftrightarrow> commits xs \<or> commits ys"
  by (auto simp: commits_def)

lemma commits_http_error [simp]: "commits (http_error m c)"
  by (simp add: http_error_def)

end
