(* ===== verification/Float64.thy ===== *)
theory Float64
  imports Complex_Main "HOL-Library.Log_Nat" VLS_Prelude
begin

text \<open>
  Go's \<open>float64\<close> arithmetic as exact rational arithmetic followed by rounding to 53 significant
  bits, ties to even. Overflow and subnormal numbers are left out: the server multiplies
  durations in seconds with request rates, which stay between \<open>1e-11\<close> and \<open>1e29\<close>. The facts
  used elsewhere are the sign, the relative error, monotonicity and exactness on integers.
\<close>

subsection \<open>The binary exponent\<close>

definition bin_exp :: "rat \<Rightarrow> int" where
  "bin_exp x =
     (let (p, q) = quotient_of x;
          k = int (floorlog 2 (nat p)) - int (floorlog 2 (nat q))
      in if 2 powi k \<le> x then k else k - 1)"

lemma floorlog_powi:
  assumes "0 < n"
  shows "(2::rat) powi (int (floorlog 2 (nat n)) - 1) \<le> of_int n"
    and "of_int n < (2::rat) powi int (floorlog 2 (nat n))"
proof -
  let ?m = "nat n"
  let ?f = "floorlog 2 ?m"
  have b: "2 ^ (?f - 1) \<le> ?m" "?m < 2 ^ ?f"
    using floorlog_bounds [of ?m 2] assms by auto
  have pos: "0 < ?f" using assms by (simp add: floorlog_def)
  have n: "(of_int n :: rat) = of_nat ?m" using assms by simp
  have "(2::rat) powi (int ?f - 1) = 2 ^ (?f - 1)"
  proof -
    have "int ?f - 1 = int (?f - 1)" using pos by linarith
    then show ?thesis by (metis power_int_of_nat)
  qed
  moreover have "(2::rat) ^ (?f - 1) \<le> of_nat ?m"
    using b(1) by (metis of_nat_le_iff of_nat_numeral of_nat_power)
  ultimately show "(2::rat) powi (int ?f - 1) \<le> of_int n" by (simp only: n)
  have "of_nat ?m < (2::rat) ^ ?f"
    using b(2) by (metis of_nat_less_iff of_nat_numeral of_nat_power)
  then show "of_int n < (2::rat) powi int ?f" by (simp only: n power_int_of_nat)
qed

lemma bin_exp:
  assumes "0 < x"
  shows "2 powi bin_exp x \<le> x" and "x < 2 powi (bin_exp x + 1)"
proof -
  obtain p q where pq: "quotient_of x = (p, q)" by force
  have q: "0 < q" using pq by (rule quotient_of_denom_pos)
  have x: "x = of_int p / of_int q" using pq by (rule quotient_of_div)
  have p: "0 < p"
    using assms q x by (simp add: zero_less_divide_iff)
  define a where "a = int (floorlog 2 (nat p))"
  define b where "b = int (floorlog 2 (nat q))"
  have ap: "(2::rat) powi (a - 1) \<le> of_int p" "of_int p < (2::rat) powi a"
    using floorlog_powi [OF p] by (simp_all add: a_def)
  have bq: "(2::rat) powi (b - 1) \<le> of_int q" "of_int q < (2::rat) powi b"
    using floorlog_powi [OF q] by (simp_all add: b_def)
  have E: "bin_exp x = (if 2 powi (a - b) \<le> x then a - b else a - b - 1)"
    by (simp add: bin_exp_def pq a_def b_def Let_def)
  have upper: "x < 2 powi (a - b + 1)"
  proof -
    have "of_int p / of_int q \<le> of_int p / (2::rat) powi (b - 1)"
      using bq(1) p q by (intro divide_left_mono) auto
    also have "\<dots> < 2 powi a / 2 powi (b - 1)"
      using ap(2) by (intro divide_strict_right_mono) auto
    also have "\<dots> = 2 powi (a - (b - 1))"
      by (simp add: power_int_diff)
    finally show ?thesis using x by (simp add: algebra_simps)
  qed
  have lower: "2 powi (a - b - 1) \<le> x"
  proof -
    have "2 powi (a - 1 - b) = (2::rat) powi (a - 1) / 2 powi b"
      by (simp add: power_int_diff)
    also have "\<dots> \<le> of_int p / 2 powi b"
      using ap(1) by (intro divide_right_mono) auto
    also have "\<dots> \<le> of_int p / of_int q"
      using bq(2) p q by (intro divide_left_mono) auto
    finally show ?thesis using x by (simp add: algebra_simps)
  qed
  show "2 powi bin_exp x \<le> x" using E lower by simp
  show "x < 2 powi (bin_exp x + 1)" using E upper by (simp add: algebra_simps)
qed

lemma powi2_mono: "(i::int) \<le> j \<Longrightarrow> (2::rat) powi i \<le> 2 powi j"
  by (simp add: power_int_increasing)

lemma bin_exp_mono:
  assumes "0 < x" "x \<le> y"
  shows "bin_exp x \<le> bin_exp y"
proof (rule ccontr)
  assume "\<not> bin_exp x \<le> bin_exp y"
  then have "(2::rat) powi (bin_exp y + 1) \<le> 2 powi bin_exp x"
    by (intro powi2_mono) simp
  with bin_exp(1) [of x] bin_exp(2) [of y] assms show False by simp
qed

subsection \<open>Rounding\<close>

definition round_even :: "rat \<Rightarrow> int" where
  "round_even x =
     (let n = \<lfloor>x\<rfloor>; d = x - of_int n
      in if d < 1 / 2 then n else if 1 / 2 < d then n + 1
         else if even n then n else n + 1)"

lemma round_even_err: "\<bar>of_int (round_even x) - x\<bar> \<le> 1 / 2"
proof -
  have "of_int \<lfloor>x\<rfloor> \<le> x" "x < of_int \<lfloor>x\<rfloor> + 1" by linarith+
  then show ?thesis unfolding round_even_def Let_def abs_if
    by (simp split: if_split) linarith
qed

lemma round_even_bounds: "\<lfloor>x\<rfloor> \<le> round_even x" "round_even x \<le> \<lfloor>x\<rfloor> + 1"
  by (simp_all add: round_even_def Let_def)

lemma round_even_int [simp]: "round_even (of_int n) = n"
  by (simp add: round_even_def)

lemma round_even_mono:
  assumes "x \<le> y"
  shows "round_even x \<le> round_even y"
proof (cases "\<lfloor>x\<rfloor> = \<lfloor>y\<rfloor>")
  case True
  with assms show ?thesis by (simp add: round_even_def Let_def)
next
  case False
  then have "\<lfloor>x\<rfloor> + 1 \<le> \<lfloor>y\<rfloor>"
    using floor_mono [OF assms] by simp
  with round_even_bounds(2) [of x] round_even_bounds(1) [of y] show ?thesis by simp
qed

subsection \<open>\<open>float64\<close> values\<close>

definition ulp :: "rat \<Rightarrow> rat" where
  "ulp x = 2 powi (bin_exp x - 52)"

definition fl_pos :: "rat \<Rightarrow> rat" where
  "fl_pos x = of_int (round_even (x / ulp x)) * ulp x"

definition fl64 :: "rat \<Rightarrow> rat" where
  "fl64 x = (if x = 0 then 0 else if x < 0 then - fl_pos (- x) else fl_pos x)"

lemma ulp_pos [simp]: "0 < ulp x"
  by (simp add: ulp_def)

lemma ulp_nonzero [simp]: "ulp x \<noteq> 0"
  using ulp_pos [of x] by linarith

lemma scaled_bounds:
  assumes "0 < x"
  shows "2 ^ 52 \<le> x / ulp x" and "x / ulp x < 2 ^ 53"
proof -
  have u: "ulp x = 2 powi bin_exp x / 2 ^ 52"
    by (simp add: ulp_def power_int_diff)
  have pos: "(0::rat) < 2 powi bin_exp x" by simp
  have "2 powi bin_exp x * 1 \<le> x" using bin_exp(1) [OF assms] by simp
  then show "2 ^ 52 \<le> x / ulp x"
    using pos by (simp add: u field_simps)
  have "x < 2 powi bin_exp x * 2"
    using bin_exp(2) [OF assms] by (simp add: power_int_add)
  then show "x / ulp x < 2 ^ 53"
    using pos by (simp add: u field_simps)
qed

lemma fl_pos_bounds:
  assumes "0 < x"
  shows "2 powi bin_exp x \<le> fl_pos x" and "fl_pos x \<le> 2 powi (bin_exp x + 1)"
proof -
  have u: "ulp x * 2 ^ 52 = 2 powi bin_exp x"
    by (simp add: ulp_def power_int_diff)
  have "round_even (of_int (2 ^ 52)) \<le> round_even (x / ulp x)"
    using scaled_bounds(1) [OF assms] by (intro round_even_mono) simp
  then have "(2::rat) ^ 52 \<le> of_int (round_even (x / ulp x))"
    by (metis of_int_le_iff of_int_numeral of_int_power round_even_int)
  then have "2 ^ 52 * ulp x \<le> fl_pos x"
    by (simp add: fl_pos_def)
  then show "2 powi bin_exp x \<le> fl_pos x" using u by (simp add: mult.commute)
  have "round_even (x / ulp x) \<le> round_even (of_int (2 ^ 53))"
    using scaled_bounds(2) [OF assms] by (intro round_even_mono) simp
  then have "of_int (round_even (x / ulp x)) \<le> (2::rat) ^ 53"
    by (metis of_int_le_iff of_int_numeral of_int_power round_even_int)
  then have "fl_pos x \<le> 2 ^ 53 * ulp x"
    by (simp add: fl_pos_def)
  also have "\<dots> = 2 * (ulp x * 2 ^ 52)" by simp
  finally show "fl_pos x \<le> 2 powi (bin_exp x + 1)" using u by (simp add: power_int_add)
qed

lemma fl_pos_mono:
  assumes "0 < x" "x \<le> y"
  shows "fl_pos x \<le> fl_pos y"
proof (cases "bin_exp x = bin_exp y")
  case True
  then have u: "ulp x = ulp y" by (simp add: ulp_def)
  have "x / ulp y \<le> y / ulp y"
    using assms(2) by (intro divide_right_mono) (simp_all add: less_imp_le)
  then have "round_even (x / ulp y) \<le> round_even (y / ulp y)"
    by (rule round_even_mono)
  then show ?thesis by (simp add: fl_pos_def u)
next
  case False
  with bin_exp_mono [OF assms] have "bin_exp x + 1 \<le> bin_exp y" by simp
  then have "(2::rat) powi (bin_exp x + 1) \<le> 2 powi bin_exp y"
    by (rule powi2_mono)
  with fl_pos_bounds(2) [OF assms(1)] fl_pos_bounds(1) [of y] assms show ?thesis by simp
qed

lemma fl_pos_pos: "0 < x \<Longrightarrow> 0 < fl_pos x"
  using fl_pos_bounds(1) [of x] by (simp add: less_le_trans [of 0 "2 powi bin_exp x"])

lemma fl64_nonneg [simp]: "0 \<le> x \<Longrightarrow> 0 \<le> fl64 x"
  using fl_pos_pos [of x] by (auto simp: fl64_def)

lemma fl64_0 [simp]: "fl64 0 = 0"
  by (simp add: fl64_def)

lemma fl64_mono_nonneg: "0 \<le> x \<Longrightarrow> x \<le> y \<Longrightarrow> fl64 x \<le> fl64 y"
  using fl_pos_mono [of x y] fl64_nonneg [of y] by (auto simp: fl64_def)

lemma fl64_err:
  assumes "0 \<le> x"
  shows "\<bar>fl64 x - x\<bar> \<le> x / 2 ^ 53"
proof (cases "x = 0")
  case False
  with assms have x: "0 < x" by simp
  have "\<bar>fl_pos x - x\<bar> = \<bar>of_int (round_even (x / ulp x)) - x / ulp x\<bar> * ulp x"
  proof -
    have "x = x / ulp x * ulp x" by simp
    then have "fl_pos x - x = (of_int (round_even (x / ulp x)) - x / ulp x) * ulp x"
      unfolding fl_pos_def left_diff_distrib by simp
    then show ?thesis using ulp_pos [of x] by (simp add: abs_mult abs_of_pos)
  qed
  also have "\<dots> \<le> 1 / 2 * ulp x"
    using round_even_err by (intro mult_right_mono) (simp_all add: less_imp_le)
  also have "\<dots> \<le> x / 2 ^ 53"
    using scaled_bounds(1) [OF x] by (simp add: field_simps)
  finally show ?thesis using x by (simp add: fl64_def)
qed simp

lemma fl64_exact:
  assumes "0 < x" "x / ulp x = of_int k"
  shows "fl64 x = x"
proof -
  have "of_int k * ulp x = x"
    unfolding assms(2) [symmetric] by simp
  with assms show ?thesis by (simp add: fl64_def fl_pos_def)
qed

lemma fl64_of_int:
  assumes "0 \<le> n" "n < 2 ^ 53"
  shows "fl64 (of_int n) = of_int n"
proof (cases "n = 0")
  case False
  with assms have n: "0 < n" "n < 2 ^ 53" by auto
  let ?x = "of_int n :: rat"
  have x: "0 < ?x" using n by simp
  have "bin_exp ?x < 53"
  proof (rule ccontr)
    assume "\<not> bin_exp ?x < 53"
    then have "(2::rat) powi 53 \<le> 2 powi bin_exp ?x" by (intro powi2_mono) simp
    with bin_exp(1) [OF x] have "(2::rat) ^ 53 \<le> ?x" by simp
    then have "2 ^ 53 \<le> n" by (metis of_int_le_iff of_int_numeral of_int_power)
    with n show False by simp
  qed
  then have j: "bin_exp ?x - 52 = - int (nat (52 - bin_exp ?x))" by simp
  have u: "ulp ?x = 1 / 2 ^ nat (52 - bin_exp ?x)"
    unfolding ulp_def by (subst j) (simp only: power_int_minus power_int_of_nat divide_inverse mult_1_left)
  have "?x / ulp ?x = of_int (n * 2 ^ nat (52 - bin_exp ?x))"
    by (simp add: u)
  with x show ?thesis by (rule fl64_exact)
qed simp

subsection \<open>Conversions\<close>

text \<open>
  \<open>float64(n)\<close> for an \<open>int\<close> and \<open>int(x)\<close> for a \<open>float64\<close>. The language leaves the second one
  implementation-defined outside the range of \<open>int\<close>; the value here is the one of amd64.
\<close>

definition float_of_int :: "int \<Rightarrow> rat" where
  "float_of_int n = fl64 (of_int n)"

definition int_of_float :: "rat \<Rightarrow> int" where
  "int_of_float x =
     (let n = (if 0 \<le> x then \<lfloor>x\<rfloor> else \<lceil>x\<rceil>) in if in_int64 n then n else - (2 ^ 63))"

lemma int_of_float_nonneg:
  "0 \<le> x \<Longrightarrow> x < 2 ^ 63 \<Longrightarrow> int_of_float x = \<lfloor>x\<rfloor>"
proof -
  assume "0 \<le> x" "x < 2 ^ 63"
  then have "\<lfloor>x\<rfloor> < 2 ^ 63" by (simp add: floor_less_iff)
  with \<open>0 \<le> x\<close> show ?thesis
    by (simp add: int_of_float_def Let_def in_int64_def)
qed

end
