(* ===== verification/Token_Bucket.thy ===== *)
theory Token_Bucket
  imports Float64
begin

text \<open>
  The token bucket of \<open>internal/middleware/ratelimit.go\<close> and the store of per-principal buckets
  of \<open>internal/middleware/ratelimit_principal.go\<close>. Times are nanoseconds. Both hold a mutex
  during each operation, so an operation is one step. The refill is computed in \<open>float64\<close>
  and truncated, and the time of the last call is moved even when nothing was refilled.
\<close>

subsection \<open>Durations\<close>

definition second :: int where
  "second = 1000000000"

definition minute :: int where
  "minute = 60 * second"

text \<open>\<open>Time.Sub\<close> saturates at the ends of the range of \<open>Duration\<close>.\<close>

definition time_sub :: "int \<Rightarrow> int \<Rightarrow> int" where
  "time_sub t u = max (- (2 ^ 63)) (min (2 ^ 63 - 1) (t - u))"

text \<open>\<open>Duration.Seconds\<close>: whole seconds and the remainder are converted separately.\<close>

definition seconds :: "int \<Rightarrow> rat" where
  "seconds d =
     (let s = go_div d second; n = d - second * s
      in fl64 (float_of_int s + fl64 (float_of_int n / of_int second)))"

subsection \<open>The bucket\<close>

record token_bucket =
  tb_capacity :: int
  tb_tokens :: int
  tb_rate :: rat
  tb_last :: int

definition bucket_rate :: "int \<Rightarrow> rat" where
  "bucket_rate rpm = fl64 (float_of_int rpm / 60)"

definition new_bucket :: "int \<Rightarrow> int \<Rightarrow> token_bucket" where
  "new_bucket rpm now =
     \<lparr>tb_capacity = rpm, tb_tokens = rpm, tb_rate = bucket_rate rpm, tb_last = now\<rparr>"

definition allow :: "int \<Rightarrow> token_bucket \<Rightarrow> bool \<times> token_bucket" where
  "allow now b =
     (let elapsed = seconds (time_sub now (tb_last b));
          b1 = b\<lparr>tb_last := now\<rparr>;
          t = wrap64 (tb_tokens b1 + int_of_float (fl64 (elapsed * tb_rate b1)));
          b2 = b1\<lparr>tb_tokens := t\<rparr>;
          b3 = (if tb_tokens b2 > tb_capacity b2 then b2\<lparr>tb_tokens := tb_capacity b2\<rparr> else b2)
      in if tb_tokens b3 \<le> 0 then (False, b3)
         else (True, b3\<lparr>tb_tokens := tb_tokens b3 - 1\<rparr>))"

subsection \<open>The store of per-principal buckets\<close>

record bucket_store =
  bs_buckets :: "string \<Rightarrow> token_bucket option"
  bs_rpm :: int

definition new_store :: "int \<Rightarrow> bucket_store" where
  "new_store rpm = \<lparr>bs_buckets = (\<lambda>_. None), bs_rpm = rpm\<rparr>"

definition store_get :: "int \<Rightarrow> string \<Rightarrow> bucket_store \<Rightarrow> token_bucket \<times> bucket_store" where
  "store_get now key s =
     (case bs_buckets s key of
        Some b \<Rightarrow> (b, s)
      | None \<Rightarrow>
          (let b = new_bucket (bs_rpm s) now
           in (b, s\<lparr>bs_buckets := (bs_buckets s)(key \<mapsto> b)\<rparr>)))"

text \<open>
  The handler calls \<open>allow\<close> on the bucket it got: the bucket is shared with the store, so the
  change is seen there. The clock is read once by each of the two calls.
\<close>

definition store_allow :: "int \<Rightarrow> int \<Rightarrow> string \<Rightarrow> bucket_store \<Rightarrow> bool \<times> bucket_store" where
  "store_allow now1 now2 key s =
     (let (b, s1) = store_get now1 key s;
          (ok, b') = allow now2 b
      in (ok, s1\<lparr>bs_buckets := (bs_buckets s1)(key \<mapsto> b')\<rparr>))"

text \<open>One tick of the background loop: stale buckets are dropped.\<close>

definition store_reap :: "int \<Rightarrow> int \<Rightarrow> bucket_store \<Rightarrow> bucket_store" where
  "store_reap interval now s =
     s\<lparr>bs_buckets := (\<lambda>k. case bs_buckets s k of
         None \<Rightarrow> None
       | Some b \<Rightarrow> if tb_last b < now - interval then None else Some b)\<rparr>"

subsection \<open>The number in the rate-limit header\<close>

fun int_digits :: "nat \<Rightarrow> string \<Rightarrow> string" where
  "int_digits n s =
     (if n > 0 then int_digits (n div 10) (char_of (48 + n mod 10) # s) else s)"

declare int_digits.simps [simp del]

text \<open>
  \<open>intToStr\<close>. The argument is the configured limit, which is positive; a negative argument
  would give the one character \<open>'0' + n\<close>.
\<close>

definition int_to_str :: "int \<Rightarrow> string" where
  "int_to_str n = (if n < 10 then [char_of (nat (48 + n))] else int_digits (nat n) [])"

subsection \<open>Refill arithmetic\<close>

definition refill :: "int \<Rightarrow> int \<Rightarrow> int" where
  "refill rpm d = int_of_float (fl64 (seconds d * bucket_rate rpm))"

text \<open>The largest limit for which no refill can overflow.\<close>

definition max_rpm :: int where
  "max_rpm = 2 ^ 31"

lemma fl64_le: "0 \<le> x \<Longrightarrow> fl64 x \<le> x * (1 + 1 / 2 ^ 53)"
  using fl64_err [THEN abs_le_D1, of x] by (simp add: distrib_left)

lemma fl64_ge: "0 \<le> x \<Longrightarrow> x * (1 - 1 / 2 ^ 53) \<le> fl64 x"
  using fl64_err [THEN abs_le_D2, of x] by (simp add: right_diff_distrib)

lemma second_split:
  assumes "0 \<le> d"
  shows "go_div d second = d div second" and "d - second * (d div second) = d mod second"
    and "0 \<le> d mod second" and "d mod second < second"
  using assms by (simp_all add: go_div_nonneg second_def minus_mult_div_eq_mod)

lemma in_int64_second:
  assumes "0 \<le> d" "d < 2 ^ 63"
  shows "0 \<le> d div second" "d div second < 2 ^ 53"
  using assms by (auto simp: second_def)

lemma seconds_eq:
  assumes "0 \<le> d" "d < 2 ^ 63"
  shows "seconds d = fl64 (of_int (d div second) + fl64 (of_int (d mod second) / of_int second))"
proof -
  have "float_of_int (d div second) = of_int (d div second)"
    unfolding float_of_int_def using in_int64_second [OF assms] by (rule fl64_of_int)
  moreover have "float_of_int (d mod second) = of_int (d mod second)"
    unfolding float_of_int_def
    using second_split(3,4) [OF assms(1)] by (intro fl64_of_int) (simp_all add: second_def)
  ultimately show ?thesis
    using second_split(1,2) [OF assms(1)] by (simp add: seconds_def Let_def)
qed

lemma frac_le_1:
  assumes "0 \<le> d"
  shows "0 \<le> fl64 (of_int (d mod second) / of_int second)"
    and "fl64 (of_int (d mod second) / of_int second) \<le> 1"
proof -
  have f: "0 \<le> (of_int (d mod second) / of_int second :: rat)"
    using second_split(3) [OF assms] by (simp add: second_def)
  have "(of_int (d mod second) / of_int second :: rat) \<le> 1"
    using second_split(4) [OF assms] by (simp add: second_def)
  from fl64_mono_nonneg [OF f this] show "fl64 (of_int (d mod second) / of_int second) \<le> 1"
    using fl64_of_int [of 1] by simp
  from f show "0 \<le> fl64 (of_int (d mod second) / of_int second)" by simp
qed

lemma seconds_mono:
  assumes "0 \<le> d" "d \<le> e" "e < 2 ^ 63"
  shows "seconds d \<le> seconds e"
proof -
  let ?f = "\<lambda>d. fl64 (of_int (d mod second) / of_int second) :: rat"
  have e0: "0 \<le> e" and d63: "d < 2 ^ 63" using assms by simp_all
  have "of_int (d div second) + ?f d \<le> of_int (e div second) + ?f e"
  proof (cases "d div second = e div second")
    case True
    then have "d mod second \<le> e mod second"
      using assms(2) by (metis add_le_cancel_left mult_div_mod_eq)
    then have "?f d \<le> ?f e"
      using second_split(3) [OF assms(1)]
      by (intro fl64_mono_nonneg) (simp_all add: second_def divide_right_mono)
    with True show ?thesis by simp
  next
    case False
    moreover have "d div second \<le> e div second"
      using assms(2) by (intro zdiv_mono1) (simp_all add: second_def)
    ultimately have "d div second + 1 \<le> e div second" by simp
    then have "of_int (d div second) + 1 \<le> (of_int (e div second) :: rat)"
      by (metis of_int_1 of_int_add of_int_le_iff)
    then show ?thesis
      using frac_le_1 [OF assms(1)] frac_le_1 [OF e0] by linarith
  qed
  moreover have "0 \<le> of_int (d div second) + ?f d"
    using frac_le_1(1) [OF assms(1)] in_int64_second(1) [OF assms(1) d63]
    by (intro add_nonneg_nonneg) simp_all
  ultimately show ?thesis
    unfolding seconds_eq [OF assms(1) d63] seconds_eq [OF e0 assms(3)]
    by (rule fl64_mono_nonneg [rotated])
qed

lemma seconds_nonneg: "0 \<le> d \<Longrightarrow> d < 2 ^ 63 \<Longrightarrow> 0 \<le> seconds d"
  using seconds_mono [of 0 d] by (simp add: seconds_eq)

subsection \<open>Bounds on a refill\<close>

abbreviation eps :: rat where
  "eps \<equiv> 1 / 2 ^ 53"

lemma bucket_rate_nonneg: "0 \<le> rpm \<Longrightarrow> 0 \<le> bucket_rate rpm"
  by (simp add: bucket_rate_def float_of_int_def)

lemma bucket_rate_bounds:
  assumes "0 \<le> rpm" "rpm \<le> max_rpm"
  shows "bucket_rate rpm \<le> of_int rpm / 60 * (1 + eps)"
    and "of_int rpm / 60 * (1 - eps) \<le> bucket_rate rpm"
proof -
  have f: "float_of_int rpm = of_int rpm"
    unfolding float_of_int_def using assms by (intro fl64_of_int) (simp_all add: max_rpm_def)
  show "bucket_rate rpm \<le> of_int rpm / 60 * (1 + eps)"
    unfolding bucket_rate_def f using assms by (intro fl64_le) simp
  show "of_int rpm / 60 * (1 - eps) \<le> bucket_rate rpm"
    unfolding bucket_rate_def f using assms by (intro fl64_ge) simp
qed

lemma refill_arg_nonneg:
  "0 \<le> d \<Longrightarrow> d < 2 ^ 63 \<Longrightarrow> 0 \<le> rpm \<Longrightarrow> 0 \<le> fl64 (seconds d * bucket_rate rpm)"
  by (intro fl64_nonneg mult_nonneg_nonneg seconds_nonneg bucket_rate_nonneg)

lemma seconds_le:
  assumes "0 \<le> d" "d < 2 ^ 63"
  shows "seconds d \<le> of_int d / of_int second * (1 + 3 * eps)"
proof -
  let ?q = "of_int (d div second) :: rat"
  let ?f = "of_int (d mod second) / of_int second :: rat"
  have q: "0 \<le> ?q" using in_int64_second(1) [OF assms] by simp
  have f: "0 \<le> ?f" using second_split(3) [OF assms(1)] by (simp add: second_def)
  have d: "of_int d / of_int second = ?q + ?f"
  proof -
    have "of_int d = ?q * of_int second + of_int (d mod second)"
      by (metis div_mult_mod_eq of_int_add of_int_mult)
    moreover have "(of_int second :: rat) \<noteq> 0" by (simp add: second_def)
    ultimately show ?thesis by (simp add: add_divide_distrib)
  qed
  have "?q \<le> ?q * (1 + eps)" using q by simp
  moreover have "fl64 ?f \<le> ?f * (1 + eps)" using f by (rule fl64_le)
  ultimately have in1: "?q + fl64 ?f \<le> (?q + ?f) * (1 + eps)"
    unfolding distrib_right [of ?q ?f "1 + eps"] by (rule add_mono)
  have "seconds d \<le> (?q + fl64 ?f) * (1 + eps)"
    unfolding seconds_eq [OF assms] using q f by (intro fl64_le add_nonneg_nonneg) simp_all
  also have "\<dots> \<le> (?q + ?f) * (1 + eps) * (1 + eps)"
    using in1 by (intro mult_right_mono) simp_all
  also have "\<dots> \<le> (?q + ?f) * (1 + 3 * eps)"
    unfolding mult.assoc using q f by (intro mult_left_mono) simp_all
  finally show ?thesis using d by simp
qed

text \<open>The refill is at most the exact one, up to a relative error of \<open>2 ^ -50\<close>.\<close>

lemma refill_arg_le:
  assumes "0 \<le> d" "d < 2 ^ 63" "0 \<le> rpm" "rpm \<le> max_rpm"
  shows "fl64 (seconds d * bucket_rate rpm)
       \<le> of_int (d * rpm) / of_int minute * (1 + 1 / 2 ^ 50)"
proof -
  let ?t = "of_int d / of_int second :: rat" and ?r = "of_int rpm / 60 :: rat"
  have t: "0 \<le> ?t" and r: "0 \<le> ?r" using assms by (simp_all add: second_def)
  have "fl64 (seconds d * bucket_rate rpm) \<le> seconds d * bucket_rate rpm * (1 + eps)"
    using assms by (intro fl64_le mult_nonneg_nonneg seconds_nonneg bucket_rate_nonneg)
  also have "\<dots> \<le> (?t * (1 + 3 * eps)) * (?r * (1 + eps)) * (1 + eps)"
    using assms t r
    by (intro mult_right_mono mult_mono seconds_le bucket_rate_bounds bucket_rate_nonneg) simp_all
  also have "\<dots> = (?t * ?r) * ((1 + 3 * eps) * (1 + eps) * (1 + eps))"
    by (simp only: mult.assoc mult.commute mult.left_commute)
  also have "\<dots> \<le> (?t * ?r) * (1 + 1 / 2 ^ 50)"
    using mult_nonneg_nonneg [OF t r] by (intro mult_left_mono) simp_all
  also have "?t * ?r = of_int (d * rpm) / of_int minute"
    by (simp add: second_def minute_def)
  finally show ?thesis .
qed

text \<open>And it is at least the exact one, up to a relative error of \<open>4 * eps\<close>.\<close>

lemma seconds_ge:
  assumes "0 \<le> d" "d < 2 ^ 63"
  shows "of_int d / of_int second * (1 - 2 * eps) \<le> seconds d"
proof -
  let ?q = "of_int (d div second) :: rat"
  let ?f = "of_int (d mod second) / of_int second :: rat"
  have q: "0 \<le> ?q" using in_int64_second(1) [OF assms] by simp
  have f: "0 \<le> ?f" using second_split(3) [OF assms(1)] by (simp add: second_def)
  have d: "of_int d / of_int second = ?q + ?f"
  proof -
    have "of_int d = ?q * of_int second + of_int (d mod second)"
      by (metis div_mult_mod_eq of_int_add of_int_mult)
    moreover have "(of_int second :: rat) \<noteq> 0" by (simp add: second_def)
    ultimately show ?thesis by (simp add: add_divide_distrib)
  qed
  have "?q * (1 - eps) \<le> ?q" using q by simp
  moreover have "?f * (1 - eps) \<le> fl64 ?f" using f by (rule fl64_ge)
  ultimately have in1: "(?q + ?f) * (1 - eps) \<le> ?q + fl64 ?f"
    unfolding distrib_right [of ?q ?f "1 - eps"] by (rule add_mono)
  have "(?q + ?f) * (1 - 2 * eps) \<le> (?q + ?f) * ((1 - eps) * (1 - eps))"
    using q f by (intro mult_left_mono) simp_all
  also have "\<dots> = (?q + ?f) * (1 - eps) * (1 - eps)" by (simp only: mult.assoc)
  also have "\<dots> \<le> (?q + fl64 ?f) * (1 - eps)"
    using in1 by (intro mult_right_mono) simp_all
  also have "\<dots> \<le> seconds d"
    unfolding seconds_eq [OF assms] using q f by (intro fl64_ge add_nonneg_nonneg) simp_all
  finally show ?thesis using d by simp
qed

lemma refill_arg_ge:
  assumes "0 \<le> d" "d < 2 ^ 63" "0 \<le> rpm" "rpm \<le> max_rpm"
  shows "of_int (d * rpm) / of_int minute * (1 - 4 * eps) \<le> fl64 (seconds d * bucket_rate rpm)"
proof -
  let ?t = "of_int d / of_int second :: rat" and ?r = "of_int rpm / 60 :: rat"
  have t: "0 \<le> ?t" and r: "0 \<le> ?r" using assms by (simp_all add: second_def)
  have "?t * ?r = of_int (d * rpm) / of_int minute"
    by (simp add: second_def minute_def)
  then have "of_int (d * rpm) / of_int minute * (1 - 4 * eps) = (?t * ?r) * (1 - 4 * eps)" by (simp only:)
  also have "\<dots> \<le> (?t * ?r) * ((1 - 2 * eps) * (1 - eps) * (1 - eps))"
    using mult_nonneg_nonneg [OF t r] by (intro mult_left_mono) simp_all
  also have "\<dots> = (?t * (1 - 2 * eps)) * (?r * (1 - eps)) * (1 - eps)"
    by (simp only: mult.assoc mult.commute mult.left_commute)
  also have "\<dots> \<le> seconds d * bucket_rate rpm * (1 - eps)"
    using assms t r
    by (intro mult_right_mono mult_mono seconds_ge bucket_rate_bounds seconds_nonneg) simp_all
  also have "\<dots> \<le> fl64 (seconds d * bucket_rate rpm)"
    using assms by (intro fl64_ge mult_nonneg_nonneg seconds_nonneg bucket_rate_nonneg)
  finally show ?thesis .
qed

lemma refill_arg_small:
  assumes "0 \<le> d" "d < 2 ^ 63" "0 \<le> rpm" "rpm \<le> max_rpm"
  shows "fl64 (seconds d * bucket_rate rpm) < 2 ^ 60"
proof -
  have "d * rpm \<le> 2 ^ 63 * 2 ^ 31"
    using assms by (intro mult_mono) (simp_all add: max_rpm_def)
  then have "(of_int (d * rpm) :: rat) \<le> of_int (2 ^ 63 * 2 ^ 31)"
    by (simp only: of_int_le_iff)
  then have "of_int (d * rpm) / of_int minute * (1 + 1 / 2 ^ 50)
      \<le> (of_int (2 ^ 63 * 2 ^ 31) / of_int minute * (1 + 1 / 2 ^ 50) :: rat)"
    by (intro mult_right_mono divide_right_mono) (simp_all add: minute_def second_def)
  also have "\<dots> < 2 ^ 60" by (simp add: minute_def second_def)
  finally show ?thesis using refill_arg_le [OF assms] by linarith
qed

lemma refill_floor:
  assumes "0 \<le> d" "d < 2 ^ 63" "0 \<le> rpm" "rpm \<le> max_rpm"
  shows "refill rpm d = \<lfloor>fl64 (seconds d * bucket_rate rpm)\<rfloor>"
  unfolding refill_def using refill_arg_nonneg [OF assms(1-3)] refill_arg_small [OF assms]
  by (intro int_of_float_nonneg) simp_all

lemma refill_bounds:
  assumes "0 \<le> d" "d < 2 ^ 63" "0 \<le> rpm" "rpm \<le> max_rpm"
  shows "0 \<le> refill rpm d" and "refill rpm d < 2 ^ 60"
    and "of_int (refill rpm d) \<le> of_int (d * rpm) / of_int minute * (1 + 1 / 2 ^ 50 :: rat)"
proof -
  show "0 \<le> refill rpm d"
    using refill_arg_nonneg [OF assms(1-3)] by (simp add: refill_floor [OF assms])
  show "refill rpm d < 2 ^ 60"
    using refill_arg_small [OF assms] by (simp add: refill_floor [OF assms] floor_less_iff)
  show "of_int (refill rpm d) \<le> of_int (d * rpm) / of_int minute * (1 + 1 / 2 ^ 50 :: rat)"
    using refill_arg_le [OF assms] by (simp add: refill_floor [OF assms]) linarith
qed

lemma refill_mono:
  assumes "0 \<le> d" "d \<le> e" "e < 2 ^ 63" "0 \<le> rpm" "rpm \<le> max_rpm"
  shows "refill rpm d \<le> refill rpm e"
proof -
  have "seconds d * bucket_rate rpm \<le> seconds e * bucket_rate rpm"
    using assms by (intro mult_right_mono seconds_mono bucket_rate_nonneg)
  then have "fl64 (seconds d * bucket_rate rpm) \<le> fl64 (seconds e * bucket_rate rpm)"
    using assms by (intro fl64_mono_nonneg mult_nonneg_nonneg seconds_nonneg bucket_rate_nonneg) simp_all
  then show ?thesis
    using assms by (simp add: refill_floor floor_mono)
qed

text \<open>Ten minutes refill any bucket completely.\<close>

lemma refill_ten_minutes:
  assumes "10 * minute \<le> d" "d < 2 ^ 63" "0 \<le> rpm" "rpm \<le> max_rpm"
  shows "rpm \<le> refill rpm d"
proof -
  have d: "0 \<le> d" using assms(1) by (simp add: minute_def second_def)
  have "seconds (10 * minute) = 600"
    using fl64_of_int [of 600] by (simp add: seconds_eq minute_def second_def)
  then have s: "600 \<le> seconds d"
    using seconds_mono [of "10 * minute" d] assms by (simp add: minute_def second_def)
  have "of_int rpm \<le> 600 * (of_int rpm / 60 * (1 - eps)) * (1 - eps)"
    using assms(3) by simp
  also have "\<dots> \<le> seconds d * bucket_rate rpm * (1 - eps)"
    using s assms by (intro mult_right_mono mult_mono bucket_rate_bounds) simp_all
  also have "\<dots> \<le> fl64 (seconds d * bucket_rate rpm)"
    using assms d by (intro fl64_ge mult_nonneg_nonneg seconds_nonneg bucket_rate_nonneg)
  finally show ?thesis by (simp add: refill_floor [OF d assms(2-4)] le_floor_iff)
qed

end
