(* ===== verification/Limiter.thy ===== *)
theory Limiter
  imports Token_Bucket
begin

text \<open>
  The contract of a rate limiter, the facts that follow from it, and the token bucket as the
  limiter the server runs. A limiter has a level that never leaves \<open>[0, cap]\<close>; a call first
  adds the credit earned since the last call, cut off at the capacity, and is admitted exactly
  when one unit is left, which it takes.
\<close>

subsection \<open>Sequences of calls\<close>

fun run_calls :: "('t \<Rightarrow> 'b \<Rightarrow> bool \<times> 'b) \<Rightarrow> 't list \<Rightarrow> 'b \<Rightarrow> bool list \<times> 'b" where
  "run_calls f [] b = ([], b)"
| "run_calls f (t # ts) b =
     (let (ok, b1) = f t b; (oks, b2) = run_calls f ts b1 in (ok # oks, b2))"

definition admitted :: "bool list \<Rightarrow> int" where
  "admitted oks = int (length (filter id oks))"

lemma admitted_simps [simp]:
  "admitted [] = 0" "admitted (ok # oks) = (if ok then 1 else 0) + admitted oks"
  by (simp_all add: admitted_def)

text \<open>The gaps between the times of the calls, the first one from the limiter's last call.\<close>

fun gaps :: "int \<Rightarrow> int list \<Rightarrow> int list" where
  "gaps u [] = []"
| "gaps u (t # ts) = (t - u) # gaps t ts"

text \<open>A clock that never goes back, and no gap longer than a \<open>Duration\<close> (292 years).\<close>

definition gap_ok :: "int \<Rightarrow> bool" where
  "gap_ok d \<longleftrightarrow> 0 \<le> d \<and> d < 2 ^ 63"

lemma length_gaps [simp]: "length (gaps u ts) = length ts"
  by (induction ts arbitrary: u) simp_all

text \<open>A client that calls at a fixed interval.\<close>

fun every :: "int \<Rightarrow> int \<Rightarrow> nat \<Rightarrow> int list" where
  "every u d 0 = []"
| "every u d (Suc n) = (u + d) # every (u + d) d n"

lemma gaps_every [simp]: "gaps u (every u d n) = replicate n d"
  by (induction n arbitrary: u) simp_all

lemma length_every [simp]: "length (every u d n) = n"
  by (induction n arbitrary: u) simp_all

subsection \<open>The contract\<close>

locale limiter =
  fixes admit :: "int \<Rightarrow> 'b \<Rightarrow> bool \<times> 'b"
    and level :: "'b \<Rightarrow> int"
    and cap :: "'b \<Rightarrow> int"
    and last_call :: "'b \<Rightarrow> int"
    and credit :: "'b \<Rightarrow> int \<Rightarrow> int"
    and inv :: "'b \<Rightarrow> bool"
  assumes level_range: "inv b \<Longrightarrow> 0 \<le> level b \<and> level b \<le> cap b"
    and credit_nonneg: "inv b \<Longrightarrow> gap_ok d \<Longrightarrow> 0 \<le> credit b d"
    and admit_inv: "inv b \<Longrightarrow> gap_ok (now - last_call b) \<Longrightarrow> inv (snd (admit now b))"
    and admit_last: "last_call (snd (admit now b)) = now"
    and admit_cap: "cap (snd (admit now b)) = cap b"
    and admit_credit: "inv b \<Longrightarrow> credit (snd (admit now b)) = credit b"
    and admit_iff: "inv b \<Longrightarrow> gap_ok (now - last_call b) \<Longrightarrow>
      fst (admit now b) \<longleftrightarrow> 0 < min (cap b) (level b + credit b (now - last_call b))"
    and admit_level: "inv b \<Longrightarrow> gap_ok (now - last_call b) \<Longrightarrow>
      level (snd (admit now b)) =
        min (cap b) (level b + credit b (now - last_call b)) - (if fst (admit now b) then 1 else 0)"
begin

lemma run_inv:
  "inv b \<Longrightarrow> list_all gap_ok (gaps (last_call b) ts) \<Longrightarrow> run_calls admit ts b = (oks, b') \<Longrightarrow>
     inv b' \<and> cap b' = cap b"
proof (induction ts arbitrary: b oks)
  case (Cons t ts)
  then show ?case
    using admit_inv [of b t] admit_last [of t b] admit_cap [of t b]
    by (auto split: prod.splits)
qed simp

text \<open>What is admitted is paid for by the level at the start and the credit earned since.\<close>

lemma run_admitted:
  "inv b \<Longrightarrow> list_all gap_ok (gaps (last_call b) ts) \<Longrightarrow> run_calls admit ts b = (oks, b') \<Longrightarrow>
     admitted oks + level b' \<le> level b + sum_list (map (credit b) (gaps (last_call b) ts))"
proof (induction ts arbitrary: b oks)
  case (Cons t ts)
  obtain ok b1 where a: "admit t b = (ok, b1)" by force
  obtain oks1 where r: "run_calls admit ts b1 = (oks1, b')" and oks: "oks = ok # oks1"
    using Cons.prems(3) a by (auto split: prod.splits)
  have g: "gap_ok (t - last_call b)" and gs: "list_all gap_ok (gaps t ts)"
    using Cons.prems(2) by simp_all
  have b1: "inv b1" "last_call b1 = t" "credit b1 = credit b"
    using admit_inv [OF Cons.prems(1) g] admit_last [of t b] admit_credit [OF Cons.prems(1), of t] a
    by simp_all
  have "level b1 + (if ok then 1 else 0) \<le> level b + credit b (t - last_call b)"
    using admit_level [OF Cons.prems(1) g] a by simp
  moreover have "admitted oks1 + level b' \<le> level b1 + sum_list (map (credit b) (gaps t ts))"
    using Cons.IH [of b1 oks1] b1 gs r by simp
  ultimately show ?case by (simp add: oks)
qed simp

lemma run_bound:
  assumes "inv b" "list_all gap_ok (gaps (last_call b) ts)" "run_calls admit ts b = (oks, b')"
  shows "admitted oks \<le> cap b + sum_list (map (credit b) (gaps (last_call b) ts))"
  using run_admitted [OF assms] run_inv [OF assms] level_range [of b'] level_range [OF assms(1)]
  by linarith

text \<open>A limiter at level 0 that earns nothing between two calls admits nothing.\<close>

lemma run_starved:
  "inv b \<Longrightarrow> level b = 0 \<Longrightarrow> list_all gap_ok (gaps (last_call b) ts) \<Longrightarrow>
     \<forall>d \<in> set (gaps (last_call b) ts). credit b d = 0 \<Longrightarrow>
     fst (run_calls admit ts b) = replicate (length ts) False"
proof (induction ts arbitrary: b)
  case (Cons t ts)
  obtain ok b1 where a: "admit t b = (ok, b1)" by force
  have g: "gap_ok (t - last_call b)" using Cons.prems(3) by simp
  have z: "credit b (t - last_call b) = 0" using Cons.prems(4) by simp
  have ok: "\<not> ok"
    using admit_iff [OF Cons.prems(1) g] a z Cons.prems(2) by simp
  have b1: "inv b1" "last_call b1 = t" "credit b1 = credit b"
    using admit_inv [OF Cons.prems(1) g] admit_last [of t b] admit_credit [OF Cons.prems(1), of t] a
    by simp_all
  have "level b1 = 0"
    using admit_level [OF Cons.prems(1) g] a z ok Cons.prems(2) level_range [OF b1(1)] by simp
  with Cons.IH [of b1] b1 Cons.prems(3,4) have "fst (run_calls admit ts b1) = replicate (length ts) False"
    by simp
  with a ok show ?case by (cases "run_calls admit ts b1") simp
qed simp

text \<open>A client that has earned a unit before each call is never refused, whatever the level.\<close>

lemma run_patient:
  "inv b \<Longrightarrow> 0 < cap b \<Longrightarrow> list_all gap_ok (gaps (last_call b) ts) \<Longrightarrow>
     \<forall>d \<in> set (gaps (last_call b) ts). 1 \<le> credit b d \<Longrightarrow>
     fst (run_calls admit ts b) = replicate (length ts) True"
proof (induction ts arbitrary: b)
  case (Cons t ts)
  obtain ok b1 where a: "admit t b = (ok, b1)" by force
  have g: "gap_ok (t - last_call b)" using Cons.prems(3) by simp
  have "1 \<le> credit b (t - last_call b)" using Cons.prems(4) by simp
  then have ok: "ok"
    using admit_iff [OF Cons.prems(1) g] a Cons.prems(2) level_range [OF Cons.prems(1)] by simp
  have b1: "inv b1" "last_call b1 = t" "credit b1 = credit b" "cap b1 = cap b"
    using admit_inv [OF Cons.prems(1) g] admit_last [of t b] admit_credit [OF Cons.prems(1), of t] admit_cap [of t b] a
    by simp_all
  with Cons.IH [of b1] Cons.prems(2-4) have "fst (run_calls admit ts b1) = replicate (length ts) True"
    by simp
  with a ok show ?case by (cases "run_calls admit ts b1") simp
qed simp

end

subsection \<open>The token bucket is a limiter\<close>

definition bucket_inv :: "token_bucket \<Rightarrow> bool" where
  "bucket_inv b \<longleftrightarrow>
     0 < tb_capacity b \<and> tb_capacity b \<le> max_rpm \<and> 0 \<le> tb_tokens b
     \<and> tb_tokens b \<le> tb_capacity b \<and> tb_rate b = bucket_rate (tb_capacity b)"

definition bucket_credit :: "token_bucket \<Rightarrow> int \<Rightarrow> int" where
  "bucket_credit b d = refill (tb_capacity b) d"

lemma time_sub_gap: "gap_ok (t - u) \<Longrightarrow> time_sub t u = t - u"
  by (simp add: time_sub_def gap_ok_def)

lemma allow_simp:
  assumes "bucket_inv b" "gap_ok (now - tb_last b)"
  shows "allow now b =
     (let t = min (tb_capacity b) (tb_tokens b + refill (tb_capacity b) (now - tb_last b))
      in if t \<le> 0 then (False, b\<lparr>tb_last := now, tb_tokens := t\<rparr>)
         else (True, b\<lparr>tb_last := now, tb_tokens := t - 1\<rparr>))"
proof -
  let ?r = "refill (tb_capacity b) (now - tb_last b)"
  have rng: "0 \<le> ?r" "?r < 2 ^ 60"
    using refill_bounds(1,2) [of "now - tb_last b" "tb_capacity b"] assms
    by (simp_all add: bucket_inv_def gap_ok_def)
  have i: "in_int64 (tb_tokens b + ?r)"
    using rng assms(1) by (simp add: bucket_inv_def in_int64_def max_rpm_def)
  have f: "int_of_float (fl64 (seconds (time_sub now (tb_last b)) * tb_rate b)) = ?r"
    using assms by (simp add: time_sub_gap bucket_inv_def refill_def)
  have m: "min (tb_capacity b) (tb_tokens b + ?r) =
      (if tb_capacity b < tb_tokens b + ?r then tb_capacity b else tb_tokens b + ?r)" by simp
  have w: "wrap64 (tb_tokens b + ?r) = tb_tokens b + ?r" using i by simp
  show ?thesis
    by (simp add: allow_def Let_def f w m)
qed

lemma bucket_refill_nonneg:
  "bucket_inv b \<Longrightarrow> gap_ok d \<Longrightarrow> 0 \<le> refill (tb_capacity b) d"
  by (rule refill_bounds) (simp_all add: bucket_inv_def gap_ok_def)

interpretation bucket: limiter allow tb_tokens tb_capacity tb_last bucket_credit bucket_inv
proof (unfold_locales, goal_cases)
  case (1 b)
  then show ?case by (simp add: bucket_inv_def)
next
  case (2 b d)
  then show ?case by (simp add: bucket_credit_def bucket_refill_nonneg)
next
  case (3 b now)
  with bucket_refill_nonneg [OF 3] show ?case
    by (auto simp: allow_simp Let_def bucket_inv_def min_def)
next
  case (4 now b)
  show ?case by (simp add: allow_def Let_def)
next
  case (5 now b)
  show ?case by (simp add: allow_def Let_def)
next
  case (6 b now)
  show ?case by (simp add: allow_def Let_def bucket_credit_def fun_eq_iff)
next
  case (7 b now)
  then show ?case
    by (auto simp: allow_simp Let_def bucket_credit_def min_def split: if_splits)
next
  case (8 b now)
  then show ?case by (simp add: allow_simp Let_def bucket_credit_def)
qed

lemma new_bucket_inv [simp]:
  "0 < rpm \<Longrightarrow> rpm \<le> max_rpm \<Longrightarrow> bucket_inv (new_bucket rpm now)"
  by (simp add: new_bucket_def bucket_inv_def)

lemma new_bucket_simps [simp]:
  "tb_capacity (new_bucket rpm now) = rpm" "tb_tokens (new_bucket rpm now) = rpm"
  "tb_last (new_bucket rpm now) = now" "tb_rate (new_bucket rpm now) = bucket_rate rpm"
  by (simp_all add: new_bucket_def)

text \<open>The sum of the refills over a run is at most the refill the whole window pays for.\<close>

lemma sum_refill_le:
  assumes "\<forall>d \<in> set ds. gap_ok d" "0 \<le> rpm" "rpm \<le> max_rpm"
  shows "of_int (sum_list (map (refill rpm) ds))
       \<le> of_int (sum_list ds * rpm) / of_int minute * (1 + 1 / 2 ^ 50 :: rat)"
  using assms(1)
proof (induction ds)
  case (Cons d ds)
  have "of_int (refill rpm d) \<le> of_int (d * rpm) / of_int minute * (1 + 1 / 2 ^ 50 :: rat)"
    using Cons.prems assms(2,3) by (intro refill_bounds) (auto simp: gap_ok_def)
  moreover have "of_int (sum_list ds * rpm) / of_int minute * (1 + 1 / 2 ^ 50 :: rat)
      + of_int (d * rpm) / of_int minute * (1 + 1 / 2 ^ 50)
      = of_int (sum_list (d # ds) * rpm) / of_int minute * (1 + 1 / 2 ^ 50)"
    by (simp add: distrib_right add_divide_distrib)
  ultimately show ?case using Cons by simp
qed simp

text \<open>A gap too short for one whole token earns nothing at all.\<close>

lemma refill_zero:
  assumes "0 \<le> d" "d < 2 ^ 63" "0 \<le> rpm" "rpm \<le> max_rpm" "d * rpm < minute"
  shows "refill rpm d = 0"
proof -
  have "d * rpm \<le> minute - 1" using assms(5) by simp
  then have "(of_int (d * rpm) :: rat) \<le> of_int (minute - 1)" by (simp only: of_int_le_iff)
  then have "of_int (d * rpm) / of_int minute * (1 + 1 / 2 ^ 50)
      \<le> (of_int (minute - 1) / of_int minute * (1 + 1 / 2 ^ 50) :: rat)"
    by (intro mult_right_mono divide_right_mono) (simp_all add: minute_def second_def)
  also have "\<dots> < 1" by (simp add: minute_def second_def)
  finally have "of_int (refill rpm d) < (1 :: rat)"
    using refill_bounds(3) [OF assms(1-4)] by linarith
  then show ?thesis using refill_bounds(1) [OF assms(1-4)] by simp
qed

text \<open>A gap worth one token, up to the rounding, earns one.\<close>

lemma refill_one:
  assumes "0 \<le> d" "d < 2 ^ 63" "0 \<le> rpm" "rpm \<le> max_rpm"
    and "of_int minute * (1 + 1 / 2 ^ 50) \<le> (of_int (d * rpm) :: rat)"
  shows "1 \<le> refill rpm d"
proof -
  have "1 \<le> of_int (d * rpm) / of_int minute * (1 - 4 * eps)"
  proof -
    have "1 \<le> (1 + 1 / 2 ^ 50) * (1 - 4 * eps)" by simp
    also have "\<dots> \<le> of_int (d * rpm) / of_int minute * (1 - 4 * eps)"
      using assms(5) by (intro mult_right_mono) (simp_all add: minute_def second_def)
    finally show ?thesis .
  qed
  also have "\<dots> \<le> fl64 (seconds d * bucket_rate rpm)"
    by (rule refill_arg_ge [OF assms(1-4)])
  finally show ?thesis by (simp add: refill_floor [OF assms(1-4)])
qed

lemma sum_gaps: "sum_list (gaps u ts) = last (u # ts) - u"
  by (induction ts arbitrary: u) simp_all

subsection \<open>The store of buckets\<close>

definition bucket_at :: "string \<Rightarrow> int \<Rightarrow> bucket_store \<Rightarrow> token_bucket" where
  "bucket_at k t s = (case bs_buckets s k of Some b \<Rightarrow> b | None \<Rightarrow> new_bucket (bs_rpm s) t)"

lemma store_allow_eq:
  "store_allow t1 t2 k s =
     (fst (allow t2 (bucket_at k t1 s)),
      s\<lparr>bs_buckets := (bs_buckets s)(k \<mapsto> snd (allow t2 (bucket_at k t1 s)))\<rparr>)"
  by (simp add: store_allow_def store_get_def bucket_at_def Let_def split: option.splits prod.splits)

text \<open>Calls by several principals: the two clock readings and the principal of each.\<close>

fun store_run ::
  "(int \<times> int \<times> string) list \<Rightarrow> bucket_store \<Rightarrow> (string \<times> bool) list \<times> bucket_store" where
  "store_run [] s = ([], s)"
| "store_run ((t1, t2, k) # cs) s =
     (let (ok, s1) = store_allow t1 t2 k s; (oks, s2) = store_run cs s1 in ((k, ok) # oks, s2))"

definition calls_of :: "string \<Rightarrow> (int \<times> int \<times> string) list \<Rightarrow> (int \<times> int) list" where
  "calls_of k cs = map (\<lambda>(t1, t2, _). (t1, t2)) (filter (\<lambda>(_, _, k'). k' = k) cs)"

definition decisions_for :: "string \<Rightarrow> (string \<times> bool) list \<Rightarrow> bool list" where
  "decisions_for k rs = map snd (filter (\<lambda>(k', _). k' = k) rs)"

definition first_read :: "(int \<times> int) list \<Rightarrow> int" where
  "first_read cs = (case cs of [] \<Rightarrow> 0 | (t1, _) # _ \<Rightarrow> t1)"

lemma bucket_at_stored [simp]:
  "bs_buckets s k = Some b \<Longrightarrow> bucket_at k t s = b"
  by (simp add: bucket_at_def)

lemma bucket_at_other [simp]:
  "k' \<noteq> k \<Longrightarrow> bucket_at k t (s\<lparr>bs_buckets := (bs_buckets s)(k' \<mapsto> b)\<rparr>) = bucket_at k t s"
  by (cases "bs_buckets s k") (simp_all add: bucket_at_def)

text \<open>C20. Each principal has a bucket of its own: whatever the other principals do in between,
  the decisions for one principal are those of a private bucket that sees only its calls.\<close>

theorem principals_are_isolated:
  "decisions_for k (fst (store_run cs s)) =
     fst (run_calls allow (map snd (calls_of k cs)) (bucket_at k (first_read (calls_of k cs)) s))"
proof (induction cs arbitrary: s)
  case Nil
  show ?case by (simp add: decisions_for_def calls_of_def)
next
  case (Cons c cs)
  obtain t1 t2 k' where c: "c = (t1, t2, k')" by (cases c) auto
  let ?b = "snd (allow t2 (bucket_at k' t1 s))"
  let ?s = "s\<lparr>bs_buckets := (bs_buckets s)(k' \<mapsto> ?b)\<rparr>"
  have hd: "fst (store_run (c # cs) s) =
      (k', fst (allow t2 (bucket_at k' t1 s))) # fst (store_run cs ?s)"
    by (simp add: c store_allow_eq split: prod.splits)
  show ?case
  proof (cases "k' = k")
    case True
    have "bucket_at k t ?s = ?b" for t using True by (simp add: bucket_at_def)
    with Cons.IH [of ?s] True hd c show ?thesis
      by (simp add: decisions_for_def calls_of_def first_read_def split: prod.splits)
  next
    case False
    with Cons.IH [of ?s] hd c show ?thesis
      by (simp add: decisions_for_def calls_of_def)
  qed
qed
text \<open>Every stored bucket is well-formed and has the configured capacity.\<close>

definition store_inv :: "bucket_store \<Rightarrow> bool" where
  "store_inv s \<longleftrightarrow> 0 < bs_rpm s \<and> bs_rpm s \<le> max_rpm
     \<and> (\<forall>k b. bs_buckets s k = Some b \<longrightarrow> bucket_inv b \<and> tb_capacity b = bs_rpm s)"

lemma store_inv_bucket_at:
  "store_inv s \<Longrightarrow> bucket_inv (bucket_at k t s) \<and> tb_capacity (bucket_at k t s) = bs_rpm s"
  by (cases "bs_buckets s k") (auto simp: store_inv_def bucket_at_def)

lemma new_store_inv: "0 < rpm \<Longrightarrow> rpm \<le> max_rpm \<Longrightarrow> store_inv (new_store rpm)"
  by (simp add: store_inv_def new_store_def)

lemma store_allow_inv:
  assumes "store_inv s" "gap_ok (t2 - tb_last (bucket_at k t1 s))"
  shows "store_inv (snd (store_allow t1 t2 k s))"
  using assms(1) bucket.admit_inv [OF _ assms(2)] bucket.admit_cap [of t2 "bucket_at k t1 s"]
    store_inv_bucket_at [OF assms(1), of k t1]
  by (auto simp: store_allow_eq store_inv_def)

lemma store_reap_inv: "store_inv s \<Longrightarrow> store_inv (store_reap i now s)"
  by (auto simp: store_inv_def store_reap_def split: option.splits if_splits)

subsection \<open>Properties\<close>

text \<open>C22. A patient client is always served: from any state of the bucket, even an empty one, a client
  whose calls are each at least one token's worth of time apart (\<open>gap * rpm\<close> a minute, with a
  margin of one part in \<open>2 ^ 50\<close> for the rounding) is admitted every time, for as long as it
  keeps to that; so with the starvation below, the gap of one token is the exact threshold.\<close>

theorem patient_client_is_admitted:
  assumes "bucket_inv b"
    and "\<forall>d \<in> set (gaps (tb_last b) ts).
      0 \<le> d \<and> d < 2 ^ 63 \<and> of_int minute * (1 + 1 / 2 ^ 50) \<le> (of_int (d * tb_capacity b) :: rat)"
  shows "fst (run_calls allow ts b) = replicate (length ts) True"
proof (rule bucket.run_patient [OF assms(1)])
  show "0 < tb_capacity b" using assms(1) by (simp add: bucket_inv_def)
  show "list_all gap_ok (gaps (tb_last b) ts)"
    using assms(2) by (simp add: list_all_iff gap_ok_def)
  show "\<forall>d \<in> set (gaps (tb_last b) ts). 1 \<le> bucket_credit b d"
    using assms by (auto simp: bucket_credit_def bucket_inv_def intro!: refill_one)
qed

lemma patient_client_is_admitted_witness:
  "fst (run_calls allow (every 0 (2 * minute) 3) (new_bucket 1 0)) = [True, True, True]"
proof -
  have "fst (run_calls allow (every 0 (2 * minute) 3) (new_bucket 1 0))
      = replicate (length (every 0 (2 * minute) 3)) True"
    by (rule patient_client_is_admitted) (simp_all add: max_rpm_def minute_def second_def)
  then show ?thesis by (simp add: numeral_3_eq_3)
qed

text \<open>What a fresh bucket admits.\<close>

lemma fresh_bucket_admits:
  assumes "0 < rpm" "rpm \<le> max_rpm" "list_all gap_ok (gaps t0 ts)"
    and "run_calls allow ts (new_bucket rpm t0) = (oks, b)"
  shows "of_int (admitted oks)
       \<le> of_int rpm + of_int ((last (t0 # ts) - t0) * rpm) / of_int minute * (1 + 1 / 2 ^ 50 :: rat)"
    and "bucket_inv b" "tb_capacity b = rpm"
proof -
  let ?g = "gaps t0 ts"
  have b0: "bucket_inv (new_bucket rpm t0)" "list_all gap_ok (gaps (tb_last (new_bucket rpm t0)) ts)"
    using assms(1-3) by simp_all
  have "admitted oks \<le> rpm + sum_list (map (bucket_credit (new_bucket rpm t0)) ?g)"
    using bucket.run_bound [OF b0 assms(4)] by simp
  moreover have "bucket_credit (new_bucket rpm t0) = refill rpm"
    by (simp add: bucket_credit_def fun_eq_iff)
  ultimately have "of_int (admitted oks) \<le> (of_int (rpm + sum_list (map (refill rpm) ?g)) :: rat)"
    by (simp only: of_int_le_iff)
  moreover have "of_int (sum_list (map (refill rpm) ?g))
      \<le> of_int (sum_list ?g * rpm) / of_int minute * (1 + 1 / 2 ^ 50 :: rat)"
    using assms(1-3) by (intro sum_refill_le) (simp_all add: list_all_iff)
  ultimately show "of_int (admitted oks)
       \<le> of_int rpm + of_int ((last (t0 # ts) - t0) * rpm) / of_int minute * (1 + 1 / 2 ^ 50 :: rat)"
    by (simp add: sum_gaps)
  show "bucket_inv b" "tb_capacity b = rpm"
    using bucket.run_inv [OF b0 assms(4)] by simp_all
qed

text \<open>C6. From a fresh bucket, the requests admitted in any window are at most the configured
  burst plus what the elapsed time pays for at the configured rate (up to the rounding of
  \<open>float64\<close>), and the tokens stay between 0 and the capacity.\<close>

theorem rate_limit_bound:
  assumes "0 < rpm" "rpm \<le> max_rpm" "list_all gap_ok (gaps t0 ts)"
    and "run_calls allow ts (new_bucket rpm t0) = (oks, b)"
  shows "of_int (admitted oks)
       \<le> of_int rpm + of_int ((last (t0 # ts) - t0) * rpm) / of_int minute * (1 + 1 / 2 ^ 50 :: rat)
     \<and> 0 \<le> tb_tokens b \<and> tb_tokens b \<le> rpm"
  using fresh_bucket_admits [OF assms] by (auto simp: bucket_inv_def)

lemma rate_limit_bound_witness:
  "run_calls allow [5, 5] (new_bucket 1 5) = ([True, False], \<lparr>tb_capacity = 1, tb_tokens = 0,
     tb_rate = bucket_rate 1, tb_last = 5\<rparr>) \<and> admitted [True, False] \<le> 1"
proof -
  have r: "refill 1 0 = 0" by (rule refill_zero) (simp_all add: minute_def second_def max_rpm_def)
  have run: "run_calls allow [5, 5] (new_bucket 1 5) = ([True, False], \<lparr>tb_capacity = 1, tb_tokens = 0,
     tb_rate = bucket_rate 1, tb_last = 5\<rparr>)"
    by (simp add: allow_simp bucket_inv_def gap_ok_def max_rpm_def r Let_def new_bucket_def)
  show ?thesis
    using rate_limit_bound [of 1 5 "[5, 5]", OF _ _ _ run] run by (simp add: gap_ok_def max_rpm_def)
qed

text \<open>C21. The time of the last call moves even when nothing is refilled, and the fraction of a
  token earned is dropped. So once the bucket is empty, a stream of requests whose gaps are
  all shorter than one token's worth of time (\<open>gap * rpm < 60 s\<close>) is refused for ever, however
  long it lasts, although the configured rate would admit \<open>rpm\<close> requests a minute.\<close>

theorem busy_bucket_starves:
  assumes "bucket_inv b" "tb_tokens b = 0"
    and "\<forall>d \<in> set (gaps (tb_last b) ts). 0 \<le> d \<and> d * tb_capacity b < minute"
  shows "fst (run_calls allow ts b) = replicate (length ts) False"
proof (rule bucket.run_starved [OF assms(1,2)])
  have small: "d < 2 ^ 63" if "d \<in> set (gaps (tb_last b) ts)" for d
  proof -
    have "0 \<le> d" "d * tb_capacity b < minute" using assms(3) that by auto
    moreover have "1 \<le> tb_capacity b" using assms(1) by (simp add: bucket_inv_def)
    ultimately have "d < minute" using mult_left_mono [of 1 "tb_capacity b" d] by simp
    then show ?thesis by (simp add: minute_def second_def)
  qed
  then show "list_all gap_ok (gaps (tb_last b) ts)"
    using assms(3) by (simp add: list_all_iff gap_ok_def)
  show "\<forall>d \<in> set (gaps (tb_last b) ts). bucket_credit b d = 0"
    using assms(1,3) small by (auto simp: bucket_credit_def bucket_inv_def intro!: refill_zero)
qed

text \<open>The witness: a limit of 30 requests a minute, and a client that waits the one second the
  server's own \<open>Retry-After\<close> header asks for.\<close>

lemma busy_bucket_starves_witness:
  "fst (run_calls allow (every 0 second 1000)
     \<lparr>tb_capacity = 30, tb_tokens = 0, tb_rate = bucket_rate 30, tb_last = 0\<rparr>)
   = replicate 1000 False"
  using busy_bucket_starves [of "\<lparr>tb_capacity = 30, tb_tokens = 0, tb_rate = bucket_rate 30, tb_last = 0\<rparr>"
      "every 0 second 1000"]
  by (simp add: bucket_inv_def max_rpm_def minute_def second_def)

text \<open>C23. Dropping a bucket nobody used for ten minutes cannot be noticed: a principal's next call
  gets the same answer and leaves the same bucket behind, whether or not the reaper ran.\<close>

theorem reaping_is_unobservable:
  assumes "store_inv s" "tr \<le> t1" "t1 \<le> t2" "t2 - t1 < 2 ^ 63"
    and "gap_ok (t2 - tb_last (bucket_at k t1 s))"
  shows "fst (store_allow t1 t2 k (store_reap (10 * minute) tr s)) = fst (store_allow t1 t2 k s)
    \<and> bs_buckets (snd (store_allow t1 t2 k (store_reap (10 * minute) tr s))) k
      = bs_buckets (snd (store_allow t1 t2 k s)) k"
proof (cases "\<exists>b. bs_buckets s k = Some b \<and> tb_last b < tr - 10 * minute")
  case False
  then have "bucket_at k t1 (store_reap (10 * minute) tr s) = bucket_at k t1 s"
    by (cases "bs_buckets s k") (auto simp: bucket_at_def store_reap_def)
  then show ?thesis by (simp add: store_allow_eq)
next
  case True
  then obtain b where b: "bs_buckets s k = Some b" "tb_last b < tr - 10 * minute" by blast
  let ?rpm = "bs_rpm s"
  let ?n = "new_bucket ?rpm t1"
  have rpm: "0 < ?rpm" "?rpm \<le> max_rpm" and bi: "bucket_inv b" "tb_capacity b = ?rpm"
    using assms(1) b(1) by (auto simp: store_inv_def)
  have gb: "gap_ok (t2 - tb_last b)" using assms(5) b(1) by simp
  have gn: "gap_ok (t2 - tb_last ?n)" using assms(3,4) by (simp add: gap_ok_def)
  have "?rpm \<le> refill ?rpm (t2 - tb_last b)"
    using b(2) assms(2,3) gb rpm by (intro refill_ten_minutes) (simp_all add: gap_ok_def)
  moreover have "0 \<le> tb_tokens b" using bi(1) by (simp add: bucket_inv_def)
  ultimately have full: "min ?rpm (tb_tokens b + refill ?rpm (t2 - tb_last b)) = ?rpm" by simp
  have "0 \<le> refill ?rpm (t2 - t1)"
    using gn rpm by (intro refill_bounds) (simp_all add: gap_ok_def)
  then have fulln: "min ?rpm (?rpm + refill ?rpm (t2 - t1)) = ?rpm" by simp
  have "allow t2 b = (True, b\<lparr>tb_last := t2, tb_tokens := ?rpm - 1\<rparr>)"
    using allow_simp [OF bi(1) gb] bi(2) full rpm by (simp add: Let_def)
  moreover have "allow t2 ?n = (True, ?n\<lparr>tb_last := t2, tb_tokens := ?rpm - 1\<rparr>)"
    using allow_simp [OF new_bucket_inv [OF rpm] gn] fulln rpm by (simp add: Let_def)
  moreover have "b\<lparr>tb_last := t2, tb_tokens := ?rpm - 1\<rparr> = ?n\<lparr>tb_last := t2, tb_tokens := ?rpm - 1\<rparr>"
    using bi by (cases b) (simp add: new_bucket_def bucket_inv_def)
  moreover have "bucket_at k t1 (store_reap (10 * minute) tr s) = ?n"
    using b by (simp add: bucket_at_def store_reap_def)
  ultimately show ?thesis using b(1) by (simp add: store_allow_eq)
qed

definition stale_store :: bucket_store where
  "stale_store = \<lparr>bs_buckets = (\<lambda>k. if k = ''api_key'' then
       Some \<lparr>tb_capacity = 5, tb_tokens = 0, tb_rate = bucket_rate 5, tb_last = 0\<rparr> else None),
     bs_rpm = 5\<rparr>"

lemma reaping_is_unobservable_witness:
  "bs_buckets (store_reap (10 * minute) (11 * minute) stale_store) ''api_key'' = None
   \<and> fst (store_allow (12 * minute) (12 * minute) ''api_key''
        (store_reap (10 * minute) (11 * minute) stale_store))
     = fst (store_allow (12 * minute) (12 * minute) ''api_key'' stale_store)"
  using reaping_is_unobservable [of stale_store "11 * minute" "12 * minute" "12 * minute" "''api_key''"]
  by (auto simp: stale_store_def store_inv_def bucket_inv_def bucket_at_def gap_ok_def max_rpm_def
      minute_def second_def store_reap_def)

lemma int_digits_eq: "int_digits n s = (if n = 0 then s else nat_str n @ s)"
proof (induction n s rule: int_digits.induct)
  case (1 n s)
  show ?case
  proof (cases "n = 0")
    case False
    then show ?thesis
      using "1.IH" by (subst int_digits.simps, subst nat_str.simps) (simp add: digit_byte_def div_greater_zero_iff)
  qed (simp add: int_digits.simps)
qed

text \<open>The hand-written conversion of the limit into the \<open>X-RateLimit-Limit\<close> header prints
  every natural number as \<open>strconv.Itoa\<close> does.\<close>

theorem int_to_str_is_itoa: "0 \<le> n \<Longrightarrow> int_to_str n = itoa n"
proof (cases "n < 10")
  case True
  moreover assume "0 \<le> n"
  ultimately show ?thesis
    by (subst itoa_def, subst nat_str.simps) (simp add: int_to_str_def digit_byte_def nat_add_distrib)
next
  case False
  moreover assume "0 \<le> n"
  ultimately show ?thesis
    by (simp add: int_to_str_def itoa_def int_digits_eq)
qed

lemma int_to_str_is_itoa_witness: "int_to_str 600 = itoa 600 \<and> atoi (int_to_str 600) = Some 600"
  using int_to_str_is_itoa [of 600] atoi_itoa [of 600] by (simp add: in_int64_def)

end
