(* ===== verification/Idem_Cache.thy ===== *)
theory Idem_Cache
  imports VLS_Prelude
begin

text \<open>
  The response cache of \<open>internal/middleware/idempotency.go\<close>: a map with an expiry time in
  each entry. An expired entry is dropped when it is looked up, or by the periodic reaper.
  The contract of such a cache is stated over what a lookup returns, and a stored response
  survives every operation that is not a store under its own key. Here a lookup and a sweep of
  the reaper are each one operation, as for a cache that one goroutine uses; in the code they are
  several operations of a \<open>sync.Map\<close>, which \<open>Idem_Race\<close> takes apart and lets interleave.
\<close>

record cached_response =
  cr_status :: int
  cr_body :: string
  cr_expires :: int

type_synonym idem_cache = "string \<Rightarrow> cached_response option"

definition cache_get :: "int \<Rightarrow> string \<Rightarrow> idem_cache \<Rightarrow> cached_response option \<times> idem_cache" where
  "cache_get now key c =
     (case c key of
        None \<Rightarrow> (None, c)
      | Some cr \<Rightarrow> if now > cr_expires cr then (None, c(key := None)) else (Some cr, c))"

definition cache_set :: "string \<Rightarrow> cached_response \<Rightarrow> idem_cache \<Rightarrow> idem_cache" where
  "cache_set key cr c = c(key \<mapsto> cr)"

definition cache_reap :: "int \<Rightarrow> idem_cache \<Rightarrow> idem_cache" where
  "cache_reap now c =
     (\<lambda>k. case c k of None \<Rightarrow> None | Some cr \<Rightarrow> if now > cr_expires cr then None else Some cr)"

subsection \<open>The contract\<close>

datatype ('k, 'v) cache_op = OpGet int 'k | OpSet 'k 'v | OpReap int

text \<open>An operation at a time that is not later than now.\<close>

fun op_time_ok :: "int \<Rightarrow> ('k, 'v) cache_op \<Rightarrow> bool" where
  "op_time_ok now (OpGet t k) \<longleftrightarrow> t \<le> now"
| "op_time_ok now (OpSet k v) \<longleftrightarrow> True"
| "op_time_ok now (OpReap t) \<longleftrightarrow> t \<le> now"

locale response_cache =
  fixes get :: "int \<Rightarrow> 'k \<Rightarrow> 'c \<Rightarrow> 'v option \<times> 'c"
    and set_entry :: "'k \<Rightarrow> 'v \<Rightarrow> 'c \<Rightarrow> 'c"
    and reap :: "int \<Rightarrow> 'c \<Rightarrow> 'c"
    and expires :: "'v \<Rightarrow> int"
  assumes get_set: "fst (get now k (set_entry k' v c)) =
      (if k = k' then (if now \<le> expires v then Some v else None) else fst (get now k c))"
    and get_get: "now \<le> now' \<Longrightarrow> fst (get now' k (snd (get now k' c))) = fst (get now' k c)"
    and get_reap: "now \<le> now' \<Longrightarrow> fst (get now' k (reap now c)) = fst (get now' k c)"
    and get_mono: "now \<le> now' \<Longrightarrow> fst (get now' k c) = Some v \<Longrightarrow> fst (get now k c) = Some v"
    and get_fresh: "fst (get now k c) = Some v \<Longrightarrow> now \<le> expires v"
begin

fun apply_op :: "'c \<Rightarrow> ('k, 'v) cache_op \<Rightarrow> 'c" where
  "apply_op c (OpGet t k) = snd (get t k c)"
| "apply_op c (OpSet k v) = set_entry k v c"
| "apply_op c (OpReap t) = reap t c"

fun op_ok :: "int \<Rightarrow> 'k \<Rightarrow> ('k, 'v) cache_op \<Rightarrow> bool" where
  "op_ok now k (OpGet t k') \<longleftrightarrow> t \<le> now"
| "op_ok now k (OpSet k' v) \<longleftrightarrow> k' \<noteq> k"
| "op_ok now k (OpReap t) \<longleftrightarrow> t \<le> now"

lemma apply_op_frame: "op_ok now k x \<Longrightarrow> fst (get now k (apply_op c x)) = fst (get now k c)"
  by (cases x) (simp_all add: get_get get_set get_reap)

lemma foldl_frame:
  "\<forall>x \<in> set xs. op_ok now k x \<Longrightarrow> fst (get now k (foldl apply_op c xs)) = fst (get now k c)"
  by (induction xs arbitrary: c) (simp_all add: apply_op_frame)

text \<open>
  The abstract cache: a history of operations, and a lookup that answers with the last value
  stored under the key, unless it has expired.
\<close>

fun last_set :: "'k \<Rightarrow> ('k, 'v) cache_op list \<Rightarrow> 'v option \<Rightarrow> 'v option" where
  "last_set k [] v = v"
| "last_set k (OpSet k' v' # xs) v = last_set k xs (if k' = k then Some v' else v)"
| "last_set k (_ # xs) v = last_set k xs v"

definition fresh :: "int \<Rightarrow> 'v option \<Rightarrow> 'v option" where
  "fresh now v = (case v of Some v' \<Rightarrow> if now \<le> expires v' then Some v' else None | None \<Rightarrow> None)"

lemma lookup_history:
  "\<forall>x \<in> set xs. op_time_ok now x \<Longrightarrow> fst (get now k c) = fresh now v \<Longrightarrow>
     fst (get now k (foldl apply_op c xs)) = fresh now (last_set k xs v)"
proof (induction xs arbitrary: c v)
  case (Cons x xs)
  show ?case
  proof (cases x)
    case (OpGet t k')
    with Cons show ?thesis by (simp add: get_get)
  next
    case (OpSet k' v')
    have "fst (get now k (set_entry k' v' c)) = fresh now (if k' = k then Some v' else v)"
      using Cons.prems(2) by (simp add: get_set fresh_def)
    with Cons.IH Cons.prems(1) OpSet show ?thesis by simp
  next
    case (OpReap t)
    with Cons show ?thesis by (simp add: get_reap)
  qed
qed simp

text \<open>A stored entry is found until it expires, whatever happens to other keys.\<close>

lemma stored_is_found:
  assumes "\<forall>x \<in> set xs. op_ok now k x" "now \<le> expires v"
  shows "fst (get now k (foldl apply_op (set_entry k v c) xs)) = Some v"
  using foldl_frame [OF assms(1)] assms(2) by (simp add: get_set)

end

interpretation idem: response_cache cache_get cache_set cache_reap cr_expires
  by unfold_locales
    (auto simp: cache_get_def cache_set_def cache_reap_def split: option.splits if_splits)

lemma cache_get_set_same:
  "now \<le> cr_expires cr \<Longrightarrow> cache_get now k (cache_set k cr c) = (Some cr, cache_set k cr c)"
  by (simp add: cache_get_def cache_set_def)

subsection \<open>The cache and its history\<close>

text \<open>What a sequence of operations makes of the empty cache, and the value stored last under a key.\<close>

fun cache_step :: "idem_cache \<Rightarrow> (string, cached_response) cache_op \<Rightarrow> idem_cache" where
  "cache_step c (OpGet t k) = snd (cache_get t k c)"
| "cache_step c (OpSet k cr) = cache_set k cr c"
| "cache_step c (OpReap t) = cache_reap t c"

definition run_cache :: "(string, cached_response) cache_op list \<Rightarrow> idem_cache" where
  "run_cache xs = foldl cache_step (\<lambda>_. None) xs"

definition stored_last :: "string \<Rightarrow> (string, cached_response) cache_op list \<Rightarrow> cached_response option" where
  "stored_last k xs = foldl (\<lambda>v x. case x of OpSet k' cr \<Rightarrow> if k' = k then Some cr else v | _ \<Rightarrow> v) None xs"

lemma run_cache_idem: "run_cache xs = foldl idem.apply_op (\<lambda>_. None) xs"
proof -
  have "cache_step = idem.apply_op"
  proof (intro ext)
    fix c x k
    show "cache_step c x k = idem.apply_op c x k" by (cases x) simp_all
  qed
  then show ?thesis by (simp only: run_cache_def)
qed

lemma stored_last_idem: "stored_last k xs = idem.last_set k xs None"
proof -
  have "foldl (\<lambda>v x. case x of OpSet k' cr \<Rightarrow> if k' = k then Some cr else v | _ \<Rightarrow> v) v xs = idem.last_set k xs v" for v
  proof (induction xs arbitrary: v)
    case (Cons x xs)
    then show ?case by (cases x) auto
  qed simp
  then show ?thesis by (simp add: stored_last_def)
qed

text \<open>C19. The response cache implements its history: after any sequence of lookups, stores and passes
  of the reaper, at any times up to now, a lookup answers with the value stored last under the
  key if that value has not expired, and with nothing otherwise. So neither the eviction on
  lookup nor the reaper can be observed, and no entry is lost or mixed up with another key's.\<close>

theorem cache_implements_history:
  assumes "\<forall>x \<in> set xs. op_time_ok now x"
  shows "fst (cache_get now k (run_cache xs)) =
    (case stored_last k xs of
       Some cr \<Rightarrow> if now \<le> cr_expires cr then Some cr else None
     | None \<Rightarrow> None)"
proof -
  have "fst (cache_get now k (\<lambda>_. None)) = idem.fresh now None"
    by (simp add: cache_get_def idem.fresh_def)
  from idem.lookup_history [OF assms this] show ?thesis
    by (simp add: run_cache_idem stored_last_idem idem.fresh_def)
qed

lemma cache_implements_history_witness:
  "fst (cache_get 7 ''k'' (run_cache [OpSet ''k'' \<lparr>cr_status = 202, cr_body = ''a'', cr_expires = 9\<rparr>,
      OpReap 5, OpSet ''j'' \<lparr>cr_status = 500, cr_body = ''b'', cr_expires = 9\<rparr>, OpGet 6 ''k'']))
   = Some \<lparr>cr_status = 202, cr_body = ''a'', cr_expires = 9\<rparr>"
  by (subst cache_implements_history) (simp_all add: stored_last_def)

end
