(* ===== verification/Server_State.thy ===== *)
theory Server_State
  imports Go_Http Limiter Idem_Cache
begin

text \<open>
  The state the request path shares, the services it reads from outside, and the shape of a
  handler. \<open>'w\<close> is the world behind those services: the clock, the random source, the
  tracing library and, for the handlers of the later theories, the engine. A service takes the
  world and returns the next one; nothing is assumed of it here.
\<close>

subsection \<open>Services\<close>

datatype json_scan =
    ScanValue json
  | ScanIncomplete
  | ScanBad string

record 'w env =
  time_now :: "'w \<Rightarrow> int \<times> 'w"
  uuid_new :: "'w \<Rightarrow> string \<times> 'w"
  prop_extract :: "header \<Rightarrow> string \<Rightarrow> string"
  prop_inject :: "string \<Rightarrow> (string \<times> string) list"
  tracer_start :: "string \<Rightarrow> string \<Rightarrow> (string \<times> string) list \<Rightarrow> 'w \<Rightarrow> string \<times> 'w"

subsection \<open>State\<close>

record log_entry =
  le_method :: string
  le_path :: string
  le_status :: int
  le_duration_ms :: int
  le_bytes :: int
  le_request_id :: string
  le_principal :: string
  le_remote :: string
  le_user_agent :: string

record panic_entry =
  pe_request_id :: string
  pe_method :: string
  pe_path :: string

record metrics =
  m_requests :: "string \<times> string \<times> string \<Rightarrow> nat"
  m_durations :: "string \<times> string \<Rightarrow> rat list"
  m_bytes :: "string \<times> string \<Rightarrow> int"

record span =
  sp_context :: string
  sp_status :: "int option"
  sp_error :: bool

record 'w st =
  st_world :: 'w
  st_bucket :: token_bucket
  st_store :: bucket_store
  st_idem :: idem_cache
  st_log :: "log_entry list"
  st_panics :: "panic_entry list"
  st_metrics :: metrics
  st_spans :: "span list"

subsection \<open>Handlers and middleware\<close>

type_synonym 'w outcome3 = "'w st \<times> wop list \<times> outcome"
type_synonym 'w handler = "writer \<Rightarrow> request \<Rightarrow> 'w st \<Rightarrow> 'w outcome3"
type_synonym 'w middleware = "'w handler \<Rightarrow> 'w handler"

definition prepend :: "wop list \<Rightarrow> 'w outcome3 \<Rightarrow> 'w outcome3" where
  "prepend hs res = (case res of (s, ops, oc) \<Rightarrow> (s, hs @ ops, oc))"

definition reply :: "wop list \<Rightarrow> 'w st \<Rightarrow> 'w outcome3" where
  "reply ops s = (s, ops, Done)"

definition res_state :: "'w outcome3 \<Rightarrow> 'w st" where
  "res_state res = fst res"

definition res_ops :: "'w outcome3 \<Rightarrow> wop list" where
  "res_ops res = fst (snd res)"

definition res_outcome :: "'w outcome3 \<Rightarrow> outcome" where
  "res_outcome res = snd (snd res)"

definition response :: "'w outcome3 \<Rightarrow> resp" where
  "response res = respond (res_ops res)"

lemma res_simps [simp]:
  "res_state (s, ops, oc) = s" "res_ops (s, ops, oc) = ops" "res_outcome (s, ops, oc) = oc"
  "prepend hs (s, ops, oc) = (s, hs @ ops, oc)"
  "res_state (prepend hs res) = res_state res" "res_ops (prepend hs res) = hs @ res_ops res"
  "res_outcome (prepend hs res) = res_outcome res"
  "res_state (reply ops s) = s" "res_ops (reply ops s) = ops" "res_outcome (reply ops s) = Done"
  by (simp_all add: res_state_def res_ops_def res_outcome_def prepend_def reply_def split: prod.splits)

lemma response_reply [simp]: "response (reply ops s) = respond ops"
  by (simp add: response_def)

definition read_clock :: "'w env \<Rightarrow> 'w st \<Rightarrow> int \<times> 'w st" where
  "read_clock e s = (let (t, w) = time_now e (st_world s) in (t, s\<lparr>st_world := w\<rparr>))"

text \<open>The writer a recorder hands on: an embedded \<open>http.ResponseWriter\<close> is no \<open>http.Flusher\<close>.\<close>

definition wrapped :: writer where
  "wrapped = \<lparr>w_flusher = False\<rparr>"

text \<open>The values a request context holds, with the zero value when there is none.\<close>

definition PrincipalFromContext :: "ctx \<Rightarrow> principal" where
  "PrincipalFromContext c =
     (case c_principal c of Some p \<Rightarrow> p | None \<Rightarrow> \<lparr>p_id = [], p_authenticated = False\<rparr>)"

definition withPrincipal :: "ctx \<Rightarrow> principal \<Rightarrow> ctx" where
  "withPrincipal c p = c\<lparr>c_principal := Some p\<rparr>"

definition RequestIDFromContext :: "ctx \<Rightarrow> string" where
  "RequestIDFromContext c = (case c_request_id c of Some i \<Rightarrow> i | None \<Rightarrow> [])"

subsection \<open>Which requests a middleware lets its inner handler see\<close>

text \<open>
  \<open>local_on P m\<close>: on a request of \<open>P\<close>, what \<open>m\<close> does depends on its inner handler only
  through requests of \<open>P\<close> again. \<open>blocks_on P m\<close>: on a request of \<open>P\<close>, it does not depend
  on the inner handler at all, so the inner handler is not run.
\<close>

definition local_on :: "(request \<Rightarrow> bool) \<Rightarrow> 'w middleware \<Rightarrow> bool" where
  "local_on P m \<longleftrightarrow>
     (\<forall>h h'. (\<forall>w r s. P r \<longrightarrow> h w r s = h' w r s) \<longrightarrow> (\<forall>w r s. P r \<longrightarrow> m h w r s = m h' w r s))"

definition blocks_on :: "(request \<Rightarrow> bool) \<Rightarrow> 'w middleware \<Rightarrow> bool" where
  "blocks_on P m \<longleftrightarrow> (\<forall>h h' w r s. P r \<longrightarrow> m h w r s = m h' w r s)"

lemma local_onI:
  assumes "\<And>h h' w r s. \<forall>w r s. P r \<longrightarrow> h w r s = h' w r s \<Longrightarrow> P r \<Longrightarrow> m h w r s = m h' w r s"
  shows "local_on P m"
  unfolding local_on_def using assms by blast

lemma blocks_onI: "(\<And>h h' w r s. P r \<Longrightarrow> m h w r s = m h' w r s) \<Longrightarrow> blocks_on P m"
  unfolding blocks_on_def by blast

lemma local_onD:
  "local_on P m \<Longrightarrow> \<forall>w r s. P r \<longrightarrow> h w r s = h' w r s \<Longrightarrow> P r \<Longrightarrow> m h w r s = m h' w r s"
  unfolding local_on_def by blast

text \<open>Middleware in the order it was registered: the first one is outermost.\<close>

definition chain :: "'w middleware list \<Rightarrow> 'w middleware" where
  "chain ms h = foldr (\<lambda>m. m) ms h"

lemma chain_simps [simp]:
  "chain [] h = h" "chain (m # ms) h = m (chain ms h)" "chain (ms @ ns) h = chain ms (chain ns h)"
  by (simp_all add: chain_def)

lemma blocked_by_chain:
  assumes "blocks_on P m" "list_all (local_on P) ms" "P r"
  shows "chain ms (m h) w r s = chain ms (m h') w r s"
  using assms(2,3)
proof (induction ms arbitrary: w r s)
  case Nil
  with assms(1) show ?case by (simp add: blocks_on_def)
next
  case (Cons m' ms)
  then have "local_on P m'" "\<forall>w r s. P r \<longrightarrow> chain ms (m h) w r s = chain ms (m h') w r s"
    by simp_all
  then show ?case using Cons.prems(2) by (simp add: local_onD [of P m'])
qed

end
