(* ===== verification/Recorders.thy ===== *)
theory Recorders
  imports Server_State
begin

text \<open>
  The writers that middleware wraps around the response writer: \<open>statusRecorder\<close> (logging.go),
  \<open>metricsRecorder\<close> (metrics.go), \<open>tracingRecorder\<close> (tracing.go) and \<open>responseRecorder\<close>
  (idempotency.go). Each passes every operation on and keeps a record of its own. A recorder
  reads the trace of the inner handler; the count \<open>Write\<close> returns is the one of the
  server's writer below it.
\<close>

subsection \<open>The four recorders\<close>

record status_rec =
  sr_status :: int
  sr_wrote :: bool
  sr_bytes :: int

definition status_rec_init :: status_rec where
  "status_rec_init = \<lparr>sr_status = 200, sr_wrote = False, sr_bytes = 0\<rparr>"

fun status_rec_step :: "resp \<Rightarrow> status_rec \<Rightarrow> wop \<Rightarrow> status_rec" where
  "status_rec_step w rc (WriteHeader c) =
     (if \<not> sr_wrote rc then rc\<lparr>sr_status := c, sr_wrote := True\<rparr> else rc)"
| "status_rec_step w rc (WriteBytes b) = rc\<lparr>sr_bytes := sr_bytes rc + int (written w b)\<rparr>"
| "status_rec_step w rc _ = rc"

record metrics_rec =
  mr_status :: int
  mr_bytes :: int

definition metrics_rec_init :: metrics_rec where
  "metrics_rec_init = \<lparr>mr_status = 200, mr_bytes = 0\<rparr>"

fun metrics_rec_step :: "resp \<Rightarrow> metrics_rec \<Rightarrow> wop \<Rightarrow> metrics_rec" where
  "metrics_rec_step w rc (WriteHeader c) = rc\<lparr>mr_status := c\<rparr>"
| "metrics_rec_step w rc (WriteBytes b) = rc\<lparr>mr_bytes := mr_bytes rc + int (written w b)\<rparr>"
| "metrics_rec_step w rc _ = rc"

record tracing_rec =
  tr_status :: int

definition tracing_rec_init :: tracing_rec where
  "tracing_rec_init = \<lparr>tr_status = 200\<rparr>"

fun tracing_rec_step :: "resp \<Rightarrow> tracing_rec \<Rightarrow> wop \<Rightarrow> tracing_rec" where
  "tracing_rec_step w rc (WriteHeader c) = rc\<lparr>tr_status := c\<rparr>"
| "tracing_rec_step w rc _ = rc"

record response_rec =
  rr_status :: int
  rr_body :: string

definition response_rec_init :: response_rec where
  "response_rec_init = \<lparr>rr_status = 200, rr_body = []\<rparr>"

fun response_rec_step :: "resp \<Rightarrow> response_rec \<Rightarrow> wop \<Rightarrow> response_rec" where
  "response_rec_step w rc (WriteHeader c) = rc\<lparr>rr_status := c\<rparr>"
| "response_rec_step w rc (WriteBytes b) = rc\<lparr>rr_body := rr_body rc @ b\<rparr>"
| "response_rec_step w rc _ = rc"

text \<open>A recorder and the server's writer below it, over a whole trace.\<close>

fun record_ops :: "(resp \<Rightarrow> 'r \<Rightarrow> wop \<Rightarrow> 'r) \<Rightarrow> wop list \<Rightarrow> resp \<Rightarrow> 'r \<Rightarrow> 'r" where
  "record_ops f [] w rc = rc"
| "record_ops f (x # xs) w rc = record_ops f xs (wop_step w x) (f w rc x)"

definition recorded :: "(resp \<Rightarrow> 'r \<Rightarrow> wop \<Rightarrow> 'r) \<Rightarrow> 'r \<Rightarrow> wop list \<Rightarrow> 'r" where
  "recorded f rc ops = record_ops f ops init_resp rc"

subsection \<open>The contract of a recorder\<close>

text \<open>
  The handlers of this server write one header, before any byte. On such a trace every
  recorder knows the status the client gets.
\<close>

definition single_header :: "wop list \<Rightarrow> bool" where
  "single_header ops \<longleftrightarrow> (\<exists>hs c xs. ops = hs @ WriteHeader c # xs \<and> list_all is_header_op hs
     \<and> is_commit (WriteHeader c) \<and> (\<forall>x \<in> set xs. \<forall>c'. x \<noteq> WriteHeader c'))"

locale recorder =
  fixes step :: "resp \<Rightarrow> 'r \<Rightarrow> wop \<Rightarrow> 'r"
    and start :: 'r
    and status :: "'r \<Rightarrow> int"
  assumes start_status: "status start = 200"
    and keep: "\<forall>c. x \<noteq> WriteHeader c \<Longrightarrow> status (step w rc x) = status rc"
    and header_op: "is_header_op x \<Longrightarrow> step w rc x = rc"
    and first_header: "status (step w start (WriteHeader c)) = c"
begin

lemma record_keep:
  "\<forall>x \<in> set ops. \<forall>c. x \<noteq> WriteHeader c \<Longrightarrow> status (record_ops step ops w rc) = status rc"
proof (induction ops arbitrary: w rc)
  case (Cons x xs)
  then show ?case using keep [of x w rc] by simp
qed simp

lemma record_header_ops:
  "list_all is_header_op hs \<Longrightarrow>
     record_ops step (hs @ ops) w rc = record_ops step ops (play hs w) rc"
  by (induction hs arbitrary: w) (simp_all add: header_op trace_simps)

lemma status_of_single_header:
  assumes "single_header ops"
  shows "status (recorded step start ops) = rs_status (respond ops)"
proof -
  obtain hs c xs where ops: "ops = hs @ WriteHeader c # xs"
    and hs: "list_all is_header_op hs" and c: "is_commit (WriteHeader c)"
    and xs: "\<forall>x \<in> set xs. \<forall>c'. x \<noteq> WriteHeader c'"
    using assms by (auto simp: single_header_def)
  have "status (recorded step start ops) = c"
    using xs by (simp add: recorded_def ops record_header_ops [OF hs] record_keep first_header)
  with respond_status [OF hs, of c xs] c ops show ?thesis by simp
qed

end

interpretation status_recorder: recorder status_rec_step status_rec_init sr_status
proof (unfold_locales, goal_cases)
  case (2 x w rc) then show ?case by (cases x) simp_all
next
  case (3 x w rc) then show ?case by (cases x) simp_all
qed (simp_all add: status_rec_init_def)

interpretation metrics_recorder: recorder metrics_rec_step metrics_rec_init mr_status
proof (unfold_locales, goal_cases)
  case (2 x w rc) then show ?case by (cases x) simp_all
next
  case (3 x w rc) then show ?case by (cases x) simp_all
qed (simp_all add: metrics_rec_init_def)

interpretation tracing_recorder: recorder tracing_rec_step tracing_rec_init tr_status
proof (unfold_locales, goal_cases)
  case (2 x w rc) then show ?case by (cases x) simp_all
next
  case (3 x w rc) then show ?case by (cases x) simp_all
qed (simp_all add: tracing_rec_init_def)

interpretation response_recorder: recorder response_rec_step response_rec_init rr_status
proof (unfold_locales, goal_cases)
  case (2 x w rc) then show ?case by (cases x) simp_all
next
  case (3 x w rc) then show ?case by (cases x) simp_all
qed (simp_all add: response_rec_init_def)

subsection \<open>Bodies\<close>

fun written_bytes :: "wop list \<Rightarrow> string" where
  "written_bytes [] = []"
| "written_bytes (WriteBytes b # ops) = b @ written_bytes ops"
| "written_bytes (_ # ops) = written_bytes ops"

lemma response_rec_body:
  "rr_body (record_ops response_rec_step ops w rc) = rr_body rc @ written_bytes ops"
proof (induction ops arbitrary: w rc)
  case (Cons x xs)
  then show ?case by (cases x) simp_all
qed simp

lemma recorded_body: "rr_body (recorded response_rec_step response_rec_init ops) = written_bytes ops"
  by (simp add: recorded_def response_rec_body response_rec_init_def)

lemma play_body:
  "rs_wrote r \<Longrightarrow> body_allowed (rs_status r) \<Longrightarrow>
     rs_body (play ops r) = rs_body r @ written_bytes ops"
proof (induction ops arbitrary: r)
  case (Cons x xs)
  have w: "rs_wrote (wop_step r x)" using Cons.prems(1) by (simp add: wop_step_wrote)
  have s: "body_allowed (rs_status (wop_step r x))"
    using Cons.prems wop_step_frozen [of r x] by simp
  have "rs_body (wop_step r x) = rs_body r @ written_bytes [x]"
    using Cons.prems by (cases x) (simp_all add: write_header_def ensure_header_def Let_def)
  then show ?case
    using Cons.IH [OF w s] by (cases x) (simp_all add: trace_simps)
qed (simp add: trace_simps)

text \<open>On a trace with a single header the recorded body is the body the client gets.\<close>

lemma respond_body:
  assumes "single_header ops" "body_allowed (rs_status (respond ops))"
  shows "rs_body (respond ops) = written_bytes ops"
proof -
  obtain hs c xs where ops: "ops = hs @ WriteHeader c # xs"
    and hs: "list_all is_header_op hs" and c: "is_commit (WriteHeader c)"
    using assms(1) by (auto simp: single_header_def)
  let ?r = "wop_step (play hs init_resp) (WriteHeader c)"
  have nw: "\<not> rs_wrote (play hs init_resp)" "rs_body (play hs init_resp) = []"
    using play_header_ops [OF hs, of init_resp] by simp_all
  have r: "rs_wrote ?r" "rs_status ?r = c" "rs_body ?r = []"
    using nw c by (auto simp: write_header_def)
  have "rs_status (respond ops) = c"
    using respond_status [OF hs, of c xs] c ops by simp
  with assms(2) r(2) have "body_allowed (rs_status ?r)" by simp
  from play_body [OF r(1) this, of xs]
  have "rs_body (play xs ?r) = written_bytes xs" using r(3) by simp
  moreover have "rs_wrote (play xs ?r)" using r(1) by (simp add: play_wrote)
  moreover have "written_bytes (hs @ ys) = written_bytes ys" for ys
    using hs
  proof (induction hs)
    case (Cons x hs)
    then show ?case by (cases x) simp_all
  qed simp
  ultimately show ?thesis
    by (simp add: respond_def ops trace_simps ensure_header_def)
qed

end
