(* ===== verification/Go_Net.thy ===== *)
theory Go_Net
  imports VLS_Prelude
begin

text \<open>
  \<open>net.ParseIP\<close>, as far as the server looks at it: whether a string is an IPv4 or IPv6
  address without a zone. The IPv6 loop follows the standard library's: groups of one to four
  hex digits, at most one ellipsis, an optional IPv4 tail.
\<close>

definition is_hex :: "char \<Rightarrow> bool" where
  "is_hex c \<longleftrightarrow> is_digit c \<or> (97 \<le> byte_val c \<and> byte_val c \<le> 102) \<or> (65 \<le> byte_val c \<and> byte_val c \<le> 70)"

definition octet_ok :: "string \<Rightarrow> bool" where
  "octet_ok s \<longleftrightarrow> s \<noteq> [] \<and> list_all is_digit s \<and> (length s = 1 \<or> hd s \<noteq> CHR ''0'')
     \<and> length s \<le> 3 \<and> (case digits_val 0 s of Some n \<Rightarrow> n \<le> 255 | None \<Rightarrow> False)"

definition ipv4_ok :: "string \<Rightarrow> bool" where
  "ipv4_ok s \<longleftrightarrow> (let fs = split_byte s (CHR ''.'') in length fs = 4 \<and> list_all octet_ok fs)"

text \<open>At the end of the string: all 16 bytes are there, or an ellipsis stands for the rest.\<close>

definition ip6_done :: "nat \<Rightarrow> bool \<Rightarrow> bool" where
  "ip6_done i ell \<longleftrightarrow> (if i < 16 then ell else \<not> ell)"

function ip6_loop :: "nat \<Rightarrow> bool \<Rightarrow> string \<Rightarrow> bool" where
  "ip6_loop i ell s =
     (if 16 \<le> i then s = [] \<and> \<not> ell
      else
        let off = length (takeWhile is_hex s); rest = drop off s in
        if off = 0 \<or> 4 < off then False
        else if rest = [] then ip6_done (i + 2) ell
        else if hd rest = CHR ''.'' then
          (ell \<or> i = 12) \<and> i + 4 \<le> 16 \<and> ipv4_ok s \<and> ip6_done (i + 4) ell
        else if hd rest \<noteq> CHR '':'' \<or> tl rest = [] then False
        else if hd (tl rest) = CHR '':'' then
          (if ell then False
           else if tl (tl rest) = [] then ip6_done (i + 2) True
           else ip6_loop (i + 2) True (tl (tl rest)))
        else ip6_loop (i + 2) ell (tl rest))"
  by pat_completeness auto
termination
  by (relation "measure (\<lambda>(i, ell, s). 16 - i)") auto

declare ip6_loop.simps [simp del]

definition ipv6_ok :: "string \<Rightarrow> bool" where
  "ipv6_ok s \<longleftrightarrow>
     (if take 2 s = ''::'' then drop 2 s = [] \<or> ip6_loop 0 True (drop 2 s)
      else ip6_loop 0 False s)"

text \<open>The first of \<open>.\<close>, \<open>:\<close> and \<open>%\<close> decides; a zone makes \<open>ParseIP\<close> fail.\<close>

fun ip_kind :: "string \<Rightarrow> char option" where
  "ip_kind [] = None"
| "ip_kind (c # cs) = (if c \<in> {CHR ''.'', CHR '':'', CHR ''%''} then Some c else ip_kind cs)"

definition parse_ip_ok :: "string \<Rightarrow> bool" where
  "parse_ip_ok s =
     (if ip_kind s = Some (CHR ''.'') then ipv4_ok s
      else if ip_kind s = Some (CHR '':'') then CHR ''%'' \<notin> set s \<and> ipv6_ok s
      else False)"

end
