(* ===== verification/Mw_Edge.thy ===== *)
theory Mw_Edge
  imports Recorders Go_Net
begin

text \<open>
  The outer middleware: CORS (cors.go), RequestID (requestid.go), RealIP (realip.go), Recovery
  (recovery.go), AccessLog (logging.go), Metrics (metrics.go) and Tracing (tracing.go). Each
  is translated as the function from handler to handler it is in the code. The locale at the
  end of the definitions states what the gate behind them relies on: they hand on the method,
  the path and the headers of the request unchanged.
\<close>

subsection \<open>CORS\<close>

record cors_config =
  co_origins :: "string list"
  co_max_age :: int

definition corsAllowHeaders :: string where
  "corsAllowHeaders = ''Content-Type, Authorization, X-Request-ID, Connect-Protocol-Version''"

definition corsAllowMethods :: string where
  "corsAllowMethods = ''GET, POST, DELETE, OPTIONS''"

definition corsExposeHeaders :: string where
  "corsExposeHeaders = ''X-Request-ID''"

definition cors_allow_all :: "cors_config \<Rightarrow> bool" where
  "cors_allow_all cfg \<longleftrightarrow> co_origins cfg = [] \<or> ''*'' \<in> set (co_origins cfg)"

definition cors_origin :: "cors_config \<Rightarrow> request \<Rightarrow> string" where
  "cors_origin cfg r =
     (let origin = hget (r_header r) ''Origin'' in
      if origin = [] then []
      else if cors_allow_all cfg then ''*''
      else if origin \<in> set (co_origins cfg) then origin else [])"

definition cors_headers :: "cors_config \<Rightarrow> string \<Rightarrow> wop list" where
  "cors_headers cfg allowOrigin =
     (if allowOrigin \<noteq> [] then
        [SetHeader ''Access-Control-Allow-Origin'' allowOrigin,
         SetHeader ''Access-Control-Allow-Methods'' corsAllowMethods,
         SetHeader ''Access-Control-Allow-Headers'' corsAllowHeaders,
         SetHeader ''Access-Control-Expose-Headers'' corsExposeHeaders,
         SetHeader ''Access-Control-Max-Age'' (itoa (co_max_age cfg))]
        @ (if allowOrigin \<noteq> ''*'' then [SetHeader ''Vary'' ''Origin''] else [])
      else [])"

definition CORS :: "cors_config \<Rightarrow> 'w middleware" where
  "CORS cfg next_h w r s =
     (let hs = cors_headers cfg (cors_origin cfg r) in
      if r_method r = ''OPTIONS'' then reply (hs @ [WriteHeader 204]) s
      else prepend hs (next_h w r s))"

subsection \<open>RequestID\<close>

definition RequestID :: "'w env \<Rightarrow> 'w middleware" where
  "RequestID e next_h w r s =
     (let id0 = hget (r_header r) ''X-Request-ID'';
          (id1, s1) = (if id0 = [] then
              (let (u, w1) = uuid_new e (st_world s) in (u, s\<lparr>st_world := w1\<rparr>))
            else (id0, s));
          c = (r_ctx r)\<lparr>c_request_id := Some id1\<rparr>
      in prepend [SetHeader ''X-Request-ID'' id1] (next_h w (r\<lparr>r_ctx := c\<rparr>) s1))"

subsection \<open>RealIP\<close>

definition real_ip :: "request \<Rightarrow> string" where
  "real_ip r =
     (let rip = hget (r_header r) ''X-Real-IP'' in
      if rip \<noteq> [] then rip
      else
        let xff = hget (r_header r) ''X-Forwarded-For'' in
        if xff \<noteq> [] then
          (let i = index_byte xff (CHR '','');
               xff1 = (if i > 0 then take (nat i) xff else xff);
               xff2 = trim_space xff1
           in if parse_ip_ok xff2 then xff2 else r_remote r)
        else r_remote r)"

definition RealIP :: "'w middleware" where
  "RealIP next_h w r s = next_h w (r\<lparr>r_remote := real_ip r\<rparr>) s"

subsection \<open>Recovery\<close>

definition Recovery :: "'w middleware" where
  "Recovery next_h w r s =
     (case next_h w r s of
        (s1, ops, Panicked) \<Rightarrow>
          (let pe = \<lparr>pe_request_id = RequestIDFromContext (r_ctx r), pe_method = r_method r,
                pe_path = r_path r\<rparr>
           in (s1\<lparr>st_panics := st_panics s1 @ [pe]\<rparr>,
               ops @ http_error ''{\"error\":\"internal server error\"}'' 500, Done))
      | res \<Rightarrow> res)"

subsection \<open>AccessLog\<close>

text \<open>A panic unwinds past the code after \<open>next.ServeHTTP\<close>: nothing is logged then.\<close>

definition AccessLog :: "'w env \<Rightarrow> 'w middleware" where
  "AccessLog e next_h w r s =
     (let (start, s1) = read_clock e s in
      case next_h wrapped r s1 of
        (s2, ops, Done) \<Rightarrow>
          (let (stop, s3) = read_clock e s2;
               rc = recorded status_rec_step status_rec_init ops;
               le = \<lparr>le_method = r_method r, le_path = r_path r, le_status = sr_status rc,
                 le_duration_ms = go_div (time_sub stop start) 1000000,
                 le_bytes = sr_bytes rc,
                 le_request_id = RequestIDFromContext (r_ctx r),
                 le_principal = p_id (PrincipalFromContext (r_ctx r)),
                 le_remote = r_remote r, le_user_agent = user_agent r\<rparr>
           in (s3\<lparr>st_log := st_log s3 @ [le]\<rparr>, ops, Done))
      | res \<Rightarrow> res)"

subsection \<open>Metrics\<close>

definition normalizePath :: "string \<Rightarrow> string" where
  "normalizePath path = path"

definition observe :: "string \<Rightarrow> string \<Rightarrow> string \<Rightarrow> rat \<Rightarrow> int \<Rightarrow> metrics \<Rightarrow> metrics" where
  "observe meth path status dur n m =
     m\<lparr>m_requests := (m_requests m)((meth, path, status) := m_requests m (meth, path, status) + 1),
       m_durations := (m_durations m)((meth, path) := m_durations m (meth, path) @ [dur]),
       m_bytes := (m_bytes m)((meth, path) := m_bytes m (meth, path) + n)\<rparr>"

definition Metrics :: "'w env \<Rightarrow> 'w middleware" where
  "Metrics e next_h w r s =
     (let (start, s1) = read_clock e s in
      case next_h wrapped r s1 of
        (s2, ops, Done) \<Rightarrow>
          (let (stop, s3) = read_clock e s2;
               rc = recorded metrics_rec_step metrics_rec_init ops
           in (s3\<lparr>st_metrics := observe (r_method r) (normalizePath (r_path r)) (itoa (mr_status rc))
                 (seconds (time_sub stop start)) (mr_bytes rc) (st_metrics s3)\<rparr>, ops, Done))
      | res \<Rightarrow> res)"

subsection \<open>Tracing\<close>

text \<open>
  The tracing library is a service of the environment. The span ends in a deferred call, so it
  ends on a panic too, without the attributes set after the inner handler returned. The
  headers the propagator injects are set after that handler has written its response.
\<close>

definition Tracing :: "'w env \<Rightarrow> 'w middleware" where
  "Tracing e next_h w r s =
     (let parent = prop_extract e (r_header r) [];
          (sc, w1) = tracer_start e parent (r_method r @ '' '' @ r_path r)
             [(''http.method'', r_method r), (''http.url'', r_url r), (''http.route'', r_path r),
              (''http.user_agent'', user_agent r), (''net.peer.ip'', r_remote r)] (st_world s);
          s1 = s\<lparr>st_world := w1\<rparr>
      in case next_h wrapped r s1 of
        (s2, ops, Done) \<Rightarrow>
          (let rc = recorded tracing_rec_step tracing_rec_init ops;
               sp = \<lparr>sp_context = sc, sp_status = Some (tr_status rc),
                     sp_error = (tr_status rc \<ge> 400)\<rparr>
           in (s2\<lparr>st_spans := st_spans s2 @ [sp]\<rparr>,
               ops @ map (\<lambda>(k, v). SetHeader k v) (prop_inject e sc), Done))
      | (s2, ops, Panicked) \<Rightarrow>
          (s2\<lparr>st_spans := st_spans s2 @ [\<lparr>sp_context = sc, sp_status = None, sp_error = False\<rparr>]\<rparr>,
           ops, Panicked)
      | res \<Rightarrow> res)"

subsection \<open>What a preflight request is told\<close>

lemma canonical_keys:
  "canonical_key ''Access-Control-Allow-Origin'' = ''Access-Control-Allow-Origin''"
  "canonical_key ''Access-Control-Allow-Methods'' = ''Access-Control-Allow-Methods''"
  "canonical_key ''Access-Control-Allow-Headers'' = ''Access-Control-Allow-Headers''"
  "canonical_key ''Access-Control-Expose-Headers'' = ''Access-Control-Expose-Headers''"
  "canonical_key ''Access-Control-Max-Age'' = ''Access-Control-Max-Age''"
  "canonical_key ''Vary'' = ''Vary''"
  by code_simp+

lemma cors_preflight_origin:
  "hget (rs_sent (respond (cors_headers cfg a @ [WriteHeader 204]))) ''Access-Control-Allow-Origin'' = a"
  by (simp add: cors_headers_def respond_def trace_simps write_header_def ensure_header_def hget_hset
      canonical_keys) (simp add: hget_def init_resp_def)

subsection \<open>What the outer middleware hands on\<close>

text \<open>A predicate on requests that does not look at the context or the remote address.\<close>

definition stable :: "(request \<Rightarrow> bool) \<Rightarrow> bool" where
  "stable P \<longleftrightarrow> (\<forall>r c a. P (r\<lparr>r_ctx := c\<rparr>) = P r \<and> P (r\<lparr>r_remote := a\<rparr>) = P r)"

lemma stable_simps:
  "stable P \<Longrightarrow> P (r\<lparr>r_ctx := c\<rparr>) = P r" "stable P \<Longrightarrow> P (r\<lparr>r_remote := a\<rparr>) = P r"
  by (simp_all add: stable_def)

locale edge_middleware =
  fixes mw :: "'w middleware"
  assumes edge_local: "stable P \<Longrightarrow> local_on P mw"
begin

text \<open>Whatever blocks a stable set of requests further in also blocks it behind this one.\<close>

lemma blocks_behind:
  assumes "stable P" "blocks_on P m"
  shows "blocks_on P (\<lambda>h. mw (m h))"
proof (rule blocks_onI)
  fix h h' w r s assume "P r"
  moreover have "\<forall>w r s. P r \<longrightarrow> m h w r s = m h' w r s"
    using assms(2) by (simp add: blocks_on_def)
  ultimately show "mw (m h) w r s = mw (m h') w r s"
    using local_onD [OF edge_local [OF assms(1)]] by blast
qed

end

lemma CORS_edge: "edge_middleware (CORS cfg)"
  by unfold_locales (auto simp: CORS_def Let_def intro!: local_onI)

lemma RequestID_edge: "edge_middleware (RequestID e)"
  by unfold_locales
    (auto simp: RequestID_def Let_def stable_simps split: prod.splits intro!: local_onI)

lemma RealIP_edge: "edge_middleware RealIP"
  by unfold_locales (auto simp: RealIP_def stable_simps intro!: local_onI)

lemma Recovery_edge: "edge_middleware Recovery"
  by unfold_locales (auto simp: Recovery_def intro!: local_onI)

lemma AccessLog_edge: "edge_middleware (AccessLog e)"
  by unfold_locales (auto simp: AccessLog_def Let_def split: prod.splits intro!: local_onI)

lemma Metrics_edge: "edge_middleware (Metrics e)"
  by unfold_locales (auto simp: Metrics_def Let_def split: prod.splits intro!: local_onI)

lemma Tracing_edge: "edge_middleware (Tracing e)"
  by unfold_locales (auto simp: Tracing_def Let_def split: prod.splits intro!: local_onI)

interpretation cors: edge_middleware "CORS cfg" for cfg by (rule CORS_edge)
interpretation request_id: edge_middleware "RequestID e" for e by (rule RequestID_edge)
interpretation real_ip: edge_middleware RealIP by (rule RealIP_edge)
interpretation recovery: edge_middleware Recovery by (rule Recovery_edge)
interpretation access_log: edge_middleware "AccessLog e" for e by (rule AccessLog_edge)
interpretation metrics_mw: edge_middleware "Metrics e" for e by (rule Metrics_edge)
interpretation tracing: edge_middleware "Tracing e" for e by (rule Tracing_edge)

end
