(* ===== verification/Mw_Auth.thy ===== *)
theory Mw_Auth
  imports Mw_Edge
begin

text \<open>
  Authentication (\<open>internal/middleware/auth.go\<close>): the two authenticators, the routes that skip
  them, and the middleware. \<open>ConstantTimeCompare\<close> is modelled by what it returns; its timing
  is outside the model.
\<close>

subsection \<open>Authenticators\<close>

definition errUnauthorized :: "string \<Rightarrow> string" where
  "errUnauthorized msg = msg"

definition NoAuth_Authenticate :: "request \<Rightarrow> (string, principal) result" where
  "NoAuth_Authenticate r = Inr \<lparr>p_id = ''anonymous'', p_authenticated = False\<rparr>"

record static_api_key =
  sk_key :: string

definition NewStaticAPIKey :: "string \<Rightarrow> static_api_key" where
  "NewStaticAPIKey key = \<lparr>sk_key = key\<rparr>"

definition ConstantTimeCompare :: "string \<Rightarrow> string \<Rightarrow> int" where
  "ConstantTimeCompare x y = (if x = y then 1 else 0)"

definition StaticAPIKey_Authenticate :: "static_api_key \<Rightarrow> request \<Rightarrow> (string, principal) result" where
  "StaticAPIKey_Authenticate sk r =
     (let hdr = hget (r_header r) ''Authorization'' in
      if hdr = [] then Inl (errUnauthorized ''missing Authorization header'')
      else
        let token = trim_prefix hdr ''Bearer '' in
        if token = hdr then Inl (errUnauthorized ''Authorization header must use Bearer scheme'')
        else if ConstantTimeCompare token (sk_key sk) \<noteq> 1
        then Inl (errUnauthorized ''invalid API key'')
        else Inr \<lparr>p_id = ''api_key'', p_authenticated = True\<rparr>)"

datatype authenticator = NoAuth | StaticAPIKey static_api_key

fun Authenticate :: "authenticator \<Rightarrow> request \<Rightarrow> (string, principal) result" where
  "Authenticate NoAuth r = NoAuth_Authenticate r"
| "Authenticate (StaticAPIKey sk) r = StaticAPIKey_Authenticate sk r"

subsection \<open>The middleware\<close>

definition excludedPaths :: "string set" where
  "excludedPaths = {''/v1/health'', ''/v1/version'', ''/metrics''}"

definition excludedPrefixes :: "string list" where
  "excludedPrefixes = [''/internal/'']"

fun any_prefix :: "string \<Rightarrow> string list \<Rightarrow> bool" where
  "any_prefix path [] = False"
| "any_prefix path (p # ps) =
     (if length p \<le> length path \<and> take (length p) path = p then True else any_prefix path ps)"

definition hasExcludedPrefix :: "string \<Rightarrow> bool" where
  "hasExcludedPrefix path = any_prefix path excludedPrefixes"

definition excluded :: "string \<Rightarrow> bool" where
  "excluded path \<longleftrightarrow> path \<in> excludedPaths \<or> hasExcludedPrefix path"

definition auth_error_body :: "string \<Rightarrow> string" where
  "auth_error_body msg = ''{\"error\":\"'' @ msg @ ''\"}''"

definition Auth :: "authenticator \<Rightarrow> 'w middleware" where
  "Auth auth next_h w r s =
     (if excluded (r_path r) then
        (let p = \<lparr>p_id = ''anonymous'', p_authenticated = False\<rparr>
         in next_h w (r\<lparr>r_ctx := withPrincipal (r_ctx r) p\<rparr>) s)
      else
        (case Authenticate auth r of
           Inl msg \<Rightarrow> reply (http_error (auth_error_body msg) 401) s
         | Inr p \<Rightarrow> next_h w (r\<lparr>r_ctx := withPrincipal (r_ctx r) p\<rparr>) s))"

subsection \<open>What the gate does\<close>

lemma excluded_iff:
  "excluded path \<longleftrightarrow> path \<in> {''/v1/health'', ''/v1/version'', ''/metrics''} \<or> has_prefix path ''/internal/''"
  by (auto simp: excluded_def excludedPaths_def hasExcludedPrefix_def excludedPrefixes_def
      has_prefix_def)

text \<open>The requests that carry the key: the header is the scheme, a blank and the key.\<close>

definition bearer :: "string \<Rightarrow> request \<Rightarrow> bool" where
  "bearer key r \<longleftrightarrow> hget (r_header r) ''Authorization'' = ''Bearer '' @ key"

lemma api_key_accepts_iff:
  "(\<exists>p. StaticAPIKey_Authenticate sk r = Inr p) \<longleftrightarrow> bearer (sk_key sk) r"
proof -
  define h where "h = hget (r_header r) ''Authorization''"
  define p where "p = ''Bearer ''"
  have p: "p \<noteq> []" by (simp add: p_def)
  have "trim_prefix h p = h \<longleftrightarrow> \<not> has_prefix h p"
    using p by (rule trim_prefix_same)
  moreover have "has_prefix h p \<Longrightarrow> trim_prefix h p = sk_key sk \<longleftrightarrow> h = p @ sk_key sk"
    by (auto simp: has_prefix_iff)
  moreover have "h = p @ sk_key sk \<Longrightarrow> has_prefix h p" by simp
  moreover have "h = [] \<Longrightarrow> h \<noteq> p @ sk_key sk" using p by simp
  moreover have "(\<exists>q. StaticAPIKey_Authenticate sk r = Inr q) \<longleftrightarrow>
      h \<noteq> [] \<and> trim_prefix h p \<noteq> h \<and> trim_prefix h p = sk_key sk"
    by (simp add: StaticAPIKey_Authenticate_def ConstantTimeCompare_def Let_def
        flip: h_def p_def)
  moreover have "bearer (sk_key sk) r \<longleftrightarrow> h = p @ sk_key sk"
    by (simp add: bearer_def h_def p_def)
  ultimately show ?thesis by blast
qed

lemma api_key_principal:
  "StaticAPIKey_Authenticate sk r = Inr p \<Longrightarrow> p = \<lparr>p_id = ''api_key'', p_authenticated = True\<rparr>"
  by (auto simp: StaticAPIKey_Authenticate_def Let_def split: if_splits)

definition unauthenticated :: "string \<Rightarrow> request \<Rightarrow> bool" where
  "unauthenticated key r \<longleftrightarrow> \<not> excluded (r_path r) \<and> \<not> bearer key r"

lemma stable_unauthenticated: "stable (unauthenticated key)"
  by (simp add: stable_def unauthenticated_def bearer_def)

lemma Auth_rejects:
  assumes "unauthenticated key r"
  shows "\<exists>msg. Auth (StaticAPIKey (NewStaticAPIKey key)) h w r s =
    reply (http_error (auth_error_body msg) 401) s"
proof -
  have "\<not> bearer (sk_key (NewStaticAPIKey key)) r"
    using assms by (simp add: unauthenticated_def NewStaticAPIKey_def)
  then obtain msg where "StaticAPIKey_Authenticate (NewStaticAPIKey key) r = Inl msg"
    using api_key_accepts_iff [of "NewStaticAPIKey key" r]
    by (cases "StaticAPIKey_Authenticate (NewStaticAPIKey key) r") auto
  with assms show ?thesis by (auto simp: Auth_def unauthenticated_def)
qed

lemma Auth_blocks: "blocks_on (unauthenticated key) (Auth (StaticAPIKey (NewStaticAPIKey key)))"
proof (rule blocks_onI)
  fix h h' :: "'a handler" and w r s
  assume u: "unauthenticated key r"
  then have "StaticAPIKey_Authenticate (NewStaticAPIKey key) r \<noteq> Inr p" for p
    using api_key_accepts_iff [of "NewStaticAPIKey key" r]
    by (auto simp: unauthenticated_def NewStaticAPIKey_def)
  with u show "Auth (StaticAPIKey (NewStaticAPIKey key)) h w r s
      = Auth (StaticAPIKey (NewStaticAPIKey key)) h' w r s"
    by (auto simp: Auth_def unauthenticated_def split: sum.splits)
qed

end
