(* ===== verification/Mw_Limits.thy ===== *)
theory Mw_Limits
  imports Mw_Auth
begin

text \<open>
  The middleware behind authentication: the global rate limit (ratelimit.go), the limit per
  principal (ratelimit_principal.go), and the body and time limits (governance.go).
\<close>

subsection \<open>Rate limits\<close>

definition rate_limited_body :: string where
  "rate_limited_body = ''{\"error\":\"rate limit exceeded\"}''"

text \<open>The bucket is made when the middleware is built; the state holds it.\<close>

definition RateLimit :: "'w env \<Rightarrow> int \<Rightarrow> 'w middleware" where
  "RateLimit e requestsPerMinute next_h =
     (if requestsPerMinute \<le> 0 then next_h
      else (\<lambda>w r s.
        (let (now, s1) = read_clock e s;
             (ok, b) = allow now (st_bucket s1);
             s2 = s1\<lparr>st_bucket := b\<rparr>
         in if \<not> ok then
              reply (SetHeader ''Retry-After'' ''1'' # http_error rate_limited_body 429) s2
            else next_h w r s2)))"

definition principal_key :: "request \<Rightarrow> string" where
  "principal_key r =
     (let key = p_id (PrincipalFromContext (r_ctx r)) in if key = [] then ''anonymous'' else key)"

definition PrincipalRateLimit :: "'w env \<Rightarrow> int \<Rightarrow> 'w middleware" where
  "PrincipalRateLimit e rpm next_h =
     (if rpm \<le> 0 then next_h
      else (\<lambda>w r s.
        (let key = principal_key r;
             (t1, s1) = (case bs_buckets (st_store s) key of
                 None \<Rightarrow> read_clock e s | Some _ \<Rightarrow> (0, s));
             (t2, s2) = read_clock e s1;
             (ok, bs) = store_allow t1 t2 key (st_store s2);
             s3 = s2\<lparr>st_store := bs\<rparr>
         in if \<not> ok then
              reply ([SetHeader ''Retry-After'' ''1'',
                      SetHeader ''X-RateLimit-Limit'' (int_to_str rpm),
                      SetHeader ''X-RateLimit-Remaining'' ''0''] @ http_error rate_limited_body 429) s3
            else next_h w r s3)))"

subsection \<open>Body size\<close>

text \<open>
  \<open>http.MaxBytesReader\<close> counts a negative limit as 0. It tells only the server's own writer
  that the limit was hit, and the writer it gets here is a recorder, so the response is not
  touched.
\<close>

definition MaxBodySize :: "int \<Rightarrow> 'w middleware" where
  "MaxBodySize maxBytes next_h w r s =
     (case r_body r of
        Some b \<Rightarrow>
          if r_content_length r \<noteq> 0
          then next_h w (r\<lparr>r_body := Some (b\<lparr>b_limit := Some (max 0 maxBytes)\<rparr>)\<rparr>) s
          else next_h w r s
      | None \<Rightarrow> next_h w r s)"

subsection \<open>Timeouts\<close>

text \<open>\<open>context.WithTimeout\<close>: the earlier of the parent's deadline and the new one.\<close>

definition with_timeout :: "int \<Rightarrow> int \<Rightarrow> ctx \<Rightarrow> ctx" where
  "with_timeout now d c =
     c\<lparr>c_deadline := Some (case c_deadline c of None \<Rightarrow> now + d | Some t \<Rightarrow> min t (now + d))\<rparr>"

text \<open>
  \<open>go func() { next.ServeHTTP(...); close(done) }()\<close>, then a wait for \<open>done\<close> on both branches of
  the \<open>select\<close>: the handler runs to its end. Its panic is on a goroutine of its own, which no
  deferred \<open>recover\<close> of the callers covers.
\<close>

definition in_goroutine :: "'w outcome3 \<Rightarrow> 'w outcome3" where
  "in_goroutine res =
     (case res of (s, ops, Panicked) \<Rightarrow> (s, ops, Crashed) | _ \<Rightarrow> res)"

definition RequestTimeout :: "'w env \<Rightarrow> int \<Rightarrow> 'w middleware" where
  "RequestTimeout e d next_h w r s =
     (let (now, s1) = read_clock e s
      in in_goroutine (next_h w (r\<lparr>r_ctx := with_timeout now d (r_ctx r)\<rparr>) s1))"

definition isInternalPath :: "string \<Rightarrow> bool" where
  "isInternalPath p \<longleftrightarrow>
     (let prefix = ''/internal/'' in length prefix \<le> length p \<and> take (length prefix) p = prefix)"

text \<open>The loop over \<open>i\<close> from 0 to \<open>len(s) - 5\<close>.\<close>

fun containsQuery :: "string \<Rightarrow> bool" where
  "containsQuery s =
     (if length s < 5 then False
      else if take 5 s = ''query'' \<or> take 5 s = ''Query'' then True
      else containsQuery (tl s))"

declare containsQuery.simps [simp del]

definition isQueryPath :: "string \<Rightarrow> bool" where
  "isQueryPath path \<longleftrightarrow> length path \<ge> 6 \<and> containsQuery path"

definition EndpointTimeout :: "'w env \<Rightarrow> int \<Rightarrow> int \<Rightarrow> 'w middleware" where
  "EndpointTimeout e defaultTimeout queryTimeout next_h w r s =
     (if isInternalPath (r_path r) then next_h w r s
      else
        (let timeout = (if isQueryPath (r_path r) then queryTimeout else defaultTimeout);
             (now, s1) = read_clock e s
         in in_goroutine (next_h w (r\<lparr>r_ctx := with_timeout now timeout (r_ctx r)\<rparr>) s1)))"

subsection \<open>Facts\<close>

lemma containsQuery_iff:
  "containsQuery s \<longleftrightarrow> (\<exists>a b. s = a @ ''query'' @ b \<or> s = a @ ''Query'' @ b)"
proof (induction s rule: containsQuery.induct)
  case (1 s)
  show ?case
  proof (cases "length s < 5")
    case True
    then show ?thesis by (subst containsQuery.simps) auto
  next
    case False
    then obtain c t where s: "s = c # t" by (cases s) auto
    have split: "(\<exists>a b. s = a @ p @ b) \<longleftrightarrow> take 5 s = p \<or> (\<exists>a b. tl s = a @ p @ b)"
      if "length p = 5" for p
    proof
      assume "\<exists>a b. s = a @ p @ b"
      then obtain a b where ab: "s = a @ p @ b" by blast
      show "take 5 s = p \<or> (\<exists>a b. tl s = a @ p @ b)"
      proof (cases a)
        case Nil
        with ab that show ?thesis by simp
      next
        case (Cons x xs)
        with ab show ?thesis by auto
      qed
    next
      assume "take 5 s = p \<or> (\<exists>a b. tl s = a @ p @ b)"
      then show "\<exists>a b. s = a @ p @ b"
      proof
        assume "take 5 s = p"
        then have "s = [] @ p @ drop 5 s" by (metis append_Nil append_take_drop_id)
        then show ?thesis by blast
      next
        assume "\<exists>a b. tl s = a @ p @ b"
        then obtain a b where "tl s = a @ p @ b" by blast
        with s have "s = (c # a) @ p @ b" by simp
        then show ?thesis by blast
      qed
    qed
    show ?thesis
    proof (cases "take 5 s = ''query'' \<or> take 5 s = ''Query''")
      case True
      with False split [of "''query''"] split [of "''Query''"] show ?thesis
        by (subst containsQuery.simps) auto
    next
      case no: False
      with False have "containsQuery s = containsQuery (tl s)"
        by (subst containsQuery.simps) simp
      with "1.IH" [OF False no] no split [of "''query''"] split [of "''Query''"] show ?thesis
        by auto
    qed
  qed
qed

lemma isInternalPath_iff: "isInternalPath p \<longleftrightarrow> has_prefix p ''/internal/''"
  by (simp add: isInternalPath_def has_prefix_def Let_def)

lemma in_goroutine_simps [simp]:
  "in_goroutine (s, ops, Done) = (s, ops, Done)"
  "in_goroutine (s, ops, Panicked) = (s, ops, Crashed)"
  "in_goroutine (s, ops, Crashed) = (s, ops, Crashed)"
  by (simp_all add: in_goroutine_def)

lemma res_in_goroutine [simp]:
  "res_state (in_goroutine res) = res_state res" "res_ops (in_goroutine res) = res_ops res"
  "res_outcome (in_goroutine res) = (if res_outcome res = Panicked then Crashed else res_outcome res)"
  by (cases res; cases "snd (snd res)"; simp)+

end
