(* ===== verification/Sample_World.thy ===== *)
theory Sample_World
  imports Server_State
begin

text \<open>
  Concrete services, states and requests on which the theorems are evaluated: the world is the
  current time in nanoseconds.
\<close>

definition sample_env :: "int env" where
  "sample_env = \<lparr>time_now = (\<lambda>t. (t, t + 1)), uuid_new = (\<lambda>t. (''uuid'', t)),
     prop_extract = (\<lambda>h n. hget h n), prop_inject = (\<lambda>c. [(''traceparent'', c)]),
     tracer_start = (\<lambda>parent name attrs t. (name, t))\<rparr>"

definition sample_state_of :: "'w \<Rightarrow> 'w st" where
  "sample_state_of w = \<lparr>st_world = w, st_bucket = new_bucket 60 0, st_store = new_store 60,
     st_idem = (\<lambda>_. None), st_log = [], st_panics = [],
     st_metrics = \<lparr>m_requests = (\<lambda>_. 0), m_durations = (\<lambda>_. []), m_bytes = (\<lambda>_. 0)\<rparr>,
     st_spans = []\<rparr>"

definition sample_state :: "int st" where
  "sample_state = sample_state_of 0"

definition sample_request :: "string \<Rightarrow> string \<Rightarrow> (string \<times> string) list \<Rightarrow> string \<Rightarrow> request" where
  "sample_request meth path hs data =
     \<lparr>r_method = meth, r_path = path, r_url = path, r_query = (\<lambda>_. []),
      r_header = foldl (\<lambda>h (k, v). hset h k v) (\<lambda>_. None) hs,
      r_body = Some \<lparr>b_data = data, b_limit = None\<rparr>, r_content_length = int (length data),
      r_remote = ''10.0.0.1:4000'', r_ctx = background, r_params = (\<lambda>_. [])\<rparr>"

definition plain_writer :: writer where
  "plain_writer = \<lparr>w_flusher = True\<rparr>"

lemma sample_simps [simp]:
  "time_now sample_env t = (t, t + 1)" "uuid_new sample_env t = (''uuid'', t)"
  "st_world sample_state = 0" "st_idem sample_state = (\<lambda>_. None)"
  "st_log sample_state = []" "st_panics sample_state = []"
  "r_method (sample_request m p hs d) = m" "r_path (sample_request m p hs d) = p"
  "r_ctx (sample_request m p hs d) = background"
  "r_params (sample_request m p hs d) = (\<lambda>_. [])"
  "r_body (sample_request m p hs d) = Some \<lparr>b_data = d, b_limit = None\<rparr>"
  by (simp_all add: sample_env_def sample_state_def sample_state_of_def sample_request_def)

text \<open>A handler that answers every request with one status and body, and leaves the state.\<close>

definition fixed_handler :: "int \<Rightarrow> string \<Rightarrow> 'w handler" where
  "fixed_handler code data w r s = reply [WriteHeader code, WriteBytes data] s"

end
