(* ===== verification/Mw_Idempotency.thy ===== *)
theory Mw_Idempotency
  imports Mw_Limits Sample_World
begin

text \<open>
  The Idempotency-Key middleware (\<open>internal/middleware/idempotency.go\<close>) over the cache of
  \<open>Idem_Cache\<close>: its configuration, the middleware, and what holds of requests that do not
  overlap. Overlapping requests are in \<open>Idem_Race\<close>.
\<close>

record idempotency_config =
  ic_ttl :: int
  ic_prefixes :: "string list"

fun matchesAnyPrefix :: "string \<Rightarrow> string list \<Rightarrow> bool" where
  "matchesAnyPrefix path [] = False"
| "matchesAnyPrefix path (p # ps) = (if has_prefix path p then True else matchesAnyPrefix path ps)"

text \<open>The defaults: 24 hours, and the documents endpoint.\<close>

definition with_defaults :: "idempotency_config \<Rightarrow> idempotency_config" where
  "with_defaults cfg =
     (let c1 = (if ic_ttl cfg = 0 then cfg\<lparr>ic_ttl := 24 * 60 * minute\<rparr> else cfg)
      in if ic_prefixes c1 = [] then c1\<lparr>ic_prefixes := [''/v1/documents'']\<rparr> else c1)"

text \<open>
  The lookup, the recorded run of the inner handler and the store. A panic of the inner
  handler unwinds before the store.
\<close>

definition Idempotency :: "'w env \<Rightarrow> idempotency_config \<Rightarrow> 'w middleware" where
  "Idempotency e cfg0 next_h w r s =
     (let cfg = with_defaults cfg0 in
      if r_method r \<noteq> ''POST'' \<or> \<not> matchesAnyPrefix (r_path r) (ic_prefixes cfg) then next_h w r s
      else
        let key = hget (r_header r) ''Idempotency-Key'' in
        if key = [] then next_h w r s
        else
          let (now, s1) = (case st_idem s key of None \<Rightarrow> (0, s) | Some _ \<Rightarrow> read_clock e s);
              (hit, c) = cache_get now key (st_idem s1);
              s2 = s1\<lparr>st_idem := c\<rparr>
          in (case hit of
                Some cr \<Rightarrow>
                  reply [SetHeader ''X-Idempotency-Replayed'' ''true'', WriteHeader (cr_status cr),
                         WriteBytes (cr_body cr)] s2
              | None \<Rightarrow>
                  (case next_h wrapped r s2 of
                     (s3, ops, Done) \<Rightarrow>
                       (let rc = recorded response_rec_step response_rec_init ops;
                            (now', s4) = read_clock e s3
                        in (s4\<lparr>st_idem := cache_set key
                              \<lparr>cr_status = rr_status rc, cr_body = rr_body rc,
                               cr_expires = now' + ic_ttl cfg\<rparr> (st_idem s4)\<rparr>, ops, Done))
                   | res \<Rightarrow> res)))"

text \<open>A tick of the background reaper.\<close>

definition reap_tick :: "'w env \<Rightarrow> 'w st \<Rightarrow> 'w st" where
  "reap_tick e s = (let (now, s1) = read_clock e s in s1\<lparr>st_idem := cache_reap now (st_idem s1)\<rparr>)"

subsection \<open>Facts\<close>

lemma matchesAnyPrefix_iff: "matchesAnyPrefix path ps \<longleftrightarrow> (\<exists>p \<in> set ps. has_prefix path p)"
  by (induction ps) auto

definition idem_applies :: "idempotency_config \<Rightarrow> request \<Rightarrow> bool" where
  "idem_applies cfg r \<longleftrightarrow> r_method r = ''POST''
     \<and> matchesAnyPrefix (r_path r) (ic_prefixes (with_defaults cfg))
     \<and> hget (r_header r) ''Idempotency-Key'' \<noteq> []"

abbreviation idem_key :: "request \<Rightarrow> string" where
  "idem_key r \<equiv> hget (r_header r) ''Idempotency-Key''"

lemma Idempotency_passes:
  "\<not> idem_applies cfg r \<Longrightarrow> Idempotency e cfg h w r s = h w r s"
  by (auto simp: Idempotency_def idem_applies_def Let_def)

definition replay_ops :: "cached_response \<Rightarrow> wop list" where
  "replay_ops cr =
     [SetHeader ''X-Idempotency-Replayed'' ''true'', WriteHeader (cr_status cr), WriteBytes (cr_body cr)]"

text \<open>A live entry answers the request, and the inner handler is not run.\<close>

lemma Idempotency_replay:
  assumes "idem_applies cfg r"
    and "fst (cache_get (fst (time_now e (st_world s))) (idem_key r) (st_idem s)) = Some cr"
  shows "Idempotency e cfg h w r s =
    (s\<lparr>st_world := snd (time_now e (st_world s))\<rparr>, replay_ops cr, Done)"
proof -
  obtain now w1 where t: "time_now e (st_world s) = (now, w1)" by force
  have c: "st_idem s (idem_key r) = Some cr" "\<not> cr_expires cr < now"
    using assms(2) by (auto simp: t cache_get_def split: option.splits if_splits)
  show ?thesis
    using assms(1) c
    by (simp add: Idempotency_def idem_applies_def Let_def read_clock_def t cache_get_def
        replay_ops_def reply_def)
qed

text \<open>A miss runs the inner handler once and stores what it answered.\<close>

definition stored_response :: "idempotency_config \<Rightarrow> int \<Rightarrow> wop list \<Rightarrow> cached_response" where
  "stored_response cfg now ops =
     \<lparr>cr_status = rr_status (recorded response_rec_step response_rec_init ops),
      cr_body = rr_body (recorded response_rec_step response_rec_init ops),
      cr_expires = now + ic_ttl (with_defaults cfg)\<rparr>"

lemma Idempotency_miss:
  assumes "idem_applies cfg r" "st_idem s (idem_key r) = None"
    and "h wrapped r s = (s1, ops, Done)" "read_clock e s1 = (now, s2)"
  shows "Idempotency e cfg h w r s =
    (s2\<lparr>st_idem := cache_set (idem_key r) (stored_response cfg now ops) (st_idem s2)\<rparr>, ops, Done)"
proof -
  have c: "cache_get 0 (idem_key r) (st_idem s) = (None, st_idem s)"
    using assms(2) by (simp add: cache_get_def)
  have s: "s\<lparr>st_idem := st_idem s\<rparr> = s" by simp
  show ?thesis
    using assms unfolding Idempotency_def idem_applies_def
    by (simp add: Let_def c s stored_response_def)
qed

lemma read_clock_frame:
  "read_clock e s = (t, s') \<Longrightarrow> s' = s\<lparr>st_world := snd (time_now e (st_world s))\<rparr>
     \<and> t = fst (time_now e (st_world s))"
  by (auto simp: read_clock_def split: prod.splits)

text \<open>What a replay sends: the stored status, and the stored body.\<close>

lemma respond_replay:
  assumes "is_commit (WriteHeader (cr_status cr))"
  shows "rs_status (respond (replay_ops cr)) = cr_status cr"
    and "body_allowed (cr_status cr) \<Longrightarrow> rs_body (respond (replay_ops cr)) = cr_body cr"
proof -
  have sh: "single_header (replay_ops cr)"
    unfolding single_header_def replay_ops_def using assms
    by (intro exI [of _ "[SetHeader ''X-Idempotency-Replayed'' ''true'']"] exI [of _ "cr_status cr"]
        exI [of _ "[WriteBytes (cr_body cr)]"]) simp
  have ops: "replay_ops cr = [SetHeader ''X-Idempotency-Replayed'' ''true''] @
      WriteHeader (cr_status cr) # [WriteBytes (cr_body cr)]"
    by (simp add: replay_ops_def)
  show st: "rs_status (respond (replay_ops cr)) = cr_status cr"
    unfolding ops using assms by (intro respond_status) simp_all
  assume "body_allowed (cr_status cr)"
  with respond_body [OF sh] st show "rs_body (respond (replay_ops cr)) = cr_body cr"
    by (simp add: replay_ops_def)
qed


definition keyed_request :: "string \<Rightarrow> request" where
  "keyed_request org = sample_request ''POST'' ''/v1/documents''
     [(''Idempotency-Key'', ''k1''), (''X-Vectorless-Org'', org)] ''{}''"

definition sample_idem_config :: idempotency_config where
  "sample_idem_config = \<lparr>ic_ttl = 0, ic_prefixes = []\<rparr>"

lemma keyed_request_simps:
  "idem_applies sample_idem_config (keyed_request org)" "idem_key (keyed_request org) = ''k1''"
  "hget (r_header (keyed_request org)) ''X-Vectorless-Org'' = org"
  "ic_ttl (with_defaults sample_idem_config) = 86400000000000"
proof -
  show k: "idem_key (keyed_request org) = ''k1''"
    and "hget (r_header (keyed_request org)) ''X-Vectorless-Org'' = org"
    by (simp_all add: keyed_request_def sample_request_def hget_hset canonical_key_def token_byte_def
        upper_byte_def lower_byte_def is_upper_def is_lower_def is_digit_def Let_def)
  show "ic_ttl (with_defaults sample_idem_config) = 86400000000000"
    by (simp add: with_defaults_def sample_idem_config_def minute_def second_def)
  show "idem_applies sample_idem_config (keyed_request org)"
    using k by (simp add: idem_applies_def with_defaults_def sample_idem_config_def Let_def)
      (simp add: keyed_request_def has_prefix_iff)
qed

subsection \<open>Properties\<close>

text \<open>C8. A retry that does not overlap the first request is answered from the cache: after a
  first request with a key has run the handler, a later request with the same key, before the
  entry expires, gets the same status and body, with the replay header, and the handler is
  not run again (the state is the one before the retry but for the clock reading). In between
  the cache may see any lookups, sweeps of the reaper, and stores under other keys.\<close>

theorem idempotent_replay:
  assumes "idem_applies cfg r" "idem_applies cfg r'" "idem_key r' = idem_key r"
    and "st_idem s (idem_key r) = None"
    and "h wrapped r s = (s1, ops, Done)" "single_header ops" "read_clock e s1 = (now, s2)"
    and "Idempotency e cfg h w r s = (s3, ops3, oc3)"
    and "st_idem s4 = foldl idem.apply_op (st_idem s3) xs"
    and "\<forall>x \<in> set xs. idem.op_ok (fst (time_now e (st_world s4))) (idem_key r) x"
    and "fst (time_now e (st_world s4)) \<le> now + ic_ttl (with_defaults cfg)"
    and "body_allowed (rs_status (respond ops))"
  shows "\<exists>ops'. Idempotency e cfg h' w' r' s4 = (s4\<lparr>st_world := snd (time_now e (st_world s4))\<rparr>, ops', Done)
    \<and> rs_status (respond ops') = rs_status (respond ops3)
    \<and> rs_body (respond ops') = rs_body (respond ops3)
    \<and> hget (rs_sent (respond ops')) ''X-Idempotency-Replayed'' = ''true''"
proof -
  let ?cr = "stored_response cfg now ops"
  have "Idempotency e cfg h w r s = (s2\<lparr>st_idem := cache_set (idem_key r) ?cr (st_idem s2)\<rparr>, ops, Done)"
    by (rule Idempotency_miss) fact+
  with assms(8) have first: "st_idem s3 = cache_set (idem_key r) ?cr (st_idem s2)" "ops3 = ops"
    by auto
  have hit: "fst (cache_get (fst (time_now e (st_world s4))) (idem_key r') (st_idem s4)) = Some ?cr"
    unfolding assms(3,9) first(1)
    by (rule idem.stored_is_found) (use assms(10,11) in \<open>simp_all add: stored_response_def\<close>)
  have cr: "cr_status ?cr = rs_status (respond ops)" "cr_body ?cr = rs_body (respond ops)"
    using response_recorder.status_of_single_header [OF assms(6)] respond_body [OF assms(6,12)]
    by (simp_all add: stored_response_def recorded_body)
  have c: "is_commit (WriteHeader (cr_status ?cr))"
    using assms(12) cr(1) by (auto simp: body_allowed_def)
  have "Idempotency e cfg h' w' r' s4 =
      (s4\<lparr>st_world := snd (time_now e (st_world s4))\<rparr>, replay_ops ?cr, Done)"
    by (rule Idempotency_replay [OF assms(2) hit])
  moreover have "hget (rs_sent (respond (replay_ops ?cr))) ''X-Idempotency-Replayed'' = ''true''"
    using c by (simp add: replay_ops_def respond_def trace_simps write_header_def ensure_header_def
        hget_hset Let_def)
  moreover have "body_allowed (cr_status ?cr)" using assms(12) cr(1) by simp
  ultimately show ?thesis
    using respond_replay [OF c] cr first(2) by auto
qed

definition sample_answer :: "wop list" where
  "sample_answer = [WriteHeader 202, WriteBytes ''doc-1'']"

definition after_first :: "int st" where
  "after_first = res_state (Idempotency sample_env sample_idem_config (fixed_handler 202 ''doc-1'')
     plain_writer (keyed_request ''org-a'') sample_state)"

lemma first_run:
  "fixed_handler 202 ''doc-1'' wrapped r sample_state = (sample_state, sample_answer, Done)"
  "read_clock sample_env sample_state = (0, sample_state\<lparr>st_world := 1\<rparr>)"
  "single_header sample_answer"
  "body_allowed (rs_status (respond sample_answer))"
  "Idempotency sample_env sample_idem_config (fixed_handler 202 ''doc-1'') plain_writer
     (keyed_request ''org-a'') sample_state = (after_first, sample_answer, Done)"
  "st_world after_first = 1"
proof -
  show h: "fixed_handler 202 ''doc-1'' wrapped r sample_state = (sample_state, sample_answer, Done)" for r
    by (simp add: fixed_handler_def reply_def sample_answer_def)
  show c: "read_clock sample_env sample_state = (0, sample_state\<lparr>st_world := 1\<rparr>)"
    by (simp add: read_clock_def)
  show "single_header sample_answer"
    unfolding single_header_def sample_answer_def
    by (intro exI [of _ "[]"] exI [of _ "202"] exI [of _ "[WriteBytes ''doc-1'']"]) simp
  show "body_allowed (rs_status (respond sample_answer))"
    by (simp add: sample_answer_def respond_def trace_simps write_header_def ensure_header_def
        body_allowed_def Let_def)
  have m: "Idempotency sample_env sample_idem_config (fixed_handler 202 ''doc-1'') plain_writer
     (keyed_request ''org-a'') sample_state =
     (sample_state\<lparr>st_world := 1, st_idem := cache_set (idem_key (keyed_request ''org-a''))
        (stored_response sample_idem_config 0 sample_answer) (\<lambda>_. None)\<rparr>, sample_answer, Done)"
    by (subst Idempotency_miss [where h = "fixed_handler 202 ''doc-1''", OF keyed_request_simps(1) _ h c])
      simp_all
  show "Idempotency sample_env sample_idem_config (fixed_handler 202 ''doc-1'') plain_writer
     (keyed_request ''org-a'') sample_state = (after_first, sample_answer, Done)"
    and "st_world after_first = 1"
    by (simp_all add: after_first_def m)
qed

lemma idempotent_replay_witness:
  "\<exists>ops'. Idempotency sample_env sample_idem_config (fixed_handler 500 ''again'') plain_writer
      (keyed_request ''org-a'') after_first = (after_first\<lparr>st_world := 2\<rparr>, ops', Done)
    \<and> rs_status (respond ops') = rs_status (respond sample_answer)
    \<and> rs_body (respond ops') = rs_body (respond sample_answer)
    \<and> hget (rs_sent (respond ops')) ''X-Idempotency-Replayed'' = ''true''"
proof -
  note f = first_run
  show ?thesis
    using idempotent_replay [where e = sample_env and xs = "[]" and ?s4.0 = after_first
        and h' = "fixed_handler 500 ''again''" and w' = plain_writer and cfg = sample_idem_config
        and r' = "keyed_request ''org-a''", OF keyed_request_simps(1) keyed_request_simps(1) refl
        _ f(1) f(3) f(2) f(5) _ _ _ f(4)]
    by (simp add: f(6) keyed_request_simps(4))
qed

text \<open>The cache key is the header alone: a client of another organisation that sends the same
  Idempotency-Key is answered with the response stored for the first one, whatever the two
  requests' organisation headers, principals, paths and bodies are, and its own request is not
  handled.\<close>

theorem replay_ignores_tenant:
  assumes "idem_applies cfg r" "idem_applies cfg r'" "idem_key r' = idem_key r"
    and "hget (r_header r') ''X-Vectorless-Org'' \<noteq> hget (r_header r) ''X-Vectorless-Org''"
    and "st_idem s (idem_key r) = None"
    and "h wrapped r s = (s1, ops, Done)" "read_clock e s1 = (now, s2)"
    and "Idempotency e cfg h w r s = (s3, ops3, oc3)"
    and "fst (time_now e (st_world s3)) \<le> now + ic_ttl (with_defaults cfg)"
  shows "Idempotency e cfg h' w' r' s3 =
    (s3\<lparr>st_world := snd (time_now e (st_world s3))\<rparr>, replay_ops (stored_response cfg now ops), Done)"
proof (rule Idempotency_replay [OF assms(2)])
  let ?cr = "stored_response cfg now ops"
  have "Idempotency e cfg h w r s = (s2\<lparr>st_idem := cache_set (idem_key r) ?cr (st_idem s2)\<rparr>, ops, Done)"
    by (rule Idempotency_miss) fact+
  with assms(8) have "st_idem s3 = cache_set (idem_key r) ?cr (st_idem s2)" by auto
  with assms(3,9) show "fst (cache_get (fst (time_now e (st_world s3))) (idem_key r') (st_idem s3)) = Some ?cr"
    by (simp add: cache_get_set_same stored_response_def)
qed

lemma replay_ignores_tenant_witness:
  "Idempotency sample_env sample_idem_config (fixed_handler 500 ''again'') plain_writer
      (keyed_request ''org-b'') after_first
    = (after_first\<lparr>st_world := 2\<rparr>, replay_ops (stored_response sample_idem_config 0 sample_answer), Done)"
proof -
  note f = first_run
  have ne: "hget (r_header (keyed_request ''org-b'')) ''X-Vectorless-Org''
      \<noteq> hget (r_header (keyed_request ''org-a'')) ''X-Vectorless-Org''"
    by (simp add: keyed_request_simps(3))
  show ?thesis
    using replay_ignores_tenant [where e = sample_env and h' = "fixed_handler 500 ''again''"
        and w' = plain_writer, OF keyed_request_simps(1) keyed_request_simps(1) _ ne _ f(1) f(2) f(5)]
    by (simp add: f(6) keyed_request_simps)
qed

end
