(* ===== verification/Idem_Race.thy ===== *)
theory Idem_Race
  imports Mw_Idempotency
begin

text \<open>
  Overlapping requests in the Idempotency-Key middleware. Nothing but the single operations of the
  \<open>sync.Map\<close> is atomic: a lookup loads the entry, compares its expiry with the clock, and deletes
  what has expired, in three steps; the reaper takes the time, then finds and deletes expired
  entries one by one; and the run of the inner handler and the store of its answer are steps of
  their own. All of them interleave. A request is a number; its key and the answer its handler
  would give are parameters. A lookup that is not interrupted does what \<open>cache_get\<close> does.
\<close>

datatype phase =
    Arrived
  | Loaded cached_response
  | Expired
  | Missed
  | Ran
  | Replied int string

text \<open>The reaper, between two ticks, on its sweep, or about to delete the entry of a key.\<close>

datatype reaper =
    Sleeping
  | Sweeping int
  | Deleting int string

record idem_sys =
  is_cache :: idem_cache
  is_phase :: "nat \<Rightarrow> phase"
  is_reaper :: reaper
  is_runs :: "nat list"
  is_now :: int

definition idem_start :: "int \<Rightarrow> idem_sys" where
  "idem_start now =
     \<lparr>is_cache = (\<lambda>_. None), is_phase = (\<lambda>_. Arrived), is_reaper = Sleeping, is_runs = [], is_now = now\<rparr>"

inductive idem_step ::
  "(nat \<Rightarrow> string) \<Rightarrow> (nat \<Rightarrow> int \<times> string) \<Rightarrow> int \<Rightarrow> idem_sys \<Rightarrow> idem_sys \<Rightarrow> bool"
  for key :: "nat \<Rightarrow> string" and answer :: "nat \<Rightarrow> int \<times> string" and ttl :: int where
  load_none:
    "is_phase s i = Arrived \<Longrightarrow> is_cache s (key i) = None \<Longrightarrow>
     idem_step key answer ttl s (s\<lparr>is_phase := (is_phase s)(i := Missed)\<rparr>)"
| load_some:
    "is_phase s i = Arrived \<Longrightarrow> is_cache s (key i) = Some cr \<Longrightarrow>
     idem_step key answer ttl s (s\<lparr>is_phase := (is_phase s)(i := Loaded cr)\<rparr>)"
| replay:
    "is_phase s i = Loaded cr \<Longrightarrow> is_now s \<le> cr_expires cr \<Longrightarrow>
     idem_step key answer ttl s (s\<lparr>is_phase := (is_phase s)(i := Replied (cr_status cr) (cr_body cr))\<rparr>)"
| find_expired:
    "is_phase s i = Loaded cr \<Longrightarrow> is_now s > cr_expires cr \<Longrightarrow>
     idem_step key answer ttl s (s\<lparr>is_phase := (is_phase s)(i := Expired)\<rparr>)"
| delete_expired:
    "is_phase s i = Expired \<Longrightarrow>
     idem_step key answer ttl s
       (s\<lparr>is_cache := (is_cache s)(key i := None), is_phase := (is_phase s)(i := Missed)\<rparr>)"
| run_handler:
    "is_phase s i = Missed \<Longrightarrow>
     idem_step key answer ttl s
       (s\<lparr>is_phase := (is_phase s)(i := Ran), is_runs := is_runs s @ [i]\<rparr>)"
| store_answer:
    "is_phase s i = Ran \<Longrightarrow> answer i = (code, body) \<Longrightarrow>
     idem_step key answer ttl s
       (s\<lparr>is_cache := cache_set (key i) \<lparr>cr_status = code, cr_body = body, cr_expires = is_now s + ttl\<rparr>
            (is_cache s),
          is_phase := (is_phase s)(i := Replied code body)\<rparr>)"
| clock_tick: "0 \<le> d \<Longrightarrow> idem_step key answer ttl s (s\<lparr>is_now := is_now s + d\<rparr>)"
| reap_starts:
    "is_reaper s = Sleeping \<Longrightarrow> idem_step key answer ttl s (s\<lparr>is_reaper := Sweeping (is_now s)\<rparr>)"
| reap_finds:
    "is_reaper s = Sweeping t \<Longrightarrow> is_cache s k = Some cr \<Longrightarrow> t > cr_expires cr \<Longrightarrow>
     idem_step key answer ttl s (s\<lparr>is_reaper := Deleting t k\<rparr>)"
| reap_deletes:
    "is_reaper s = Deleting t k \<Longrightarrow>
     idem_step key answer ttl s (s\<lparr>is_cache := (is_cache s)(k := None), is_reaper := Sweeping t\<rparr>)"
| reap_ends:
    "is_reaper s = Sweeping t \<Longrightarrow> idem_step key answer ttl s (s\<lparr>is_reaper := Sleeping\<rparr>)"

inductive idem_reach ::
  "(nat \<Rightarrow> string) \<Rightarrow> (nat \<Rightarrow> int \<times> string) \<Rightarrow> int \<Rightarrow> idem_sys \<Rightarrow> bool"
  for key :: "nat \<Rightarrow> string" and answer :: "nat \<Rightarrow> int \<times> string" and ttl :: int where
  start: "idem_reach key answer ttl (idem_start now)"
| step: "idem_reach key answer ttl s \<Longrightarrow> idem_step key answer ttl s t \<Longrightarrow> idem_reach key answer ttl t"

inductive_cases idem_stepE: "idem_step key answer ttl s t"

lemmas idem_steps = idem_step.intros

subsection \<open>A lookup that is not interrupted\<close>

text \<open>Without a step of anyone in between, the steps of a lookup do what \<open>cache_get\<close> does.\<close>

lemma same_cache [simp]: "s\<lparr>is_cache := is_cache s\<rparr> = s"
  by simp

lemma lookup_miss:
  assumes "idem_reach key answer ttl s" "is_phase s i = Arrived"
    and "cache_get (is_now s) (key i) (is_cache s) = (None, c)"
  shows "idem_reach key answer ttl (s\<lparr>is_cache := c, is_phase := (is_phase s)(i := Missed)\<rparr>)"
proof (cases "is_cache s (key i)")
  case None
  from idem_reach.step [OF assms(1) load_none [where key = key, OF assms(2) None]] show ?thesis
    using assms(3) None by (auto simp: cache_get_def)
next
  case (Some cr)
  with assms(3) have e: "is_now s > cr_expires cr" "c = (is_cache s)(key i := None)"
    by (auto simp: cache_get_def split: if_splits)
  let ?s1 = "s\<lparr>is_phase := (is_phase s)(i := Loaded cr)\<rparr>"
  let ?s2 = "?s1\<lparr>is_phase := (is_phase ?s1)(i := Expired)\<rparr>"
  have "idem_reach key answer ttl ?s1" by (rule idem_reach.step [OF assms(1) load_some [where key = key, OF assms(2) Some]])
  then have "idem_reach key answer ttl ?s2" by (rule idem_reach.step [OF _ find_expired]) (use e in simp_all)
  then have "idem_reach key answer ttl
      (?s2\<lparr>is_cache := (is_cache ?s2)(key i := None), is_phase := (is_phase ?s2)(i := Missed)\<rparr>)"
    by (rule idem_reach.step [OF _ delete_expired]) simp
  with e(2) show ?thesis by simp
qed

lemma lookup_hit:
  assumes "idem_reach key answer ttl s" "is_phase s i = Arrived"
    and "cache_get (is_now s) (key i) (is_cache s) = (Some cr, c)"
  shows "idem_reach key answer ttl
    (s\<lparr>is_cache := c, is_phase := (is_phase s)(i := Replied (cr_status cr) (cr_body cr))\<rparr>)"
proof -
  have e: "is_cache s (key i) = Some cr" "is_now s \<le> cr_expires cr" "c = is_cache s"
    using assms(3) by (auto simp: cache_get_def split: option.splits if_splits)
  let ?s1 = "s\<lparr>is_phase := (is_phase s)(i := Loaded cr)\<rparr>"
  have "idem_reach key answer ttl ?s1" by (rule idem_reach.step [OF assms(1) load_some [where key = key, OF assms(2) e(1)]])
  then have "idem_reach key answer ttl
      (?s1\<lparr>is_phase := (is_phase ?s1)(i := Replied (cr_status cr) (cr_body cr))\<rparr>)"
    by (rule idem_reach.step [OF _ replay]) (use e in simp_all)
  with e(3) show ?thesis by simp
qed

subsection \<open>Where answers come from\<close>

text \<open>A status and body that the handler gave for a request with this key.\<close>

definition answered ::
  "(nat \<Rightarrow> string) \<Rightarrow> (nat \<Rightarrow> int \<times> string) \<Rightarrow> idem_sys \<Rightarrow> string \<Rightarrow> int \<Rightarrow> string \<Rightarrow> bool" where
  "answered key answer s k code body \<longleftrightarrow>
     (\<exists>j \<in> set (is_runs s). key j = k \<and> answer j = (code, body))"

definition idem_inv ::
  "(nat \<Rightarrow> string) \<Rightarrow> (nat \<Rightarrow> int \<times> string) \<Rightarrow> idem_sys \<Rightarrow> bool" where
  "idem_inv key answer s \<longleftrightarrow>
     (\<forall>k cr. is_cache s k = Some cr \<longrightarrow> answered key answer s k (cr_status cr) (cr_body cr))
     \<and> (\<forall>i cr. is_phase s i = Loaded cr \<longrightarrow> answered key answer s (key i) (cr_status cr) (cr_body cr))
     \<and> (\<forall>i code body. is_phase s i = Replied code body \<longrightarrow> answered key answer s (key i) code body)
     \<and> (\<forall>i. is_phase s i = Ran \<longrightarrow> i \<in> set (is_runs s))
     \<and> (\<forall>i. is_phase s i = Arrived \<or> is_phase s i = Expired \<or> is_phase s i = Missed
          \<or> (\<exists>cr. is_phase s i = Loaded cr) \<longrightarrow> i \<notin> set (is_runs s))
     \<and> distinct (is_runs s)"

lemma answered_mono:
  "answered key answer s k code body \<Longrightarrow> set (is_runs s) \<subseteq> set (is_runs t) \<Longrightarrow>
     answered key answer t k code body"
  by (auto simp: answered_def)

lemma idem_inv_start: "idem_inv key answer (idem_start now)"
  by (simp add: idem_inv_def idem_start_def)

lemma idem_inv_step:
  assumes "idem_step key answer ttl s t" "idem_inv key answer s"
  shows "idem_inv key answer t"
  using assms(1)
proof cases
  case (store_answer i code body)
  have "i \<in> set (is_runs s)" using assms(2) store_answer(2) by (simp add: idem_inv_def)
  then have "answered key answer s (key i) code body"
    using store_answer(3) by (auto simp: answered_def)
  then show ?thesis
    using assms(2) store_answer(1) by (auto simp: idem_inv_def answered_def cache_set_def)
qed (use assms(2) in \<open>fastforce simp: idem_inv_def answered_def\<close>)+

lemma idem_reach_inv: "idem_reach key answer ttl s \<Longrightarrow> idem_inv key answer s"
  by (induction rule: idem_reach.induct) (auto intro: idem_inv_start idem_inv_step)

subsection \<open>Two overlapping requests\<close>

text \<open>Both look up before either stores; the second store overwrites the first.\<close>

lemma race_run:
  assumes "i \<noteq> j" "key i = key j"
  shows "\<exists>s. idem_reach key answer ttl s \<and> is_runs s = [i, j]
     \<and> is_phase s = (\<lambda>_. Arrived)(i := case_prod Replied (answer i), j := case_prod Replied (answer j))
     \<and> is_now s = 0 \<and> is_cache s (key j) =
         Some \<lparr>cr_status = fst (answer j), cr_body = snd (answer j), cr_expires = ttl\<rparr>"
proof -
  obtain ci bi cj bj where ans: "answer i = (ci, bi)" "answer j = (cj, bj)" by fastforce
  let ?s0 = "idem_start 0"
  let ?s1 = "?s0\<lparr>is_cache := is_cache ?s0, is_phase := (is_phase ?s0)(i := Missed)\<rparr>"
  let ?s2 = "?s1\<lparr>is_cache := is_cache ?s1, is_phase := (is_phase ?s1)(j := Missed)\<rparr>"
  let ?s3 = "?s2\<lparr>is_phase := (is_phase ?s2)(i := Ran), is_runs := is_runs ?s2 @ [i]\<rparr>"
  let ?s4 = "?s3\<lparr>is_phase := (is_phase ?s3)(j := Ran), is_runs := is_runs ?s3 @ [j]\<rparr>"
  let ?s5 = "?s4\<lparr>is_cache := cache_set (key i) \<lparr>cr_status = ci, cr_body = bi, cr_expires = is_now ?s4 + ttl\<rparr>
     (is_cache ?s4), is_phase := (is_phase ?s4)(i := Replied ci bi)\<rparr>"
  let ?s6 = "?s5\<lparr>is_cache := cache_set (key j) \<lparr>cr_status = cj, cr_body = bj, cr_expires = is_now ?s5 + ttl\<rparr>
     (is_cache ?s5), is_phase := (is_phase ?s5)(j := Replied cj bj)\<rparr>"
  let ?reach = "idem_reach key answer ttl"
  have get: "cache_get n k (\<lambda>_. None) = (None, \<lambda>_. None)" for n k by (simp add: cache_get_def)
  have "?reach ?s1"
    by (rule lookup_miss [OF idem_reach.start]) (simp_all add: idem_start_def get)
  then have "?reach ?s2"
    by (rule lookup_miss) (use assms(1) in \<open>simp_all add: idem_start_def get\<close>)
  then have "?reach ?s3"
    by (rule idem_reach.step [OF _ run_handler]) (use assms(1) in \<open>simp add: idem_start_def\<close>)
  then have "?reach ?s4"
    by (rule idem_reach.step [OF _ run_handler]) (use assms(1) in \<open>simp add: idem_start_def\<close>)
  then have "?reach ?s5"
    by (rule idem_reach.step [OF _ store_answer]) (use assms(1) ans in \<open>simp_all add: idem_start_def\<close>)
  then have "?reach ?s6"
    by (rule idem_reach.step [OF _ store_answer]) (use assms(1) ans in \<open>simp_all add: idem_start_def\<close>)
  then show ?thesis
    using assms by (intro exI [of _ ?s6]) (auto simp: idem_start_def ans cache_set_def fun_eq_iff)
qed

subsection \<open>A fresh answer that is deleted\<close>

text \<open>
  The deletion of an expired entry goes by the key alone. Two requests \<open>j\<close> and \<open>l\<close> find the answer of
  \<open>i\<close> expired; \<open>j\<close> runs the handler, stores its answer and replies; then \<open>l\<close> deletes what it finds
  under the key, and a retry \<open>m\<close> that comes after the reply, with no time passed, runs the handler
  again.
\<close>

lemma late_delete:
  assumes "is_phase s l = Expired" "is_phase s m = Arrived" "l \<noteq> m" "key l = key m"
  shows "\<exists>t. (idem_step key answer ttl)\<^sup>*\<^sup>* s t \<and> is_now t = is_now s \<and> is_runs t = is_runs s @ [m]"
proof -
  let ?sa = "s\<lparr>is_cache := (is_cache s)(key l := None), is_phase := (is_phase s)(l := Missed)\<rparr>"
  let ?sb = "?sa\<lparr>is_phase := (is_phase ?sa)(m := Missed)\<rparr>"
  let ?sc = "?sb\<lparr>is_phase := (is_phase ?sb)(m := Ran), is_runs := is_runs ?sb @ [m]\<rparr>"
  let ?step = "idem_step key answer ttl"
  have s1: "?step s ?sa" using assms(1) by (rule delete_expired)
  have s2: "?step ?sa ?sb" by (rule load_none) (use assms in simp_all)
  have s3: "?step ?sb ?sc" by (rule run_handler) simp
  have "?step\<^sup>*\<^sup>* s ?sc"
    by (rule rtranclp.rtrancl_into_rtrancl, rule rtranclp.rtrancl_into_rtrancl, rule r_into_rtranclp)
      (rule s1 s2 s3)+
  then show ?thesis by (intro exI [of _ ?sc]) simp
qed

lemma fresh_answer_is_deleted:
  assumes "distinct [i, j, l, m]" "key i = k" "key j = k" "key l = k" "key m = k" "0 \<le> ttl"
  shows "\<exists>s t. idem_reach key answer ttl s \<and> is_phase s j = case_prod Replied (answer j) \<and> is_phase s m = Arrived
    \<and> (idem_step key answer ttl)\<^sup>*\<^sup>* s t \<and> is_now t = is_now s \<and> is_runs t = is_runs s @ [m]"
proof -
  obtain ci bi cj bj where ans: "answer i = (ci, bi)" "answer j = (cj, bj)" by fastforce
  have neq: "i \<noteq> j" "j \<noteq> i" "i \<noteq> l" "l \<noteq> i" "i \<noteq> m" "m \<noteq> i" "j \<noteq> l" "l \<noteq> j" "j \<noteq> m" "m \<noteq> j" "l \<noteq> m" "m \<noteq> l"
    using assms(1) by auto
  note norm = neq assms(2-) ans cache_set_def fun_upd_twist
  let ?ci = "\<lparr>cr_status = ci, cr_body = bi, cr_expires = ttl\<rparr>"
  let ?cj = "\<lparr>cr_status = cj, cr_body = bj, cr_expires = (ttl + 1) + ttl\<rparr>"
  let ?ph = "\<lambda>a b c. (\<lambda>_. Arrived)(i := Replied ci bi, j := a, l := b, m := c)"
  let ?s = "\<lambda>c ph runs now. \<lparr>is_cache = c, is_phase = ph, is_reaper = Sleeping, is_runs = runs, is_now = now\<rparr>"
  let ?none = "\<lambda>_. None" and ?reach = "idem_reach key answer ttl"
  note go = idem_reach.step
  have "?reach (?s ?none (\<lambda>_. Arrived) [] 0)"
    using idem_reach.start [of key answer ttl 0] by (simp add: idem_start_def)
  from go [OF this load_none [of _ i]] have "?reach (?s ?none ((\<lambda>_. Arrived)(i := Missed)) [] 0)" by simp
  from go [OF this run_handler [of _ i]] have "?reach (?s ?none ((\<lambda>_. Arrived)(i := Ran)) [i] 0)" by simp
  from go [OF this store_answer [of _ i]] have "?reach (?s (?none(k \<mapsto> ?ci)) (?ph Arrived Arrived Arrived) [i] 0)"
    by (simp add: norm fun_upd_idem)
  from go [OF this clock_tick [of "ttl + 1"]]
  have "?reach (?s (?none(k \<mapsto> ?ci)) (?ph Arrived Arrived Arrived) [i] (ttl + 1))"
    by (simp add: norm)
  from go [OF this load_some [of _ j]] have "?reach (?s (?none(k \<mapsto> ?ci)) (?ph (Loaded ?ci) Arrived Arrived) [i] (ttl + 1))"
    by (simp add: norm)
  from go [OF this load_some [of _ l]] have "?reach (?s (?none(k \<mapsto> ?ci)) (?ph (Loaded ?ci) (Loaded ?ci) Arrived) [i] (ttl + 1))"
    by (simp add: norm)
  from go [OF this find_expired [of _ j]] have "?reach (?s (?none(k \<mapsto> ?ci)) (?ph Expired (Loaded ?ci) Arrived) [i] (ttl + 1))"
    by (simp add: norm)
  from go [OF this find_expired [of _ l]] have "?reach (?s (?none(k \<mapsto> ?ci)) (?ph Expired Expired Arrived) [i] (ttl + 1))"
    by (simp add: norm)
  from go [OF this delete_expired [of _ j]] have "?reach (?s (?none) (?ph Missed Expired Arrived) [i] (ttl + 1))"
    by (simp add: norm)
  from go [OF this run_handler [of _ j]] have "?reach (?s (?none) (?ph Ran Expired Arrived) [i, j] (ttl + 1))"
    by (simp add: norm)
  from go [OF this store_answer [of _ j]] have "?reach (?s (?none(k \<mapsto> ?cj)) (?ph (Replied cj bj) Expired Arrived) [i, j] (ttl + 1))"
    by (simp add: norm)
  moreover
  let ?last = "?s (?none(k \<mapsto> ?cj)) (?ph (Replied cj bj) Expired Arrived) [i, j] (ttl + 1)"
  have "\<exists>t. (idem_step key answer ttl)\<^sup>*\<^sup>* ?last t \<and> is_now t = is_now ?last \<and> is_runs t = is_runs ?last @ [m]"
    by (rule late_delete [where l = l]) (simp_all add: norm)
  then obtain t where "(idem_step key answer ttl)\<^sup>*\<^sup>* ?last t" "is_now t = is_now ?last" "is_runs t = is_runs ?last @ [m]"
    by blast
  ultimately show ?thesis
    by (intro exI [of _ ?last] exI [of _ t]) (simp add: norm)
qed

definition race_answer :: "nat \<Rightarrow> int \<times> string" where
  "race_answer i = (if i = 0 then (202, ''doc-a'') else (202, ''doc-b''))"

subsection \<open>Properties\<close>

text \<open>C17. However requests overlap, no answer is invented: a request that has been answered got a
  status and body that the handler produced for a request with the same key, and no request
  runs the handler twice.\<close>

theorem replies_come_from_the_handler:
  assumes "idem_reach key answer ttl s"
  shows "(is_phase s i = Replied code body \<longrightarrow>
      (\<exists>j \<in> set (is_runs s). key j = key i \<and> answer j = (code, body))) \<and> distinct (is_runs s)"
  using idem_reach_inv [OF assms] by (auto simp: idem_inv_def answered_def)

lemma replies_come_from_the_handler_witness:
  "\<exists>s :: idem_sys. is_phase s 1 = Replied 202 ''doc-b'' \<and> distinct (is_runs s)
     \<and> (\<exists>j \<in> set (is_runs s). race_answer j = (202, ''doc-b''))"
proof -
  obtain s where s: "idem_reach (\<lambda>_. ''k'') race_answer 86400000000000 s"
    and p: "is_phase s 1 = Replied 202 ''doc-b''"
    using race_run [of "0 :: nat" 1 "\<lambda>_. ''k''" race_answer 86400000000000] by (auto simp: race_answer_def)
  then have "distinct (is_runs s) \<and> (\<exists>j \<in> set (is_runs s). race_answer j = (202, ''doc-b''))"
    using replies_come_from_the_handler [OF s, of 1 202 "''doc-b''"] by simp
  with p show ?thesis by blast
qed

text \<open>C18. The middleware does not prevent double execution: two requests with the same key that
  overlap can both run the handler, the client of each gets its own answer, and a later retry
  of either is answered with the second answer, which is not the one the first client got.\<close>

theorem overlapping_requests_run_twice:
  assumes "i \<noteq> j" "l \<noteq> i" "l \<noteq> j" "key i = key j" "key l = key j" "0 \<le> ttl"
  shows "\<exists>s. idem_reach key answer ttl s \<and> is_runs s = [i, j]
     \<and> is_phase s i = case_prod Replied (answer i) \<and> is_phase s j = case_prod Replied (answer j)
     \<and> is_phase s l = case_prod Replied (answer j)"
proof -
  obtain s where s: "idem_reach key answer ttl s" "is_runs s = [i, j]" "is_now s = 0"
    "is_phase s = (\<lambda>_. Arrived)(i := case_prod Replied (answer i), j := case_prod Replied (answer j))"
    "is_cache s (key j) = Some \<lparr>cr_status = fst (answer j), cr_body = snd (answer j), cr_expires = ttl\<rparr>"
    using race_run [of i j key answer ttl] assms by blast
  let ?cr = "\<lparr>cr_status = fst (answer j), cr_body = snd (answer j), cr_expires = ttl\<rparr>"
  let ?t = "s\<lparr>is_cache := is_cache s, is_phase := (is_phase s)(l := Replied (cr_status ?cr) (cr_body ?cr))\<rparr>"
  have "idem_reach key answer ttl ?t"
    using s assms by (intro lookup_hit) (simp_all add: cache_get_def)
  then show ?thesis
    using s assms by (intro exI [of _ ?t]) (auto simp: case_prod_beta)
qed

lemma overlapping_requests_run_twice_witness:
  "\<exists>s. idem_reach (\<lambda>_. ''k'') race_answer 86400000000000 s \<and> is_runs s = [0, 1]
     \<and> is_phase s 0 = Replied 202 ''doc-a'' \<and> is_phase s 1 = Replied 202 ''doc-b''
     \<and> is_phase s 2 = Replied 202 ''doc-b''"
  using overlapping_requests_run_twice [of 0 1 2 "\<lambda>_. ''k''" 86400000000000 race_answer]
  by (simp add: race_answer_def)

end
