(* ===== verification/Json_Parse.thy ===== *)
theory Json_Parse
  imports Go_Http
begin

text \<open>
  Go's \<open>encoding/json\<close> decoder as the handlers use it: a parser for one value, the decoding of
  a value into a struct (field names matched exactly, then without regard to case; \<open>null\<close>
  leaves a field as it is; the last of duplicate members wins; a value of the wrong type is an
  error), and the two entry points, \<open>Decoder.Decode\<close>, which reads the first value of a stream,
  and \<open>Unmarshal\<close>, which wants nothing after it. The decoder's error texts are not modelled
  here: they are a parameter of the handlers.
\<close>

subsection \<open>Strings\<close>

definition utf8_enc :: "nat \<Rightarrow> string" where
  "utf8_enc n =
     (if n < 128 then [char_of n]
      else if n < 2048 then [char_of (192 + n div 64), char_of (128 + n mod 64)]
      else if n < 65536
      then [char_of (224 + n div 4096), char_of (128 + n div 64 mod 64), char_of (128 + n mod 64)]
      else [char_of (240 + n div 262144), char_of (128 + n div 4096 mod 64),
            char_of (128 + n div 64 mod 64), char_of (128 + n mod 64)])"

definition hex_val :: "char \<Rightarrow> nat option" where
  "hex_val c =
     (let v = byte_val c in
      if is_digit c then Some (v - 48)
      else if 97 \<le> v \<and> v \<le> 102 then Some (v - 87)
      else if 65 \<le> v \<and> v \<le> 70 then Some (v - 55) else None)"

text \<open>Four hex digits.\<close>

definition hex4 :: "string \<Rightarrow> nat option" where
  "hex4 s =
     (case map hex_val (take 4 s) of
        [Some a, Some b, Some c, Some d] \<Rightarrow> Some (a * 4096 + b * 256 + c * 16 + d)
      | _ \<Rightarrow> None)"

definition replacement :: nat where
  "replacement = 65533"

text \<open>
  A \<open>\u\<close> escape whose first four digits are \<open>u\<close>, with the rest of the input: a surrogate
  pair is one code point, a lone surrogate the replacement character. The second component
  counts the bytes of the rest that the pair uses.
\<close>

definition surrogate_pair :: "nat \<Rightarrow> string \<Rightarrow> nat \<times> nat" where
  "surrogate_pair u rest =
     (if \<not> (55296 \<le> u \<and> u < 57344) then (u, 0)
      else (case rest of
              a # b # t \<Rightarrow>
                if a = CHR 0x5C \<and> b = CHR ''u'' \<and> u < 56320
                then (case hex4 t of
                        Some u2 \<Rightarrow> if 56320 \<le> u2 \<and> u2 < 57344
                                    then ((u - 55296) * 1024 + (u2 - 56320) + 65536, 6)
                                    else (replacement, 0)
                      | None \<Rightarrow> (replacement, 0))
                else (replacement, 0)
            | _ \<Rightarrow> (replacement, 0)))"

definition simple_escape :: "char \<Rightarrow> char option" where
  "simple_escape c =
     (if c = CHR 0x22 \<or> c = CHR 0x5C \<or> c = CHR ''/'' then Some c
      else if c = CHR ''b'' then Some (CHR 0x08)
      else if c = CHR ''f'' then Some (CHR 0x0C)
      else if c = CHR ''n'' then Some (CHR 0x0A)
      else if c = CHR ''r'' then Some (CHR 0x0D)
      else if c = CHR ''t'' then Some (CHR 0x09) else None)"

text \<open>One step inside a string: the bytes it denotes and how many bytes of input it takes.\<close>

definition string_step :: "string \<Rightarrow> (string \<times> nat) option" where
  "string_step s =
     (case s of
        [] \<Rightarrow> None
      | c # t \<Rightarrow>
          if byte_val c < 32 then None
          else if c = CHR 0x5C then
            (case t of
               [] \<Rightarrow> None
             | d # t' \<Rightarrow>
                 if d = CHR ''u'' then
                   (case hex4 t' of
                      None \<Rightarrow> None
                    | Some u \<Rightarrow> (case surrogate_pair u (drop 4 t') of (r, k) \<Rightarrow> Some (utf8_enc r, 6 + k)))
                 else map_option (\<lambda>b. ([b], 2)) (simple_escape d))
          else if rune_width s = 0 then Some (utf8_enc replacement, 1)
          else Some (take (rune_width s) s, rune_width s))"

lemma string_step_pos: "string_step s = Some (b, k) \<Longrightarrow> 0 < k \<and> s \<noteq> []"
  by (auto simp: string_step_def split: list.splits if_splits option.splits prod.splits)

text \<open>The rest of a string literal, after its opening quote.\<close>

function unquote :: "string \<Rightarrow> (string \<times> string) option" where
  "unquote s =
     (if s \<noteq> [] \<and> hd s = CHR 0x22 then Some ([], tl s)
      else (case string_step s of
              None \<Rightarrow> None
            | Some (b, k) \<Rightarrow> map_option (\<lambda>(v, r). (b @ v, r)) (unquote (drop k s))))"
  by pat_completeness auto
termination
  by (relation "measure length") (auto dest: string_step_pos)

declare unquote.simps [simp del]

subsection \<open>Values\<close>

definition is_ws :: "char \<Rightarrow> bool" where
  "is_ws c \<longleftrightarrow> c = CHR 0x20 \<or> c = CHR 0x09 \<or> c = CHR 0x0A \<or> c = CHR 0x0D"

definition skip_ws :: "string \<Rightarrow> string" where
  "skip_ws s = dropWhile is_ws s"

definition scan_int :: "string \<Rightarrow> (string \<times> string) option" where
  "scan_int s =
     (case s of
        [] \<Rightarrow> None
      | c # t \<Rightarrow> if c = CHR ''0'' then Some ([c], t)
                 else if is_digit c then Some (takeWhile is_digit s, dropWhile is_digit s) else None)"

definition scan_frac :: "string \<Rightarrow> (string \<times> string) option" where
  "scan_frac s =
     (case s of
        c # d # t \<Rightarrow> if c = CHR ''.'' then
            (if is_digit d then Some (c # takeWhile is_digit (d # t), dropWhile is_digit (d # t)) else None)
          else Some ([], s)
      | [c] \<Rightarrow> if c = CHR ''.'' then None else Some ([], s)
      | [] \<Rightarrow> Some ([], []))"

definition scan_exp :: "string \<Rightarrow> (string \<times> string) option" where
  "scan_exp s =
     (case s of
        [] \<Rightarrow> Some ([], [])
      | c # t \<Rightarrow>
          if c = CHR ''e'' \<or> c = CHR ''E'' then
            (let (sg, u) = (case t of
                 d # u \<Rightarrow> if d = CHR ''+'' \<or> d = CHR ''-'' then ([d], u) else ([], t)
               | [] \<Rightarrow> ([], []))
             in if u \<noteq> [] \<and> is_digit (hd u)
                then Some (c # sg @ takeWhile is_digit u, dropWhile is_digit u) else None)
          else Some ([], s))"

definition scan_number :: "string \<Rightarrow> (string \<times> string) option" where
  "scan_number s =
     (let (sg, s1) = (case s of
          c # t \<Rightarrow> if c = CHR ''-'' then ([c], t) else ([], s) | [] \<Rightarrow> ([], []))
      in case scan_int s1 of
           None \<Rightarrow> None
         | Some (ip, s2) \<Rightarrow>
             (case scan_frac s2 of
                None \<Rightarrow> None
              | Some (fp, s3) \<Rightarrow>
                  (case scan_exp s3 of
                     None \<Rightarrow> None
                   | Some (ep, s4) \<Rightarrow> Some (sg @ ip @ fp @ ep, s4))))"

definition scan_literal :: "string \<Rightarrow> (json \<times> string) option" where
  "scan_literal s =
     (if has_prefix s ''null'' then Some (JNull, drop 4 s)
      else if has_prefix s ''true'' then Some (JBool True, drop 4 s)
      else if has_prefix s ''false'' then Some (JBool False, drop 5 s)
      else map_option (\<lambda>(t, r). (JNum t, r)) (scan_number s))"

text \<open>
  The parser. The first argument is fuel: one more than the length of the input is enough,
  since every call consumes a byte; the second is the nesting depth left, 10000 in Go.
\<close>

fun parse_value :: "nat \<Rightarrow> nat \<Rightarrow> string \<Rightarrow> (json \<times> string) option"
and parse_elems :: "nat \<Rightarrow> nat \<Rightarrow> string \<Rightarrow> (json list \<times> string) option"
and parse_members :: "nat \<Rightarrow> nat \<Rightarrow> string \<Rightarrow> ((string \<times> json) list \<times> string) option" where
  "parse_value 0 d s = None"
| "parse_value (Suc n) d s =
     (case skip_ws s of
        [] \<Rightarrow> None
      | c # t \<Rightarrow>
          if c = CHR 0x22 then map_option (\<lambda>(v, r). (JStr v, r)) (unquote t)
          else if c = CHR ''['' then
            (if d = 0 then None
             else if skip_ws t \<noteq> [] \<and> hd (skip_ws t) = CHR '']'' then Some (JArr [], tl (skip_ws t))
             else map_option (\<lambda>(vs, r). (JArr vs, r)) (parse_elems n (d - 1) t))
          else if c = CHR ''{'' then
            (if d = 0 then None
             else if skip_ws t \<noteq> [] \<and> hd (skip_ws t) = CHR ''}'' then Some (JObj [], tl (skip_ws t))
             else map_option (\<lambda>(ms, r). (JObj ms, r)) (parse_members n (d - 1) t))
          else scan_literal (c # t))"
| "parse_elems 0 d s = None"
| "parse_elems (Suc n) d s =
     (case parse_value n d s of
        None \<Rightarrow> None
      | Some (v, r) \<Rightarrow>
          (case skip_ws r of
             [] \<Rightarrow> None
           | c # t \<Rightarrow>
               if c = CHR '']'' then Some ([v], t)
               else if c = CHR '','' then map_option (\<lambda>(vs, r'). (v # vs, r')) (parse_elems n d t)
               else None))"
| "parse_members 0 d s = None"
| "parse_members (Suc n) d s =
     (case skip_ws s of
        [] \<Rightarrow> None
      | q # t \<Rightarrow>
          if q \<noteq> CHR 0x22 then None
          else (case unquote t of
                  None \<Rightarrow> None
                | Some (k, r) \<Rightarrow>
                    (case skip_ws r of
                       [] \<Rightarrow> None
                     | c # r1 \<Rightarrow>
                         if c \<noteq> CHR '':'' then None
                         else (case parse_value n d r1 of
                                 None \<Rightarrow> None
                               | Some (v, r2) \<Rightarrow>
                                   (case skip_ws r2 of
                                      [] \<Rightarrow> None
                                    | e # r3 \<Rightarrow>
                                        if e = CHR ''}'' then Some ([(k, v)], r3)
                                        else if e = CHR '','' then
                                          map_option (\<lambda>(ms, r'). ((k, v) # ms, r')) (parse_members n d r3)
                                        else None)))))"

definition max_depth :: nat where
  "max_depth = 10000"

definition first_value :: "string \<Rightarrow> (json \<times> string) option" where
  "first_value s = parse_value (length s + 1) max_depth s"

text \<open>\<open>json.NewDecoder(body).Decode\<close>: the first value, if the bytes that can be read hold one.\<close>

definition decode_body :: "body option \<Rightarrow> json option" where
  "decode_body b =
     (case b of None \<Rightarrow> None | Some b \<Rightarrow> map_option fst (first_value (available b)))"

text \<open>\<open>json.Unmarshal\<close>: one value and white space.\<close>

definition unmarshal :: "string \<Rightarrow> json option" where
  "unmarshal s =
     (case first_value s of None \<Rightarrow> None | Some (v, r) \<Rightarrow> if skip_ws r = [] then Some v else None)"

text \<open>The text of each member's value in a parsed object, as a \<open>json.RawMessage\<close> gets it.\<close>

fun raw_members :: "nat \<Rightarrow> string \<Rightarrow> (string \<times> string) list" where
  "raw_members 0 s = []"
| "raw_members (Suc n) s =
     (case skip_ws s of
        [] \<Rightarrow> []
      | q # t \<Rightarrow>
          (case unquote t of
             None \<Rightarrow> []
           | Some (k, r) \<Rightarrow>
               (let v = skip_ws (tl (skip_ws r)) in
                case first_value v of
                  None \<Rightarrow> []
                | Some (_, r2) \<Rightarrow>
                    (k, take (length v - length r2) v) #
                    (if skip_ws r2 \<noteq> [] \<and> hd (skip_ws r2) = CHR '','' then raw_members n (tl (skip_ws r2)) else []))))"

definition raw_object :: "string \<Rightarrow> (string \<times> string) list" where
  "raw_object s = raw_members (length s) (tl (skip_ws s))"

subsection \<open>Decoding into a struct\<close>

text \<open>
  The folding of \<open>encoding/json\<close>: ASCII letters, with the Kelvin sign and the long s folding
  to \<open>k\<close> and \<open>s\<close>; other code points never fold to ASCII.
\<close>

function fold_key :: "string \<Rightarrow> string" where
  "fold_key s =
     (if s = [] then []
      else if take 3 s = [CHR 0xE2, CHR 0x84, CHR 0xAA] then CHR ''k'' # fold_key (drop 3 s)
      else if take 2 s = [CHR 0xC5, CHR 0xBF] then CHR ''s'' # fold_key (drop 2 s)
      else lower_byte (hd s) # fold_key (tl s))"
  by pat_completeness auto
termination
  by (relation "measure length") auto

declare fold_key.simps [simp del]

definition match_field :: "string list \<Rightarrow> string \<Rightarrow> string option" where
  "match_field names key =
     (if key \<in> set names then Some key else find (\<lambda>n. fold_key n = fold_key key) names)"

definition dec_string :: "json \<Rightarrow> string \<Rightarrow> string option" where
  "dec_string j old = (case j of JNull \<Rightarrow> Some old | JStr s \<Rightarrow> Some s | _ \<Rightarrow> None)"

definition dec_int :: "json \<Rightarrow> int \<Rightarrow> int option" where
  "dec_int j old = (case j of JNull \<Rightarrow> Some old | JNum t \<Rightarrow> atoi t | _ \<Rightarrow> None)"

text \<open>
  A \<open>[]string\<close> field. The pair is the slice and its whole backing array: an element \<open>null\<close>
  leaves what the array holds at that place.
\<close>

type_synonym slice = "string list \<times> string list"

fun dec_elems :: "json list \<Rightarrow> string list \<Rightarrow> string list option" where
  "dec_elems [] back = Some []"
| "dec_elems (j # js) back =
     (case dec_string j (case back of [] \<Rightarrow> [] | b # _ \<Rightarrow> b) of
        None \<Rightarrow> None
      | Some s \<Rightarrow> map_option (\<lambda>ss. s # ss) (dec_elems js (tl back)))"

definition dec_strings :: "json \<Rightarrow> slice \<Rightarrow> slice option" where
  "dec_strings j old =
     (case j of
        JNull \<Rightarrow> Some ([], [])
      | JArr js \<Rightarrow>
          map_option (\<lambda>ss. (ss, if ss = [] then [] else ss @ drop (length ss) (snd old)))
            (dec_elems js (snd old))
      | _ \<Rightarrow> None)"

fun decode_members ::
  "string list \<Rightarrow> (string \<Rightarrow> json \<Rightarrow> 'a \<Rightarrow> 'a option) \<Rightarrow> (string \<times> json) list \<Rightarrow> 'a \<Rightarrow> 'a option" where
  "decode_members names set_field [] x = Some x"
| "decode_members names set_field ((k, v) # ms) x =
     (case match_field names k of
        None \<Rightarrow> decode_members names set_field ms x
      | Some n \<Rightarrow> (case set_field n v x of
                    None \<Rightarrow> None
                  | Some x' \<Rightarrow> decode_members names set_field ms x'))"

definition decode_struct ::
  "string list \<Rightarrow> (string \<Rightarrow> json \<Rightarrow> 'a \<Rightarrow> 'a option) \<Rightarrow> 'a \<Rightarrow> json \<Rightarrow> 'a option" where
  "decode_struct names set_field zero j =
     (case j of JNull \<Rightarrow> Some zero | JObj ms \<Rightarrow> decode_members names set_field ms zero | _ \<Rightarrow> None)"

end
