(* ===== verification/Rfc3339.thy ===== *)
theory Rfc3339
  imports Json_Parse "HOL-Library.Monad_Syntax"
begin

text \<open>
  The part of Go's \<open>time\<close> package behind the pagination cursor and the JSON timestamps: a
  \<open>time.Time\<close> as its calendar fields and zone offset (in minutes), its instant, \<open>IsZero\<close>,
  formatting and parsing with the layout \<open>time.RFC3339Nano\<close>, and \<open>MarshalJSON\<close>. The main fact is
  that parsing what was formatted gives the time back.
\<close>

record go_time =
  t_year :: int
  t_month :: nat
  t_day :: nat
  t_hour :: nat
  t_min :: nat
  t_sec :: nat
  t_nsec :: nat
  t_off :: int

subsection \<open>The calendar\<close>

definition leap :: "int \<Rightarrow> bool" where
  "leap y \<longleftrightarrow> y mod 4 = 0 \<and> (y mod 100 \<noteq> 0 \<or> y mod 400 = 0)"

definition days_in :: "nat \<Rightarrow> int \<Rightarrow> nat" where
  "days_in m y =
     (if m = 2 then (if leap y then 29 else 28)
      else if m = 4 \<or> m = 6 \<or> m = 9 \<or> m = 11 then 30 else 31)"

definition days_before_year :: "int \<Rightarrow> int" where
  "days_before_year y = 365 * (y - 1) + (y - 1) div 4 - (y - 1) div 100 + (y - 1) div 400"

definition days_before_month :: "nat \<Rightarrow> int \<Rightarrow> int" where
  "days_before_month m y = int (sum_list (map (\<lambda>k. days_in k y) [1..<m]))"

text \<open>Seconds since the zero time, 1 January of year 1 in UTC.\<close>

definition abs_seconds :: "go_time \<Rightarrow> int" where
  "abs_seconds t =
     ((days_before_year (t_year t) + days_before_month (t_month t) (t_year t) + int (t_day t) - 1) * 24
        + int (t_hour t)) * 3600
     + (int (t_min t) - t_off t) * 60 + int (t_sec t)"

definition time_is_zero :: "go_time \<Rightarrow> bool" where
  "time_is_zero t \<longleftrightarrow> abs_seconds t = 0 \<and> t_nsec t = 0"

definition unix_seconds :: "go_time \<Rightarrow> int" where
  "unix_seconds t = abs_seconds t - 719162 * 86400"

definition zero_time :: go_time where
  "zero_time = \<lparr>t_year = 1, t_month = 1, t_day = 1, t_hour = 0, t_min = 0, t_sec = 0, t_nsec = 0, t_off = 0\<rparr>"

lemma zero_time_is_zero [simp]: "time_is_zero zero_time"
  by (simp add: time_is_zero_def zero_time_def abs_seconds_def days_before_year_def days_before_month_def)

subsection \<open>Formatting\<close>

fun pad :: "nat \<Rightarrow> nat \<Rightarrow> string" where
  "pad 0 n = []"
| "pad (Suc w) n = pad w (n div 10) @ [digit_byte (n mod 10)]"

definition append_year :: "int \<Rightarrow> string" where
  "append_year y =
     (let a = nat \<bar>y\<bar>; ds = (if a < 10000 then pad 4 a else nat_str a)
      in if y < 0 then CHR ''-'' # ds else ds)"

definition strip_zeros :: "string \<Rightarrow> string" where
  "strip_zeros s = rev (dropWhile (\<lambda>c. c = CHR ''0'') (rev s))"

definition format_frac :: "nat \<Rightarrow> string" where
  "format_frac ns = (let ds = strip_zeros (pad 9 ns) in if ds = [] then [] else CHR ''.'' # ds)"

definition format_zone :: "int \<Rightarrow> string" where
  "format_zone off =
     (if off = 0 then ''Z''
      else (if off < 0 then CHR ''-'' else CHR ''+'') #
           pad 2 (nat \<bar>off\<bar> div 60) @ '':'' @ pad 2 (nat \<bar>off\<bar> mod 60))"

definition format_time :: "go_time \<Rightarrow> string" where
  "format_time t =
     append_year (t_year t) @ CHR ''-'' # pad 2 (t_month t) @ CHR ''-'' # pad 2 (t_day t) @ CHR ''T'' #
     pad 2 (t_hour t) @ CHR '':'' # pad 2 (t_min t) @ CHR '':'' # pad 2 (t_sec t) @
     format_frac (t_nsec t) @ format_zone (t_off t)"

text \<open>\<open>MarshalJSON\<close> fails on a year of other than four digits and on an offset of a day or more.\<close>

definition time_json :: "go_time \<Rightarrow> json option" where
  "time_json t =
     (if 0 \<le> t_year t \<and> t_year t \<le> 9999 \<and> \<bar>t_off t\<bar> < 1440 then Some (JStr (format_time t)) else None)"

subsection \<open>Parsing\<close>

definition lit :: "char \<Rightarrow> string \<Rightarrow> string option" where
  "lit c s = (case s of [] \<Rightarrow> None | d # t \<Rightarrow> if d = c then Some t else None)"

definition num :: "nat \<Rightarrow> string \<Rightarrow> (nat \<times> string) option" where
  "num w s =
     (if length s < w then None
      else case digits_val 0 (take w s) of None \<Rightarrow> None | Some n \<Rightarrow> Some (n, drop w s))"

text \<open>The hour may be given with one digit.\<close>

definition num_hour :: "string \<Rightarrow> (nat \<times> string) option" where
  "num_hour s = (case num 2 s of Some r \<Rightarrow> Some r | None \<Rightarrow> num 1 s)"

definition parse_frac :: "string \<Rightarrow> nat \<times> string" where
  "parse_frac s =
     (case s of
        c # d # t \<Rightarrow>
          if (c = CHR ''.'' \<or> c = CHR '','') \<and> is_digit d
          then (let ds = take 9 (takeWhile is_digit (d # t))
                in (the (digits_val 0 ds) * 10 ^ (9 - length ds), dropWhile is_digit (d # t)))
          else (0, s)
      | _ \<Rightarrow> (0, s))"

definition parse_zone :: "string \<Rightarrow> (int \<times> string) option" where
  "parse_zone s =
     (case s of
        [] \<Rightarrow> None
      | c # t \<Rightarrow>
          if c = CHR ''Z'' then Some (0, t)
          else if c = CHR ''+'' \<or> c = CHR ''-'' then
            do { (h, t1) \<leftarrow> num 2 t; t2 \<leftarrow> lit (CHR '':'') t1; (m, t3) \<leftarrow> num 2 t2;
                 if h > 24 \<or> m > 60 then None
                 else Some ((if c = CHR ''-'' then - 1 else 1) * int (h * 60 + m), t3) }
          else None)"

definition guard :: "bool \<Rightarrow> unit option" where
  "guard b = (if b then Some () else None)"

definition parse_date :: "string \<Rightarrow> (int \<times> nat \<times> nat \<times> string) option" where
  "parse_date s =
     do { (y, s1) \<leftarrow> num 4 s; s2 \<leftarrow> lit (CHR ''-'') s1;
          (m, s3) \<leftarrow> num 2 s2; guard (1 \<le> m \<and> m \<le> 12); s4 \<leftarrow> lit (CHR ''-'') s3;
          (d, s5) \<leftarrow> num 2 s4; Some (int y, m, d, s5) }"

definition parse_clock :: "string \<Rightarrow> (nat \<times> nat \<times> nat \<times> string) option" where
  "parse_clock s =
     do { (h, s1) \<leftarrow> num_hour s; guard (h < 24); s2 \<leftarrow> lit (CHR '':'') s1;
          (mi, s3) \<leftarrow> num 2 s2; guard (mi < 60); s4 \<leftarrow> lit (CHR '':'') s3;
          (sec, s5) \<leftarrow> num 2 s4; guard (sec < 60); Some (h, mi, sec, s5) }"

definition parse_time :: "string \<Rightarrow> go_time option" where
  "parse_time s =
     do { (y, m, d, s1) \<leftarrow> parse_date s; s2 \<leftarrow> lit (CHR ''T'') s1;
          (h, mi, sec, s3) \<leftarrow> parse_clock s2;
          let (ns, s4) = parse_frac s3;
          (off, s5) \<leftarrow> parse_zone s4;
          guard (s5 = [] \<and> 1 \<le> d \<and> d \<le> days_in m y);
          Some \<lparr>t_year = y, t_month = m, t_day = d, t_hour = h, t_min = mi, t_sec = sec,
                t_nsec = ns, t_off = off\<rparr> }"

subsection \<open>What is formatted parses\<close>

definition time_ok :: "go_time \<Rightarrow> bool" where
  "time_ok t \<longleftrightarrow>
     0 \<le> t_year t \<and> t_year t \<le> 9999 \<and> 1 \<le> t_month t \<and> t_month t \<le> 12
     \<and> 1 \<le> t_day t \<and> t_day t \<le> days_in (t_month t) (t_year t)
     \<and> t_hour t < 24 \<and> t_min t < 60 \<and> t_sec t < 60 \<and> t_nsec t < 1000000000 \<and> \<bar>t_off t\<bar> < 1440"

lemma length_pad [simp]: "length (pad w n) = w"
  by (induction w arbitrary: n) simp_all

lemma pad_digits: "list_all is_digit (pad w n)"
  by (induction w arbitrary: n) simp_all

lemma digits_val_pad: "n < 10 ^ w \<Longrightarrow> digits_val 0 (pad w n) = Some n"
proof (induction w arbitrary: n)
  case (Suc w)
  then have "n div 10 < 10 ^ w" by (simp add: less_mult_imp_div_less mult.commute)
  from Suc.IH [OF this] show ?case by (simp add: digits_val_append)
qed simp

lemma num_pad: "n < 10 ^ w \<Longrightarrow> num w (pad w n @ s) = Some (n, s)"
  by (simp add: num_def digits_val_pad)

lemma num2_pad: "n < 100 \<Longrightarrow> num 2 (pad 2 n @ s) = Some (n, s)"
  by (rule num_pad) simp

lemma lit_same [simp]: "lit c (c # s) = Some s"
  by (simp add: lit_def)

lemma guard_bind [simp]: "guard b \<bind> f = (if b then f () else None)"
  by (simp add: guard_def)

lemma strip_zeros_split: "\<exists>k. s = strip_zeros s @ replicate k (CHR ''0'')"
proof -
  let ?z = "takeWhile (\<lambda>c. c = CHR ''0'') (rev s)"
  have z: "?z = replicate (length ?z) (CHR ''0'')"
    by (metis (full_types) replicate_length_same set_takeWhileD)
  have "rev s = ?z @ dropWhile (\<lambda>c. c = CHR ''0'') (rev s)" by simp
  then have "s = strip_zeros s @ rev ?z"
    unfolding strip_zeros_def by (metis rev_append rev_rev_ident)
  then show ?thesis using z by (metis rev_replicate)
qed

lemma digits_val_zeros: "digits_val a (replicate k (CHR ''0'')) = Some (a * 10 ^ k)"
  by (induction k arbitrary: a) (simp_all add: is_digit_def)

lemma parse_frac_format:
  assumes "ns < 1000000000" "s = [] \<or> \<not> is_digit (hd s)" "s \<noteq> [] \<longrightarrow> hd s \<noteq> CHR ''.'' \<and> hd s \<noteq> CHR '',''"
  shows "parse_frac (format_frac ns @ s) = (ns, s)"
proof (cases "strip_zeros (pad 9 ns)")
  case Nil
  obtain k where k: "pad 9 ns = replicate k (CHR ''0'')"
    using strip_zeros_split [of "pad 9 ns"] Nil by auto
  have "digits_val 0 (pad 9 ns) = Some ns" using assms(1) by (intro digits_val_pad) simp
  then have "ns = 0" unfolding k digits_val_zeros by simp
  with Nil assms(3) show ?thesis
    by (cases s; cases "tl s") (auto simp: format_frac_def parse_frac_def)
next
  case (Cons d ds)
  let ?ds = "strip_zeros (pad 9 ns)"
  obtain k where k: "pad 9 ns = ?ds @ replicate k (CHR ''0'')"
    using strip_zeros_split by blast
  then have len: "9 = length ?ds + k" by (metis length_append length_pad length_replicate)
  have dig: "list_all is_digit ?ds" using pad_digits [of 9 ns] k by (metis list_all_append)
  have v: "digits_val 0 (?ds @ replicate k (CHR ''0'')) = Some ns"
    using assms(1) by (simp flip: k) (intro digits_val_pad, simp)
  obtain a where a: "digits_val 0 ?ds = Some a" "ns = a * 10 ^ k"
    using v by (auto simp: digits_val_append digits_val_zeros split: option.splits)
  have tw: "takeWhile is_digit (?ds @ s) = ?ds" "dropWhile is_digit (?ds @ s) = s"
    using dig assms(2) by (cases s; auto simp: list_all_iff takeWhile_append dropWhile_append)+
  have "is_digit d" using dig Cons by simp
  moreover have "9 - length ?ds = k" using len by simp
  ultimately show ?thesis
    using tw a len Cons by (simp add: format_frac_def parse_frac_def Let_def)
qed

lemma parse_zone_format:
  assumes "\<bar>off\<bar> < 1440"
  shows "parse_zone (format_zone off) = Some (off, [])"
proof (cases "off = 0")
  case False
  let ?a = "nat \<bar>off\<bar>"
  have b: "?a div 60 < 100" "?a mod 60 < 100" "?a div 60 \<le> 24" "?a mod 60 \<le> 60" using assms by auto
  have s: "(if off < 0 then - 1 else 1) * int (?a div 60 * 60 + ?a mod 60) = off" by simp
  show ?thesis
    using False b s num2_pad [of "?a mod 60" "[]"]
    by (auto simp: format_zone_def parse_zone_def num2_pad)
qed (simp add: format_zone_def parse_zone_def)

lemma format_zone_head:
  "format_zone off \<noteq> []" "\<not> is_digit (hd (format_zone off))"
  "hd (format_zone off) \<noteq> CHR ''.''" "hd (format_zone off) \<noteq> CHR '',''"
  by (simp_all add: format_zone_def is_digit_def)

lemma parse_date_format:
  assumes "0 \<le> y" "y \<le> 9999" "1 \<le> m" "m \<le> 12" "d < 100"
  shows "parse_date (append_year y @ CHR ''-'' # pad 2 m @ CHR ''-'' # pad 2 d @ s) = Some (y, m, d, s)"
proof -
  have "append_year y = pad 4 (nat y)" "nat y < 10 ^ 4" using assms by (auto simp: append_year_def Let_def)
  then show ?thesis using assms by (simp add: parse_date_def num2_pad num_pad)
qed

lemma parse_clock_format:
  assumes "h < 24" "mi < 60" "sec < 60"
  shows "parse_clock (pad 2 h @ CHR '':'' # pad 2 mi @ CHR '':'' # pad 2 sec @ s) = Some (h, mi, sec, s)"
  using assms by (simp add: parse_clock_def num_hour_def num2_pad)

lemma parse_format_time:
  assumes "time_ok t"
  shows "parse_time (format_time t) = Some t"
proof -
  note ok = assms [unfolded time_ok_def]
  have d: "t_day t < 100"
    using ok by (auto simp: days_in_def split: if_splits)
  have f: "parse_frac (format_frac (t_nsec t) @ format_zone (t_off t)) = (t_nsec t, format_zone (t_off t))"
    using ok format_zone_head [of "t_off t"] by (intro parse_frac_format) simp_all
  show ?thesis
    using ok d by (simp add: parse_time_def format_time_def parse_date_format parse_clock_format f
        parse_zone_format)
qed

end
