(* ===== verification/Engine.thy ===== *)
theory Engine
  imports Rfc3339 Server_State
begin

text \<open>
  The engine the server wraps (the module \<open>vectorless-engine\<close>, which is not part of this
  repository), as the handlers see it: the types that cross the interface, and the operations
  as a record of functions over the world. Nothing is assumed of them. A stream of retrieval
  events is the list of the events its channel delivers before it is closed.
\<close>

subsection \<open>Data\<close>

datatype error_kind = ErrNotFound | ErrUnknownKind | ErrOther

text \<open>An error: what \<open>errors.Is\<close> finds in its chain, and its text.\<close>

record go_error =
  ge_kind :: error_kind
  ge_msg :: string

type_synonym string_map = "(string \<times> string) list option"

record document =
  d_id :: string
  d_org :: string
  d_store :: string
  d_title :: string
  d_content_type :: string
  d_source_ref :: string
  d_status :: string
  d_byte_size :: int
  d_error :: string
  d_metadata :: string_map
  d_created :: go_time
  d_updated :: go_time

record list_opts =
  lo_org :: string
  lo_store :: string
  lo_limit :: int
  lo_status :: string
  lo_cursor :: go_time

record doc_section =
  s_id :: string
  s_document :: string
  s_parent :: string
  s_ordinal :: int
  s_depth :: int
  s_title :: string
  s_summary :: string
  s_token_count :: int
  s_metadata :: string_map
  s_content_ref :: string

record section_view =
  sv_id :: string
  sv_parent :: string
  sv_depth :: int
  sv_title :: string
  sv_summary :: string
  sv_children :: "string list"
  sv_tokens :: int

record tree_view =
  tv_document :: string
  tv_title :: string
  tv_sections :: "section_view list"

text \<open>A loaded tree, with its lookup and its compact view.\<close>

record tree =
  tr_find :: "string \<Rightarrow> doc_section option"
  tr_view :: tree_view

text \<open>A stored object: what its reader delivers, the size in its metadata, a failure at the end.\<close>

record blob =
  bl_data :: string
  bl_size :: int
  bl_error :: "go_error option"

record put_meta =
  pm_key :: string
  pm_size :: int
  pm_content_type :: string

record job =
  j_kind :: string
  j_payload :: string
  j_dedupe :: string

record budget =
  bu_model :: string
  bu_max_tokens :: int
  bu_reserved :: int
  bu_parallel :: int

record usage =
  us_input :: int
  us_output :: int
  us_total :: int
  us_cost :: rat
  us_calls :: int

datatype event_type = EventStarted | EventSectionSelected | EventCompleted | EventError | EventOther string

record stream_event =
  ev_type :: event_type
  ev_section :: string
  ev_slice :: int
  ev_total :: int
  ev_message :: string
  ev_error :: "go_error option"

record multi_event =
  me_document :: string
  me_index :: int
  me_event :: stream_event

record doc_result =
  dr_tree :: tree
  dr_selected :: "string list"
  dr_usage :: usage

text \<open>The two maps of a result, in the order in which the runtime iterates over them.\<close>

record multi_result =
  mr_documents :: "(string \<times> doc_result) list"
  mr_errors :: "(string \<times> go_error) list"
  mr_total :: usage

subsection \<open>Operations\<close>

record 'w database =
  db_list :: "ctx \<Rightarrow> list_opts \<Rightarrow> 'w \<Rightarrow> (go_error, document list \<times> go_time) result \<times> 'w"
  db_new :: "ctx \<Rightarrow> document \<Rightarrow> 'w \<Rightarrow> go_error option \<times> 'w"
  db_get :: "ctx \<Rightarrow> string \<Rightarrow> string \<Rightarrow> string \<Rightarrow> 'w \<Rightarrow> (go_error, document) result \<times> 'w"
  db_delete :: "ctx \<Rightarrow> string \<Rightarrow> string \<Rightarrow> string \<Rightarrow> 'w \<Rightarrow> go_error option \<times> 'w"
  db_count :: "ctx \<Rightarrow> string \<Rightarrow> string \<Rightarrow> string \<Rightarrow> 'w \<Rightarrow> (go_error, int) result \<times> 'w"
  db_tree :: "ctx \<Rightarrow> string \<Rightarrow> string \<Rightarrow> string \<Rightarrow> 'w \<Rightarrow> (go_error, tree) result \<times> 'w"
  db_section :: "ctx \<Rightarrow> string \<Rightarrow> string \<Rightarrow> string \<Rightarrow> 'w \<Rightarrow> (go_error, doc_section) result \<times> 'w"

record 'w storage =
  sto_put :: "ctx \<Rightarrow> string \<Rightarrow> string \<Rightarrow> put_meta \<Rightarrow> 'w \<Rightarrow> go_error option \<times> 'w"
  sto_get :: "ctx \<Rightarrow> string \<Rightarrow> 'w \<Rightarrow> (go_error, blob) result \<times> 'w"

text \<open>What only the QStash driver has: its verifier (none without a signing key) and its dispatch.\<close>

record 'w qstash =
  qs_verify :: "(string \<Rightarrow> string \<Rightarrow> string \<Rightarrow> 'w \<Rightarrow> go_error option \<times> 'w) option"
  qs_base_url :: string
  qs_dispatch :: "ctx \<Rightarrow> string \<Rightarrow> string \<Rightarrow> 'w \<Rightarrow> go_error option \<times> 'w"

record 'w queue =
  q_enqueue :: "ctx \<Rightarrow> job \<Rightarrow> 'w \<Rightarrow> go_error option \<times> 'w"
  q_qstash :: "'w qstash option"

text \<open>A strategy; the two optional parts are the interfaces it may also implement.\<close>

record 'w strategy =
  sg_name :: string
  sg_select :: "ctx \<Rightarrow> tree \<Rightarrow> string \<Rightarrow> budget \<Rightarrow> 'w \<Rightarrow> (go_error, string list) result \<times> 'w"
  sg_cost :: "(ctx \<Rightarrow> tree \<Rightarrow> string \<Rightarrow> budget \<Rightarrow> 'w \<Rightarrow>
                (go_error, string list \<times> usage) result \<times> 'w) option"
  sg_stream :: "(ctx \<Rightarrow> tree \<Rightarrow> string \<Rightarrow> budget \<Rightarrow> 'w \<Rightarrow> stream_event list \<times> 'w) option"

record 'w multi_doc =
  md_query :: "ctx \<Rightarrow> string \<Rightarrow> string \<Rightarrow> string list \<Rightarrow> string \<Rightarrow> budget \<Rightarrow> 'w \<Rightarrow>
    (go_error, multi_result) result \<times> 'w"
  md_stream :: "ctx \<Rightarrow> string \<Rightarrow> string \<Rightarrow> string list \<Rightarrow> string \<Rightarrow> budget \<Rightarrow> 'w \<Rightarrow>
    multi_event list \<times> 'w"

record form_file =
  ff_name :: string
  ff_content_type :: string
  ff_data :: string
  ff_size :: int

text \<open>
  The dependencies of the handlers. Beside the engine: the multipart reader (an error, or the
  file parts by field name), the texts of the JSON decoder's errors, the decimal text of a
  \<open>float64\<close>, the engine's constants (the status of a new document, the kind of an ingest job,
  the names of the event types), and the wire form of its ingest payload and tree view.
\<close>

record 'w deps =
  dp_db :: "'w database"
  dp_storage :: "'w storage"
  dp_queue :: "'w queue"
  dp_strategy :: "'w strategy option"
  dp_multi :: "'w multi_doc option"
  dp_version :: string
  dp_document_id :: "'w \<Rightarrow> string \<times> 'w"
  dp_source_key :: "string \<Rightarrow> string \<Rightarrow> string"
  dp_multipart :: "request \<Rightarrow> (string, string \<Rightarrow> form_file option) result"
  dp_json_error :: "string \<Rightarrow> body option \<Rightarrow> string"
  dp_float_text :: "rat \<Rightarrow> string"
  dp_pending :: string
  dp_ingest_kind :: string
  dp_event_name :: "event_type \<Rightarrow> string"
  dp_payload :: "string \<Rightarrow> string \<Rightarrow> string \<Rightarrow> string \<Rightarrow> string"
  dp_view_json :: "tree_view \<Rightarrow> json"

subsection \<open>Calls\<close>

text \<open>A call into the engine changes the world and nothing else of the server's state.\<close>

definition call :: "('w \<Rightarrow> 'a \<times> 'w) \<Rightarrow> 'w st \<Rightarrow> 'a \<times> 'w st" where
  "call f s = (case f (st_world s) of (a, w) \<Rightarrow> (a, s\<lparr>st_world := w\<rparr>))"

lemma call_eq: "f (st_world s) = (a, w) \<Longrightarrow> call f s = (a, s\<lparr>st_world := w\<rparr>)"
  by (simp add: call_def)

lemma read_clock_call: "read_clock e = call (time_now e)"
  by (rule ext) (simp add: read_clock_def call_def Let_def case_prod_beta)

text \<open>The best-effort read of a section's content: nothing on any failure.\<close>

definition fetchContent :: "'w storage \<Rightarrow> ctx \<Rightarrow> string \<Rightarrow> 'w st \<Rightarrow> string \<times> 'w st" where
  "fetchContent sto c ref s =
     (if ref = [] then ([], s)
      else (case call (sto_get sto c ref) s of
              (Inl err, s1) \<Rightarrow> ([], s1)
            | (Inr b, s1) \<Rightarrow> (bl_data b, s1)))"

definition map_json :: "string_map \<Rightarrow> json" where
  "map_json m = (case m of None \<Rightarrow> JNull | Some kvs \<Rightarrow> JMap (map (\<lambda>(k, v). (k, JStr v)) kvs))"

end
