(* ===== verification/Rest_Common.thy ===== *)
theory Rest_Common
  imports Engine
begin

text \<open>
  What the REST handlers share (\<open>internal/handler/helpers.go\<close>, the header accessors of
  \<open>documents.go\<close>) and the health endpoints (\<open>health.go\<close>). A response whose encoding fails after
  the status line has no body.
\<close>

definition writeJSON :: "int \<Rightarrow> json option \<Rightarrow> wop list" where
  "writeJSON status v =
     [SetHeader ''Content-Type'' ''application/json'', WriteHeader status] @
     (case v of None \<Rightarrow> [] | Some j \<Rightarrow> [WriteBytes (enc_json j @ nl)])"

definition writeErr :: "int \<Rightarrow> string \<Rightarrow> wop list" where
  "writeErr status msg = writeJSON status (Some (JMap [(''error'', JStr msg)]))"

definition docx_type :: string where
  "docx_type = ''application/vnd.openxmlformats-officedocument.wordprocessingml.document''"

definition octet_stream :: string where
  "octet_stream = ''application/octet-stream''"

definition guessContentType :: "string \<Rightarrow> string" where
  "guessContentType filename =
     (let name = to_lower filename in
      if has_suffix name ''.md'' \<or> has_suffix name ''.markdown'' then ''text/markdown''
      else if has_suffix name ''.txt'' then ''text/plain''
      else if has_suffix name ''.html'' \<or> has_suffix name ''.htm'' then ''text/html''
      else if has_suffix name ''.pdf'' then ''application/pdf''
      else if has_suffix name ''.docx'' then docx_type
      else octet_stream)"

text \<open>The organisation of a request, or what is written when it has none.\<close>

definition requireOrgID :: "request \<Rightarrow> wop list + string" where
  "requireOrgID r =
     (let org = hget (r_header r) ''X-Vectorless-Org'' in
      if org = [] then Inl (writeErr 400 ''missing X-Vectorless-Org header'') else Inr org)"

definition storeID :: "request \<Rightarrow> string" where
  "storeID r = hget (r_header r) ''X-Vectorless-Store''"

text \<open>The answer to a failed lookup: 404 for the engine's not-found error, 500 for any other.\<close>

definition lookup_err :: "string \<Rightarrow> go_error \<Rightarrow> wop list" where
  "lookup_err missing err =
     (if ge_kind err = ErrNotFound then writeErr 404 missing else writeErr 500 (ge_msg err))"

definition HandleHealth :: "'w handler" where
  "HandleHealth w r s = reply (writeJSON 200 (Some (JMap [(''status'', JStr ''ok'')]))) s"

definition HandleVersion :: "string \<Rightarrow> 'w handler" where
  "HandleVersion version w r s = reply (writeJSON 200 (Some (JMap [(''version'', JStr version)]))) s"

subsection \<open>What the helpers send\<close>

lemma respond_writeJSON:
  assumes "body_allowed c" "\<not> (100 \<le> c \<and> c \<le> 199)"
  shows "rs_status (respond (writeJSON c v)) = c"
    and "rs_body (respond (writeJSON c v)) = (case v of None \<Rightarrow> [] | Some j \<Rightarrow> enc_json j @ nl)"
    and "hget (rs_sent (respond (writeJSON c v))) ''Content-Type'' = ''application/json''"
  using assms
  by (auto simp: writeJSON_def respond_def trace_simps write_header_def ensure_header_def Let_def
      hget_hset split: option.splits)

lemma status_writeErr:
  "body_allowed c \<Longrightarrow> rs_status (respond (writeErr c msg)) = c"
  unfolding writeErr_def by (rule respond_writeJSON) (auto simp: body_allowed_def)

lemma requireOrgID_Inr: "requireOrgID r = Inr org \<longleftrightarrow> org \<noteq> [] \<and> hget (r_header r) ''X-Vectorless-Org'' = org"
  by (auto simp: requireOrgID_def Let_def)

lemma requireOrgID_Inl:
  "requireOrgID r = Inl ops \<longleftrightarrow>
     hget (r_header r) ''X-Vectorless-Org'' = [] \<and> ops = writeErr 400 ''missing X-Vectorless-Org header''"
  by (auto simp: requireOrgID_def Let_def)

end
