(* ===== verification/Rest_Documents.thy ===== *)
theory Rest_Documents
  imports Rest_Common
begin

text \<open>
  The documents and sections endpoints (\<open>internal/handler/documents.go\<close>): listing, ingest,
  metadata, deletion, the original source, the tree view and a section.
\<close>

definition sourceTypeFromContentType :: "string \<Rightarrow> string" where
  "sourceTypeFromContentType ct =
     (if has_prefix ct ''application/pdf'' then ''pdf''
      else if has_prefix ct ''text/markdown'' then ''markdown''
      else if has_prefix ct ''text/plain'' then ''text''
      else if has_prefix ct ''text/html'' then ''html''
      else if has_prefix ct docx_type then ''docx''
      else ''file'')"

subsection \<open>Listing\<close>

definition list_opts_of :: "request \<Rightarrow> string \<Rightarrow> list_opts" where
  "list_opts_of r org =
     \<lparr>lo_org = org, lo_store = storeID r,
      lo_limit = (let v = r_query r ''limit'' in
        if v \<noteq> [] then (case atoi v of Some n \<Rightarrow> n | None \<Rightarrow> 0) else 0),
      lo_status = r_query r ''status'',
      lo_cursor = (let v = r_query r ''cursor'' in
        if v \<noteq> [] then (case parse_time v of Some t \<Rightarrow> t | None \<Rightarrow> zero_time) else zero_time)\<rparr>"

definition doc_item :: "document \<Rightarrow> json option" where
  "doc_item doc =
     do { created \<leftarrow> time_json (d_created doc); updated \<leftarrow> time_json (d_updated doc);
          Some (JMap [(''doc_id'', JStr (d_id doc)), (''id'', JStr (d_id doc)), (''title'', JStr (d_title doc)),
            (''content_type'', JStr (d_content_type doc)),
            (''source_type'', JStr (sourceTypeFromContentType (d_content_type doc))),
            (''status'', JStr (d_status doc)), (''byte_size'', JInt (d_byte_size doc)),
            (''created_at'', created), (''updated_at'', updated)]) }"

definition list_response :: "document list \<Rightarrow> go_time \<Rightarrow> json option" where
  "list_response docs next_t =
     map_option (\<lambda>items. JMap [(''documents'', JArr items), (''items'', JArr items),
         (''has_more'', JBool (\<not> time_is_zero next_t)),
         (''next_cursor'', if time_is_zero next_t then JNull else JStr (format_time next_t))])
       (those (map doc_item docs))"

definition HandleListDocuments :: "'w deps \<Rightarrow> 'w handler" where
  "HandleListDocuments d w r s =
     (case requireOrgID r of
        Inl ops \<Rightarrow> reply ops s
      | Inr org \<Rightarrow>
          (case call (db_list (dp_db d) (r_ctx r) (list_opts_of r org)) s of
             (Inl err, s1) \<Rightarrow> reply (writeErr 500 (ge_msg err)) s1
           | (Inr (docs, next_t), s1) \<Rightarrow> reply (writeJSON 200 (list_response docs next_t)) s1))"

subsection \<open>Ingest\<close>

record upload =
  up_filename :: string
  up_content_type :: string
  up_data :: string
  up_size :: int

record ingest_request =
  ir_filename :: string
  ir_content_type :: string
  ir_content :: string

definition decode_ingest :: "json \<Rightarrow> ingest_request option" where
  "decode_ingest j =
     decode_struct [''filename'', ''content_type'', ''content'']
       (\<lambda>n v x.
          if n = ''filename'' then map_option (\<lambda>t. x\<lparr>ir_filename := t\<rparr>) (dec_string v (ir_filename x))
          else if n = ''content_type''
          then map_option (\<lambda>t. x\<lparr>ir_content_type := t\<rparr>) (dec_string v (ir_content_type x))
          else map_option (\<lambda>t. x\<lparr>ir_content := t\<rparr>) (dec_string v (ir_content x)))
       \<lparr>ir_filename = [], ir_content_type = [], ir_content = []\<rparr> j"

text \<open>The three ways a body is read, by its content type.\<close>

definition read_multipart :: "'w deps \<Rightarrow> request \<Rightarrow> wop list + upload" where
  "read_multipart d r =
     (case dp_multipart d r of
        Inl msg \<Rightarrow> Inl (writeErr 400 (''invalid multipart body: '' @ msg))
      | Inr form \<Rightarrow>
          (case form ''file'' of
             None \<Rightarrow> Inl (writeErr 400 (''missing form field '' @ [CHR 0x22] @ ''file'' @ [CHR 0x22]))
           | Some f \<Rightarrow> Inr \<lparr>up_filename = ff_name f, up_content_type = ff_content_type f,
                             up_data = ff_data f, up_size = ff_size f\<rparr>))"

definition read_json_upload :: "'w deps \<Rightarrow> request \<Rightarrow> wop list + upload" where
  "read_json_upload d r =
     (case decode_body (r_body r) \<bind> decode_ingest of
        None \<Rightarrow> Inl (writeErr 400 (''invalid json: '' @ dp_json_error d ''ingest'' (r_body r)))
      | Some p \<Rightarrow>
          if ir_content p = [] then Inl (writeErr 400 ([CHR 0x22] @ ''content'' @ [CHR 0x22] @ '' is required''))
          else Inr \<lparr>up_filename = ir_filename p, up_content_type = ir_content_type p,
                    up_data = ir_content p, up_size = int (length (ir_content p))\<rparr>)"

definition read_upload :: "'w deps \<Rightarrow> request \<Rightarrow> wop list + upload" where
  "read_upload d r =
     (let ct = hget (r_header r) ''Content-Type'' in
      if has_prefix ct ''multipart/form-data'' then read_multipart d r
      else if has_prefix ct ''application/json'' then read_json_upload d r
      else Inl (writeErr 415 ''use multipart/form-data (file) or application/json (content)''))"

definition new_document :: "'w deps \<Rightarrow> string \<Rightarrow> string \<Rightarrow> string \<Rightarrow> string \<Rightarrow> string \<Rightarrow> string \<Rightarrow> int \<Rightarrow> document" where
  "new_document d docID org store filename content_type key sz =
     \<lparr>d_id = docID, d_org = org, d_store = store,
      d_title = (if filename = [] then docID else filename), d_content_type = content_type,
      d_source_ref = key, d_status = dp_pending d, d_byte_size = sz, d_error = [], d_metadata = None,
      d_created = zero_time, d_updated = zero_time\<rparr>"

definition ingest_job :: "'w deps \<Rightarrow> string \<Rightarrow> string \<Rightarrow> string \<Rightarrow> string \<Rightarrow> job" where
  "ingest_job d docID content_type filename key =
     \<lparr>j_kind = dp_ingest_kind d, j_payload = dp_payload d docID content_type filename key, j_dedupe = docID\<rparr>"

text \<open>Store the bytes, record the document, enqueue the job: the first failure ends it.\<close>

definition ingest_steps ::
  "'w deps \<Rightarrow> ctx \<Rightarrow> string \<Rightarrow> string \<Rightarrow> string \<Rightarrow> upload \<Rightarrow> 'w st \<Rightarrow> string option \<times> 'w st" where
  "ingest_steps d c org store docID u s =
     (let ct = up_content_type u;
          key = dp_source_key d docID (up_filename u);
          meta = \<lparr>pm_key = key, pm_size = up_size u, pm_content_type = ct\<rparr>
      in case call (sto_put (dp_storage d) c key (up_data u) meta) s of
           (Some err, s1) \<Rightarrow> (Some ''storage write failed'', s1)
         | (None, s1) \<Rightarrow>
             (case call (db_new (dp_db d) c
                     (new_document d docID org store (up_filename u) ct key (up_size u))) s1 of
                (Some err, s2) \<Rightarrow> (Some ''db write failed'', s2)
              | (None, s2) \<Rightarrow>
                  (case call (q_enqueue (dp_queue d) c (ingest_job d docID ct (up_filename u) key)) s2 of
                     (Some err, s3) \<Rightarrow> (Some ''enqueue failed'', s3)
                   | (None, s3) \<Rightarrow> (None, s3))))"

definition HandleIngestDocument :: "'w deps \<Rightarrow> 'w handler" where
  "HandleIngestDocument d w r s =
     (case requireOrgID r of
        Inl ops \<Rightarrow> reply ops s
      | Inr org \<Rightarrow>
          (case call (dp_document_id d) s of
             (docID, s1) \<Rightarrow>
               (case read_upload d r of
                  Inl ops \<Rightarrow> reply ops s1
                | Inr u0 \<Rightarrow>
                    (let u = (if up_content_type u0 = []
                              then u0\<lparr>up_content_type := guessContentType (up_filename u0)\<rparr> else u0)
                     in case ingest_steps d (r_ctx r) org (storeID r) docID u s1 of
                          (Some msg, s2) \<Rightarrow> reply (writeErr 500 msg) s2
                        | (None, s2) \<Rightarrow>
                            reply (writeJSON 202 (Some (JMap [(''document_id'', JStr docID),
                                (''status'', JStr (dp_pending d))]))) s2))))"

subsection \<open>One document\<close>

definition document_json :: "document \<Rightarrow> int \<Rightarrow> json option" where
  "document_json doc section_count =
     do { created \<leftarrow> time_json (d_created doc); updated \<leftarrow> time_json (d_updated doc);
          Some (JMap [(''doc_id'', JStr (d_id doc)), (''id'', JStr (d_id doc)), (''title'', JStr (d_title doc)),
            (''content_type'', JStr (d_content_type doc)),
            (''source_type'', JStr (sourceTypeFromContentType (d_content_type doc))),
            (''status'', JStr (d_status doc)), (''byte_size'', JInt (d_byte_size doc)),
            (''section_count'', JInt section_count), (''error_message'', JStr (d_error doc)),
            (''metadata'', map_json (d_metadata doc)),
            (''created_at'', created), (''updated_at'', updated)]) }"

definition HandleGetDocument :: "'w deps \<Rightarrow> 'w handler" where
  "HandleGetDocument d w r s =
     (case requireOrgID r of
        Inl ops \<Rightarrow> reply ops s
      | Inr org \<Rightarrow>
          (let docID = r_params r ''id'' in
           case call (db_get (dp_db d) (r_ctx r) docID org (storeID r)) s of
             (Inl err, s1) \<Rightarrow> reply (lookup_err ''document not found'' err) s1
           | (Inr doc, s1) \<Rightarrow>
               (case call (db_count (dp_db d) (r_ctx r) docID org (storeID r)) s1 of
                  (res, s2) \<Rightarrow>
                    reply (writeJSON 200 (document_json doc (case res of Inr n \<Rightarrow> n | Inl _ \<Rightarrow> 0))) s2)))"

definition HandleDeleteDocument :: "'w deps \<Rightarrow> 'w handler" where
  "HandleDeleteDocument d w r s =
     (case requireOrgID r of
        Inl ops \<Rightarrow> reply ops s
      | Inr org \<Rightarrow>
          (case call (db_delete (dp_db d) (r_ctx r) (r_params r ''id'') org (storeID r)) s of
             (Some err, s1) \<Rightarrow> reply (lookup_err ''document not found'' err) s1
           | (None, s1) \<Rightarrow> reply [WriteHeader 204] s1))"

definition source_headers :: "document \<Rightarrow> blob \<Rightarrow> wop list" where
  "source_headers doc b =
     [SetHeader ''Content-Type'' (if d_content_type doc = [] then octet_stream else d_content_type doc)] @
     (if bl_size b > 0 then [SetHeader ''Content-Length'' (itoa (bl_size b))] else []) @
     (if d_title doc \<noteq> []
      then [SetHeader ''Content-Disposition''
              (''inline; filename='' @ [CHR 0x22] @ d_title doc @ [CHR 0x22])] else [])"

definition HandleGetDocumentSource :: "'w deps \<Rightarrow> 'w handler" where
  "HandleGetDocumentSource d w r s =
     (case requireOrgID r of
        Inl ops \<Rightarrow> reply ops s
      | Inr org \<Rightarrow>
          (case call (db_get (dp_db d) (r_ctx r) (r_params r ''id'') org (storeID r)) s of
             (Inl err, s1) \<Rightarrow> reply (lookup_err ''document not found'' err) s1
           | (Inr doc, s1) \<Rightarrow>
               if d_source_ref doc = [] then reply (writeErr 404 ''document source not available'') s1
               else
                 (case call (sto_get (dp_storage d) (r_ctx r) (d_source_ref doc)) s1 of
                    (Inl err, s2) \<Rightarrow> reply (writeErr 500 (''read source: '' @ ge_msg err)) s2
                  | (Inr b, s2) \<Rightarrow>
                      reply (source_headers doc b @ [WriteHeader 200] @
                             (if bl_data b = [] then [] else [WriteBytes (bl_data b)])) s2)))"

definition HandleGetTree :: "'w deps \<Rightarrow> 'w handler" where
  "HandleGetTree d w r s =
     (case requireOrgID r of
        Inl ops \<Rightarrow> reply ops s
      | Inr org \<Rightarrow>
          (case call (db_tree (dp_db d) (r_ctx r) (r_params r ''id'') org (storeID r)) s of
             (Inl err, s1) \<Rightarrow> reply (lookup_err ''document not found'' err) s1
           | (Inr t, s1) \<Rightarrow> reply (writeJSON 200 (Some (dp_view_json d (tr_view t)))) s1))"

definition section_response :: "doc_section \<Rightarrow> string \<Rightarrow> json" where
  "section_response sec content =
     JMap [(''id'', JStr (s_id sec)), (''document_id'', JStr (s_document sec)),
           (''parent_id'', JStr (s_parent sec)), (''ordinal'', JInt (s_ordinal sec)),
           (''depth'', JInt (s_depth sec)), (''title'', JStr (s_title sec)),
           (''summary'', JStr (s_summary sec)), (''token_count'', JInt (s_token_count sec)),
           (''metadata'', map_json (s_metadata sec)), (''content'', JStr content)]"

definition HandleGetSection :: "'w deps \<Rightarrow> 'w handler" where
  "HandleGetSection d w r s =
     (case requireOrgID r of
        Inl ops \<Rightarrow> reply ops s
      | Inr org \<Rightarrow>
          (case call (db_section (dp_db d) (r_ctx r) (r_params r ''id'') org (storeID r)) s of
             (Inl err, s1) \<Rightarrow> reply (lookup_err ''section not found'' err) s1
           | (Inr sec, s1) \<Rightarrow>
               (case fetchContent (dp_storage d) (r_ctx r) (s_content_ref sec) s1 of
                  (content, s2) \<Rightarrow> reply (writeJSON 200 (Some (section_response sec content))) s2)))"

end
