(* ===== verification/Rest_Query.thy ===== *)
theory Rest_Query
  imports Rest_Common
begin

text \<open>
  The query endpoints (\<open>internal/handler/query.go\<close>, \<open>query_multi.go\<close>): one document and many.
  The four endpoints have equal copies of the defaults of the budget, here one definition. The map
  of results is ranged over in the order in which the dispatcher's result lists it: Go's order is
  random.
\<close>

record query_request =
  qr_document :: string
  qr_query :: string
  qr_model :: string
  qr_max_tokens :: int
  qr_reserved :: int
  qr_parallel :: int
  qr_max_sections :: int

record multi_request =
  qm_documents :: slice
  qm_query :: string
  qm_model :: string
  qm_max_tokens :: int
  qm_reserved :: int
  qm_parallel :: int
  qm_max_sections :: int

definition decode_query :: "json \<Rightarrow> query_request option" where
  "decode_query j =
     decode_struct [''document_id'', ''query'', ''model'', ''max_tokens'', ''reserved_for_prompt'',
         ''max_parallel_calls'', ''max_sections'']
       (\<lambda>n v x.
          if n = ''document_id'' then map_option (\<lambda>t. x\<lparr>qr_document := t\<rparr>) (dec_string v (qr_document x))
          else if n = ''query'' then map_option (\<lambda>t. x\<lparr>qr_query := t\<rparr>) (dec_string v (qr_query x))
          else if n = ''model'' then map_option (\<lambda>t. x\<lparr>qr_model := t\<rparr>) (dec_string v (qr_model x))
          else if n = ''max_tokens'' then map_option (\<lambda>t. x\<lparr>qr_max_tokens := t\<rparr>) (dec_int v (qr_max_tokens x))
          else if n = ''reserved_for_prompt''
          then map_option (\<lambda>t. x\<lparr>qr_reserved := t\<rparr>) (dec_int v (qr_reserved x))
          else if n = ''max_parallel_calls''
          then map_option (\<lambda>t. x\<lparr>qr_parallel := t\<rparr>) (dec_int v (qr_parallel x))
          else map_option (\<lambda>t. x\<lparr>qr_max_sections := t\<rparr>) (dec_int v (qr_max_sections x)))
       \<lparr>qr_document = [], qr_query = [], qr_model = [], qr_max_tokens = 0, qr_reserved = 0,
        qr_parallel = 0, qr_max_sections = 0\<rparr> j"

definition decode_multi :: "json \<Rightarrow> multi_request option" where
  "decode_multi j =
     decode_struct [''document_ids'', ''query'', ''model'', ''max_tokens'', ''reserved_for_prompt'',
         ''max_parallel_calls'', ''max_sections'']
       (\<lambda>n v x.
          if n = ''document_ids'' then map_option (\<lambda>t. x\<lparr>qm_documents := t\<rparr>) (dec_strings v (qm_documents x))
          else if n = ''query'' then map_option (\<lambda>t. x\<lparr>qm_query := t\<rparr>) (dec_string v (qm_query x))
          else if n = ''model'' then map_option (\<lambda>t. x\<lparr>qm_model := t\<rparr>) (dec_string v (qm_model x))
          else if n = ''max_tokens'' then map_option (\<lambda>t. x\<lparr>qm_max_tokens := t\<rparr>) (dec_int v (qm_max_tokens x))
          else if n = ''reserved_for_prompt''
          then map_option (\<lambda>t. x\<lparr>qm_reserved := t\<rparr>) (dec_int v (qm_reserved x))
          else if n = ''max_parallel_calls''
          then map_option (\<lambda>t. x\<lparr>qm_parallel := t\<rparr>) (dec_int v (qm_parallel x))
          else map_option (\<lambda>t. x\<lparr>qm_max_sections := t\<rparr>) (dec_int v (qm_max_sections x)))
       \<lparr>qm_documents = ([], []), qm_query = [], qm_model = [], qm_max_tokens = 0, qm_reserved = 0,
        qm_parallel = 0, qm_max_sections = 0\<rparr> j"

text \<open>The budget: a zero is replaced by the default, a negative value is not.\<close>

definition default_to :: "int \<Rightarrow> int \<Rightarrow> int" where
  "default_to dflt n = (if n = 0 then dflt else n)"

definition make_budget :: "string \<Rightarrow> int \<Rightarrow> int \<Rightarrow> int \<Rightarrow> budget" where
  "make_budget model max_tokens reserved parallel =
     \<lparr>bu_model = model, bu_max_tokens = default_to 100000 max_tokens,
      bu_reserved = default_to 4000 reserved, bu_parallel = default_to 8 parallel\<rparr>"

text \<open>At most \<open>n\<close> ids, when \<open>n\<close> is positive.\<close>

definition truncate_ids :: "int \<Rightarrow> string list \<Rightarrow> string list" where
  "truncate_ids n ids = (if n > 0 \<and> int (length ids) > n then take (nat n) ids else ids)"

text \<open>The loop over the selected ids: unknown ids are skipped, content is read from storage.\<close>

fun collect_sections ::
  "'w storage \<Rightarrow> ctx \<Rightarrow> tree \<Rightarrow> string list \<Rightarrow> 'w st \<Rightarrow> (doc_section \<times> string) list \<times> 'w st" where
  "collect_sections sto c t [] s = ([], s)"
| "collect_sections sto c t (i # ids) s =
     (case tr_find t i of
        None \<Rightarrow> collect_sections sto c t ids s
      | Some sec \<Rightarrow>
          (case fetchContent sto c (s_content_ref sec) s of
             (content, s1) \<Rightarrow>
               (case collect_sections sto c t ids s1 of
                  (secs, s2) \<Rightarrow> ((sec, content) # secs, s2))))"

text \<open>The same loop stopped when the sections collected reach a positive cap.\<close>

fun collect_capped ::
  "'w storage \<Rightarrow> ctx \<Rightarrow> tree \<Rightarrow> int \<Rightarrow> int \<Rightarrow> string list \<Rightarrow> 'w st \<Rightarrow> (doc_section \<times> string) list \<times> 'w st" where
  "collect_capped sto c t cap n [] s = ([], s)"
| "collect_capped sto c t cap n (i # ids) s =
     (case tr_find t i of
        None \<Rightarrow> collect_capped sto c t cap n ids s
      | Some sec \<Rightarrow>
          (case fetchContent sto c (s_content_ref sec) s of
             (content, s1) \<Rightarrow>
               if cap > 0 \<and> n + 1 \<ge> cap then ([(sec, content)], s1)
               else (case collect_capped sto c t cap (n + 1) ids s1 of
                       (secs, s2) \<Rightarrow> ((sec, content) # secs, s2))))"

definition query_section_json :: "doc_section \<times> string \<Rightarrow> json" where
  "query_section_json p =
     (case p of (sec, content) \<Rightarrow>
        JMap [(''id'', JStr (s_id sec)), (''parent_id'', JStr (s_parent sec)), (''title'', JStr (s_title sec)),
              (''summary'', JStr (s_summary sec)), (''token_count'', JInt (s_token_count sec)),
              (''content'', JStr content)])"

definition usage_json :: "'w deps \<Rightarrow> usage \<Rightarrow> json" where
  "usage_json d u =
     JMap [(''input_tokens'', JInt (us_input u)), (''output_tokens'', JInt (us_output u)),
           (''total_tokens'', JInt (us_total u)), (''cost_usd'', JNum (dp_float_text d (us_cost u))),
           (''llm_calls'', JInt (us_calls u))]"

definition elapsed_ms :: "int \<Rightarrow> int \<Rightarrow> int" where
  "elapsed_ms started now = go_div (time_sub now started) 1000000"

subsection \<open>One document\<close>

text \<open>The strategy: with its cost when it can report one.\<close>

definition run_strategy ::
  "'w strategy \<Rightarrow> ctx \<Rightarrow> tree \<Rightarrow> string \<Rightarrow> budget \<Rightarrow> 'w st \<Rightarrow>
     (go_error, string list \<times> usage option) result \<times> 'w st" where
  "run_strategy sg c t q b s =
     (case sg_cost sg of
        Some f \<Rightarrow>
          (case call (f c t q b) s of
             (Inl err, s1) \<Rightarrow> (Inl err, s1)
           | (Inr (ids, u), s1) \<Rightarrow> (Inr (ids, Some u), s1))
      | None \<Rightarrow>
          (case call (sg_select sg c t q b) s of
             (Inl err, s1) \<Rightarrow> (Inl err, s1)
           | (Inr ids, s1) \<Rightarrow> (Inr (ids, None), s1)))"

definition query_response ::
  "'w deps \<Rightarrow> query_request \<Rightarrow> string \<Rightarrow> (doc_section \<times> string) list \<Rightarrow> int \<Rightarrow> usage option \<Rightarrow> json" where
  "query_response d q name secs ms u =
     JMap ([(''document_id'', JStr (qr_document q)), (''query'', JStr (qr_query q)), (''strategy'', JStr name),
            (''model'', JStr (qr_model q)), (''sections'', JArr (map query_section_json secs)),
            (''elapsed_ms'', JInt ms)] @
           (case u of None \<Rightarrow> [] | Some u \<Rightarrow> [(''usage'', usage_json d u)]))"

definition query_body :: "'w deps \<Rightarrow> request \<Rightarrow> wop list + query_request" where
  "query_body d r =
     (case decode_body (r_body r) \<bind> decode_query of
        None \<Rightarrow> Inl (writeErr 400 (''invalid json: '' @ dp_json_error d ''query'' (r_body r)))
      | Some q \<Rightarrow>
          if qr_document q = [] \<or> qr_query q = []
          then Inl (writeErr 400 ''document_id and query are required'') else Inr q)"

definition HandleQuery :: "'w env \<Rightarrow> 'w deps \<Rightarrow> 'w handler" where
  "HandleQuery e d w r s =
     (case requireOrgID r of
        Inl ops \<Rightarrow> reply ops s
      | Inr org \<Rightarrow>
     (case query_body d r of
        Inl ops \<Rightarrow> reply ops s
      | Inr q \<Rightarrow>
     (case dp_strategy d of
        None \<Rightarrow> reply (writeErr 503 ''no retrieval strategy configured'') s
      | Some sg \<Rightarrow>
     (case call (db_tree (dp_db d) (r_ctx r) (qr_document q) org (storeID r)) s of
        (Inl err, s1) \<Rightarrow> reply (lookup_err ''document not found'' err) s1
      | (Inr t, s1) \<Rightarrow>
     (let b = make_budget (qr_model q) (qr_max_tokens q) (qr_reserved q) (qr_parallel q);
          (started, s2) = read_clock e s1
      in case run_strategy sg (r_ctx r) t (qr_query q) b s2 of
           (Inl err, s3) \<Rightarrow> reply (writeErr 500 (''retrieval failed: '' @ ge_msg err)) s3
         | (Inr (ids, u), s3) \<Rightarrow>
             (case collect_sections (dp_storage d) (r_ctx r) t (truncate_ids (qr_max_sections q) ids) s3 of
                (secs, s4) \<Rightarrow>
                  (case read_clock e s4 of
                     (now, s5) \<Rightarrow>
                       reply (writeJSON 200 (Some (query_response d q (sg_name sg) secs
                         (elapsed_ms started now) u))) s5)))))))"

subsection \<open>Many documents\<close>

definition doc_result_json :: "'w deps \<Rightarrow> string \<Rightarrow> (doc_section \<times> string) list \<Rightarrow> usage \<Rightarrow> json" where
  "doc_result_json d docID secs u =
     JMap [(''document_id'', JStr docID), (''sections'', JArr (map query_section_json secs)),
           (''usage'', usage_json d u)]"

fun collect_documents ::
  "'w deps \<Rightarrow> ctx \<Rightarrow> int \<Rightarrow> (string \<times> doc_result) list \<Rightarrow> 'w st \<Rightarrow>
     (string \<times> (doc_section \<times> string) list \<times> usage) list \<times> 'w st" where
  "collect_documents d c cap [] s = ([], s)"
| "collect_documents d c cap ((docID, dr) # drs) s =
     (case collect_capped (dp_storage d) c (dr_tree dr) cap 0 (dr_selected dr) s of
        (secs, s1) \<Rightarrow>
          (case collect_documents d c cap drs s1 of
             (docs, s2) \<Rightarrow> ((docID, secs, dr_usage dr) # docs, s2)))"

definition multi_response ::
  "'w deps \<Rightarrow> multi_request \<Rightarrow> string \<Rightarrow> multi_result \<Rightarrow>
     (string \<times> (doc_section \<times> string) list \<times> usage) list \<Rightarrow> int \<Rightarrow> json" where
  "multi_response d q name res docs ms =
     JMap [(''query'', JStr (qm_query q)), (''strategy'', JStr name), (''model'', JStr (qm_model q)),
           (''documents'', JArr (map (\<lambda>(i, secs, u). doc_result_json d i secs u) docs)),
           (''errors'', JMap (map (\<lambda>(i, err). (i, JStr (ge_msg err))) (mr_errors res))),
           (''elapsed_ms'', JInt ms), (''total_usage'', usage_json d (mr_total res))]"

definition multi_body :: "'w deps \<Rightarrow> request \<Rightarrow> wop list + multi_request" where
  "multi_body d r =
     (case decode_body (r_body r) \<bind> decode_multi of
        None \<Rightarrow> Inl (writeErr 400 (''invalid json: '' @ dp_json_error d ''query_multi'' (r_body r)))
      | Some q \<Rightarrow>
          if fst (qm_documents q) = [] \<or> qm_query q = []
          then Inl (writeErr 400 ''document_ids (non-empty) and query are required'') else Inr q)"

text \<open>The name of a strategy that is not there is a nil dereference.\<close>

definition HandleQueryMulti :: "'w env \<Rightarrow> 'w deps \<Rightarrow> 'w handler" where
  "HandleQueryMulti e d w r s =
     (case requireOrgID r of
        Inl ops \<Rightarrow> reply ops s
      | Inr org \<Rightarrow>
     (case multi_body d r of
        Inl ops \<Rightarrow> reply ops s
      | Inr q \<Rightarrow>
     (case dp_multi d of
        None \<Rightarrow> reply (writeErr 501 ''multi-document queries not configured'') s
      | Some md \<Rightarrow>
     (let b = make_budget (qm_model q) (qm_max_tokens q) (qm_reserved q) (qm_parallel q);
          (started, s1) = read_clock e s
      in case call (md_query md (r_ctx r) org (storeID r) (fst (qm_documents q)) (qm_query q) b) s1 of
           (Inl err, s2) \<Rightarrow> reply (writeErr 500 (''multi-doc retrieval failed: '' @ ge_msg err)) s2
         | (Inr res, s2) \<Rightarrow>
             (case collect_documents d (r_ctx r) (qm_max_sections q) (mr_documents res) s2 of
                (docs, s3) \<Rightarrow>
                  (case dp_strategy d of
                     None \<Rightarrow> (s3, [], Panicked)
                   | Some sg \<Rightarrow>
                       (case read_clock e s3 of
                          (now, s4) \<Rightarrow>
                            reply (writeJSON 200 (Some (multi_response d q (sg_name sg) res docs
                              (elapsed_ms started now)))) s4)))))))"

end
