(* ===== verification/Rest_Stream.thy ===== *)
theory Rest_Stream
  imports Rest_Query
begin

text \<open>
  The two Server-Sent-Events endpoints (\<open>internal/handler/query_stream.go\<close>,
  \<open>query_stream_multi.go\<close>): the events, their framing, and the loop over the retrieval channel.
  Whether a frame is flushed depends on the writer the handler was given.
\<close>

record sse_event =
  se_type :: string
  se_section :: "json option"
  se_slice :: int
  se_total :: int
  se_message :: string
  se_strategy :: string
  se_document :: string
  se_query :: string
  se_elapsed :: int

definition sse_json :: "sse_event \<Rightarrow> json" where
  "sse_json v =
     JObj ([(''type'', JStr (se_type v))] @ omit_any ''section'' (se_section v) @
       omit_int ''slice_index'' (se_slice v) @ omit_int ''total_slices'' (se_total v) @
       omit_str ''message'' (se_message v) @ omit_str ''strategy'' (se_strategy v) @
       omit_str ''document_id'' (se_document v) @ omit_str ''query'' (se_query v) @
       omit_int ''elapsed_ms'' (se_elapsed v))"

record multi_sse_event =
  mse_type :: string
  mse_document :: string
  mse_index :: int
  mse_section :: "json option"
  mse_slice :: int
  mse_total :: int
  mse_message :: string
  mse_strategy :: string
  mse_query :: string
  mse_elapsed :: int

definition multi_sse_json :: "multi_sse_event \<Rightarrow> json" where
  "multi_sse_json v =
     JObj ([(''type'', JStr (mse_type v)), (''document_id'', JStr (mse_document v)),
            (''doc_index'', JInt (mse_index v))] @ omit_any ''section'' (mse_section v) @
       omit_int ''slice_index'' (mse_slice v) @ omit_int ''total_slices'' (mse_total v) @
       omit_str ''message'' (mse_message v) @ omit_str ''strategy'' (mse_strategy v) @
       omit_str ''query'' (mse_query v) @ omit_int ''elapsed_ms'' (mse_elapsed v))"

text \<open>One frame: \<open>fmt.Fprintf\<close> is a single write.\<close>

definition sse_frame :: "string \<Rightarrow> json \<Rightarrow> string" where
  "sse_frame name j = ''event: '' @ name @ nl @ ''data: '' @ enc_json j @ nl @ nl"

definition emit :: "writer \<Rightarrow> string \<Rightarrow> json \<Rightarrow> wop list" where
  "emit w name j = WriteBytes (sse_frame name j) # (if w_flusher w then [Flush] else [])"

definition sse_headers :: "wop list" where
  "sse_headers =
     [SetHeader ''Content-Type'' ''text/event-stream'', SetHeader ''Cache-Control'' ''no-cache'',
      SetHeader ''Connection'' ''keep-alive'', SetHeader ''X-Accel-Buffering'' ''no'', WriteHeader 200]"

definition error_message :: "stream_event \<Rightarrow> string" where
  "error_message ev = (case ev_error ev of Some err \<Rightarrow> ge_msg err | None \<Rightarrow> ev_message ev)"

subsection \<open>One document\<close>

definition base_event :: "'w deps \<Rightarrow> stream_event \<Rightarrow> sse_event" where
  "base_event d ev =
     \<lparr>se_type = dp_event_name d (ev_type ev), se_section = None, se_slice = ev_slice ev,
      se_total = ev_total ev, se_message = ev_message ev, se_strategy = [], se_document = [],
      se_query = [], se_elapsed = 0\<rparr>"

definition build_event ::
  "'w env \<Rightarrow> 'w deps \<Rightarrow> ctx \<Rightarrow> tree \<Rightarrow> query_request \<Rightarrow> string \<Rightarrow> int \<Rightarrow> stream_event \<Rightarrow> 'w st \<Rightarrow>
     sse_event \<times> 'w st" where
  "build_event e d c t q name started ev s =
     (let sse = base_event d ev in
      case ev_type ev of
        EventStarted \<Rightarrow>
          (sse\<lparr>se_strategy := name, se_document := qr_document q, se_query := qr_query q\<rparr>, s)
      | EventSectionSelected \<Rightarrow>
          (case tr_find t (ev_section ev) of
             None \<Rightarrow> (sse, s)
           | Some sec \<Rightarrow>
               (case fetchContent (dp_storage d) c (s_content_ref sec) s of
                  (content, s1) \<Rightarrow> (sse\<lparr>se_section := Some (query_section_json (sec, content))\<rparr>, s1)))
      | EventCompleted \<Rightarrow>
          (case read_clock e s of (now, s1) \<Rightarrow> (sse\<lparr>se_elapsed := elapsed_ms started now\<rparr>, s1))
      | EventError \<Rightarrow> (sse\<lparr>se_message := error_message ev\<rparr>, s)
      | EventOther x \<Rightarrow> (sse, s))"

fun stream_loop ::
  "'w env \<Rightarrow> 'w deps \<Rightarrow> writer \<Rightarrow> ctx \<Rightarrow> tree \<Rightarrow> query_request \<Rightarrow> string \<Rightarrow> int \<Rightarrow> stream_event list \<Rightarrow>
     'w st \<Rightarrow> wop list \<times> 'w st" where
  "stream_loop e d w c t q name started [] s = ([], s)"
| "stream_loop e d w c t q name started (ev # evs) s =
     (case build_event e d c t q name started ev s of
        (sse, s1) \<Rightarrow>
          (case stream_loop e d w c t q name started evs s1 of
             (ops, s2) \<Rightarrow> (emit w (dp_event_name d (ev_type ev)) (sse_json sse) @ ops, s2)))"

definition HandleQueryStream :: "'w env \<Rightarrow> 'w deps \<Rightarrow> 'w handler" where
  "HandleQueryStream e d w r s =
     (case requireOrgID r of
        Inl ops \<Rightarrow> reply ops s
      | Inr org \<Rightarrow>
     (case query_body d r of
        Inl ops \<Rightarrow> reply ops s
      | Inr q \<Rightarrow>
     (case (case dp_strategy d of None \<Rightarrow> None
            | Some sg \<Rightarrow> map_option (\<lambda>f. (sg_name sg, f)) (sg_stream sg)) of
        None \<Rightarrow> reply (writeErr 501 ''strategy does not support streaming'') s
      | Some (name, select_stream) \<Rightarrow>
     (case call (db_tree (dp_db d) (r_ctx r) (qr_document q) org (storeID r)) s of
        (Inl err, s1) \<Rightarrow> reply (lookup_err ''document not found'' err) s1
      | (Inr t, s1) \<Rightarrow>
     (let b = make_budget (qr_model q) (qr_max_tokens q) (qr_reserved q) (qr_parallel q);
          (started, s2) = read_clock e s1;
          (evs, s3) = call (select_stream (r_ctx r) t (qr_query q) b) s2
      in case stream_loop e d w (r_ctx r) t q name started evs s3 of
           (ops, s4) \<Rightarrow> reply (sse_headers @ ops) s4)))))"

subsection \<open>Many documents\<close>

text \<open>Only the two identifiers: the section is not read.\<close>

definition buildSectionPayload :: "string \<Rightarrow> string \<Rightarrow> json" where
  "buildSectionPayload docID secID = JMap [(''id'', JStr secID), (''document_id'', JStr docID)]"

definition build_multi_event ::
  "'w env \<Rightarrow> 'w deps \<Rightarrow> multi_request \<Rightarrow> int \<Rightarrow> multi_event \<Rightarrow> 'w st \<Rightarrow> multi_sse_event \<times> 'w st" where
  "build_multi_event e d q started mev s =
     (let ev = me_event mev;
          sse = \<lparr>mse_type = dp_event_name d (ev_type ev), mse_document = me_document mev,
             mse_index = me_index mev, mse_section = None, mse_slice = ev_slice ev, mse_total = ev_total ev,
             mse_message = ev_message ev, mse_strategy = [], mse_query = [], mse_elapsed = 0\<rparr>
      in case ev_type ev of
           EventStarted \<Rightarrow> (sse\<lparr>mse_query := qm_query q\<rparr>, s)
         | EventSectionSelected \<Rightarrow>
             (sse\<lparr>mse_section := Some (buildSectionPayload (me_document mev) (ev_section ev))\<rparr>, s)
         | EventCompleted \<Rightarrow>
             (case read_clock e s of (now, s1) \<Rightarrow> (sse\<lparr>mse_elapsed := elapsed_ms started now\<rparr>, s1))
         | EventError \<Rightarrow> (sse\<lparr>mse_message := error_message ev\<rparr>, s)
         | EventOther x \<Rightarrow> (sse, s))"

fun multi_stream_loop ::
  "'w env \<Rightarrow> 'w deps \<Rightarrow> writer \<Rightarrow> multi_request \<Rightarrow> int \<Rightarrow> multi_event list \<Rightarrow> 'w st \<Rightarrow> wop list \<times> 'w st" where
  "multi_stream_loop e d w q started [] s = ([], s)"
| "multi_stream_loop e d w q started (mev # mevs) s =
     (case build_multi_event e d q started mev s of
        (sse, s1) \<Rightarrow>
          (case multi_stream_loop e d w q started mevs s1 of
             (ops, s2) \<Rightarrow>
               (emit w (dp_event_name d (ev_type (me_event mev))) (multi_sse_json sse) @ ops, s2)))"

definition HandleQueryStreamMulti :: "'w env \<Rightarrow> 'w deps \<Rightarrow> 'w handler" where
  "HandleQueryStreamMulti e d w r s =
     (case requireOrgID r of
        Inl ops \<Rightarrow> reply ops s
      | Inr org \<Rightarrow>
     (case multi_body d r of
        Inl ops \<Rightarrow> reply ops s
      | Inr q \<Rightarrow>
     (case dp_multi d of
        None \<Rightarrow> reply (writeErr 501 ''multi-document queries not configured'') s
      | Some md \<Rightarrow>
     (let b = make_budget (qm_model q) (qm_max_tokens q) (qm_reserved q) (qm_parallel q);
          (started, s1) = read_clock e s;
          (mevs, s2) = call (md_stream md (r_ctx r) org (storeID r) (fst (qm_documents q)) (qm_query q) b) s1
      in case multi_stream_loop e d w q started mevs s2 of
           (ops, s3) \<Rightarrow> reply (sse_headers @ ops) s3))))"

end
