(* ===== verification/Rest_Webhook.thy ===== *)
theory Rest_Webhook
  imports Rest_Common
begin

text \<open>
  The queue webhook (\<open>internal/handler/webhook.go\<close>): the signature is checked over the body and
  the URL before anything is dispatched. The body may be the bare payload or wrap it with its
  kind.
\<close>

record webhook_body =
  wb_kind :: string
  wb_payload :: string

text \<open>
  \<open>json.Unmarshal\<close> into the two fields; the payload is the text of its value. Both strings
  are empty when the body is no such object.
\<close>

fun decode_webhook :: "(string \<times> json) list \<Rightarrow> (string \<times> string) list \<Rightarrow> webhook_body \<Rightarrow> webhook_body option" where
  "decode_webhook ((k, v) # ms) ((k', raw) # raws) x =
     (case match_field [''kind'', ''payload''] k of
        None \<Rightarrow> decode_webhook ms raws x
      | Some n \<Rightarrow>
          if n = ''kind'' then
            (case dec_string v (wb_kind x) of
               None \<Rightarrow> None
             | Some t \<Rightarrow> decode_webhook ms raws (x\<lparr>wb_kind := t\<rparr>))
          else decode_webhook ms raws (x\<lparr>wb_payload := raw\<rparr>))"
| "decode_webhook ms raws x = Some x"

definition parse_webhook :: "string \<Rightarrow> webhook_body option" where
  "parse_webhook data =
     (let zero = \<lparr>wb_kind = [], wb_payload = []\<rparr> in
      case unmarshal data of
        None \<Rightarrow> None
      | Some JNull \<Rightarrow> Some zero
      | Some (JObj ms) \<Rightarrow> decode_webhook ms (raw_object data) zero
      | Some _ \<Rightarrow> None)"

text \<open>The payload to dispatch, or nothing when the body names another kind than the URL.\<close>

definition webhook_payload :: "string \<Rightarrow> string \<Rightarrow> string option" where
  "webhook_payload kind data =
     (case parse_webhook data of
        None \<Rightarrow> Some data
      | Some m \<Rightarrow>
          if wb_kind m \<noteq> [] \<and> wb_payload m \<noteq> []
          then (if wb_kind m \<noteq> kind then None else Some (wb_payload m)) else Some data)"

definition webhook_url :: "'w qstash \<Rightarrow> request \<Rightarrow> string" where
  "webhook_url qq r = trim_right_byte (qs_base_url qq) (CHR ''/'') @ r_path r"

definition read_request_body :: "request \<Rightarrow> (string, string) result" where
  "read_request_body r = (case r_body r of None \<Rightarrow> Inr [] | Some b \<Rightarrow> read_body b)"

definition HandleQueueWebhook :: "'w deps \<Rightarrow> 'w handler" where
  "HandleQueueWebhook d w r s =
     (case q_qstash (dp_queue d) of
        None \<Rightarrow> reply (writeErr 404 ''webhook not enabled: queue driver is not qstash'') s
      | Some qq \<Rightarrow>
     (let kind = r_params r ''kind'' in
      if kind = [] then reply (writeErr 400 ''missing kind'') s
      else
     (case read_request_body r of
        Inl msg \<Rightarrow> reply (writeErr 400 (''read body: '' @ msg)) s
      | Inr data \<Rightarrow>
     (case qs_verify qq of
        None \<Rightarrow> reply (writeErr 401 ''qstash signing key not configured'') s
      | Some verify \<Rightarrow>
     (case call (verify (hget (r_header r) ''Upstash-Signature'') data (webhook_url qq r)) s of
        (Some err, s1) \<Rightarrow> reply (writeErr 401 ''invalid qstash signature'') s1
      | (None, s1) \<Rightarrow>
     (case webhook_payload kind data of
        None \<Rightarrow> reply (writeErr 400 ''kind in body does not match URL'') s1
      | Some payload \<Rightarrow>
     (case call (qs_dispatch qq (r_ctx r) kind payload) s1 of
        (Some err, s2) \<Rightarrow>
          reply (writeErr (if ge_kind err = ErrUnknownKind then 404 else 500) (ge_msg err)) s2
      | (None, s2) \<Rightarrow> reply [WriteHeader 204] s2)))))))"

end
