(* ===== verification/Stack_Facts.thy ===== *)
theory Stack_Facts
  imports Mw_Idempotency
begin

text \<open>
  What holds of the middleware one by one and is used about the whole stack: an answer given
  further in reaches the client with its status and body (\<open>status_middleware\<close>), nothing behind
  the access log writes to it, nothing adds a flush, and a writer that is not a flusher stays
  one.
\<close>

subsection \<open>Answers pass through\<close>

text \<open>Header operations before the commit do not change the status or the body.\<close>

definition same_but_headers :: "resp \<Rightarrow> resp \<Rightarrow> bool" where
  "same_but_headers a b \<longleftrightarrow>
     rs_wrote a = rs_wrote b \<and> rs_status a = rs_status b \<and> rs_body a = rs_body b"

lemma same_but_headers_step: "same_but_headers a b \<Longrightarrow> same_but_headers (wop_step a x) (wop_step b x)"
  by (cases x) (auto simp: same_but_headers_def write_header_def ensure_header_def Let_def)

lemma same_but_headers_play: "same_but_headers a b \<Longrightarrow> same_but_headers (play ops a) (play ops b)"
  by (induction ops arbitrary: a b) (simp_all add: trace_simps same_but_headers_step)

lemma same_but_headers_ensure:
  "same_but_headers a b \<Longrightarrow> same_but_headers (ensure_header a) (ensure_header b)"
  by (auto simp: same_but_headers_def write_header_def ensure_header_def)

lemma respond_prepend_headers:
  assumes "list_all is_header_op hs"
  shows "rs_status (respond (hs @ ops)) = rs_status (respond ops)"
    and "rs_body (respond (hs @ ops)) = rs_body (respond ops)"
proof -
  have "same_but_headers (play hs init_resp) init_resp"
    using play_header_ops [OF assms, of init_resp] by (simp add: same_but_headers_def)
  then have "same_but_headers (respond (hs @ ops)) (respond ops)"
    by (simp add: respond_def trace_simps same_but_headers_play same_but_headers_ensure)
  then show "rs_status (respond (hs @ ops)) = rs_status (respond ops)"
    and "rs_body (respond (hs @ ops)) = rs_body (respond ops)"
    by (simp_all add: same_but_headers_def)
qed

lemma play_header_ops_body:
  "list_all is_header_op hs \<Longrightarrow> rs_body (play hs r) = rs_body r"
proof (induction hs arbitrary: r)
  case (Cons x hs)
  then show ?case by (cases x) (simp_all add: trace_simps)
qed (simp add: trace_simps)

lemma respond_append_headers:
  assumes "commits ops" "list_all is_header_op hs"
  shows "rs_body (respond (ops @ hs)) = rs_body (respond ops)"
proof -
  have "rs_wrote (play ops init_resp)" using assms(1) by (simp add: play_wrote)
  then show ?thesis
    using assms(2) by (simp add: respond_def trace_simps ensure_header_def play_wrote play_header_ops_body)
qed

definition answers :: "int \<Rightarrow> string \<Rightarrow> 'w outcome3 \<Rightarrow> bool" where
  "answers code data res \<longleftrightarrow>
     res_outcome res = Done \<and> commits (res_ops res)
     \<and> rs_status (response res) = code \<and> rs_body (response res) = data"

definition keeps_answer :: "(request \<Rightarrow> bool) \<Rightarrow> 'w middleware \<Rightarrow> bool" where
  "keeps_answer P m \<longleftrightarrow>
     (\<forall>h code data. (\<forall>w r s. P r \<longrightarrow> answers code data (h w r s)) \<longrightarrow>
        (\<forall>w r s. P r \<longrightarrow> answers code data (m h w r s)))"

lemma keeps_answerI:
  assumes "\<And>h code data w r s. \<forall>w r s. P r \<longrightarrow> answers code data (h w r s) \<Longrightarrow> P r \<Longrightarrow>
    answers code data (m h w r s)"
  shows "keeps_answer P m"
  unfolding keeps_answer_def using assms by blast

lemma answers_prepend:
  "list_all is_header_op hs \<Longrightarrow> answers code data (prepend hs res) = answers code data res"
proof -
  assume hs: "list_all is_header_op hs"
  then have "\<not> commits hs"
    by (auto simp: commits_def list_all_iff) (metis is_header_op.elims(2) is_commit.simps(4,5))
  then show ?thesis
    using respond_prepend_headers [OF hs] by (simp add: answers_def response_def)
qed

lemma answers_append:
  assumes "list_all is_header_op hs" "answers code data (s, ops, Done)"
  shows "answers code data (s', ops @ hs, Done)"
  using assms respond_append_commits(1) [of ops hs] respond_append_headers [of ops hs]
  by (simp add: answers_def response_def)

lemma answersD: "answers code data (s, ops, oc) \<Longrightarrow> oc = Done"
  by (simp add: answers_def)

lemma answers_state: "answers code data (s, ops, Done) = answers code data (s', ops, Done)"
  by (simp add: answers_def response_def)

locale status_middleware = edge_middleware +
  assumes edge_answer: "stable P \<Longrightarrow> \<forall>r. P r \<longrightarrow> r_method r \<noteq> ''OPTIONS'' \<Longrightarrow> keeps_answer P mw"

lemma cors_headers_ops: "list_all is_header_op (cors_headers cfg origin)"
  by (simp add: cors_headers_def)

lemma CORS_answer: "\<forall>r. P r \<longrightarrow> r_method r \<noteq> ''OPTIONS'' \<Longrightarrow> keeps_answer P (CORS cfg)"
  by (rule keeps_answerI) (simp add: CORS_def Let_def answers_prepend cors_headers_ops)

lemma RequestID_answer: "stable P \<Longrightarrow> keeps_answer P (RequestID e)"
  by (rule keeps_answerI) (auto simp: RequestID_def Let_def answers_prepend stable_simps split: prod.splits)

lemma RealIP_answer: "stable P \<Longrightarrow> keeps_answer P RealIP"
  by (rule keeps_answerI) (simp add: RealIP_def stable_simps)

lemma Recovery_answer: "keeps_answer P Recovery"
proof (rule keeps_answerI)
  fix h :: "'a handler" and code data w r s
  assume "\<forall>w r s. P r \<longrightarrow> answers code data (h w r s)" "P r"
  then have a: "answers code data (h w r s)" by blast
  obtain s1 ops oc where h: "h w r s = (s1, ops, oc)" by (cases "h w r s") auto
  with a answersD have "oc = Done" by metis
  with h a show "answers code data (Recovery h w r s)" by (simp add: Recovery_def)
qed

lemma AccessLog_answer: "keeps_answer P (AccessLog e)"
proof (rule keeps_answerI)
  fix h :: "'a handler" and code data w r s
  assume h: "\<forall>w r s. P r \<longrightarrow> answers code data (h w r s)" "P r"
  obtain t s1 where t: "read_clock e s = (t, s1)" by force
  obtain s2 ops oc where i: "h wrapped r s1 = (s2, ops, oc)" by (cases "h wrapped r s1") auto
  then have a: "answers code data (s2, ops, oc)" using h by metis
  then have "oc = Done" by (rule answersD)
  moreover obtain t2 s3 where "read_clock e s2 = (t2, s3)" by force
  ultimately show "answers code data (AccessLog e h w r s)"
    using a t i by (simp add: AccessLog_def Let_def answers_def response_def)
qed

lemma Metrics_answer: "keeps_answer P (Metrics e)"
proof (rule keeps_answerI)
  fix h :: "'a handler" and code data w r s
  assume h: "\<forall>w r s. P r \<longrightarrow> answers code data (h w r s)" "P r"
  obtain t s1 where t: "read_clock e s = (t, s1)" by force
  obtain s2 ops oc where i: "h wrapped r s1 = (s2, ops, oc)" by (cases "h wrapped r s1") auto
  then have a: "answers code data (s2, ops, oc)" using h by metis
  then have "oc = Done" by (rule answersD)
  moreover obtain t2 s3 where "read_clock e s2 = (t2, s3)" by force
  ultimately show "answers code data (Metrics e h w r s)"
    using a t i by (simp add: Metrics_def Let_def answers_def response_def)
qed

lemma Tracing_answer: "keeps_answer P (Tracing e)"
proof (rule keeps_answerI)
  fix h :: "'a handler" and code data w r and s :: "'a st"
  assume h: "\<forall>w r s. P r \<longrightarrow> answers code data (h w r s)" "P r"
  obtain sc w1 where t: "tracer_start e (prop_extract e (r_header r) []) (r_method r @ '' '' @ r_path r)
      [(''http.method'', r_method r), (''http.url'', r_url r), (''http.route'', r_path r),
       (''http.user_agent'', user_agent r), (''net.peer.ip'', r_remote r)] (st_world s) = (sc, w1)"
    by force
  let ?s1 = "s\<lparr>st_world := w1\<rparr>"
  obtain s2 ops oc where i: "h wrapped r ?s1 = (s2, ops, oc)" by (cases "h wrapped r ?s1") auto
  then have a: "answers code data (s2, ops, oc)" using h by metis
  then have "oc = Done" by (rule answersD)
  moreover have "list_all is_header_op (map (\<lambda>(k, v). SetHeader k v) (prop_inject e sc))"
    by (auto simp: list_all_iff)
  ultimately show "answers code data (Tracing e h w r s)"
    using a t i answers_append by (simp add: Tracing_def Let_def)
qed

lemma CORS_status: "status_middleware (CORS cfg)"
  by (intro status_middleware.intro CORS_edge status_middleware_axioms.intro CORS_answer)
lemma RequestID_status: "status_middleware (RequestID e)"
  by (intro status_middleware.intro RequestID_edge status_middleware_axioms.intro RequestID_answer)
lemma RealIP_status: "status_middleware RealIP"
  by (intro status_middleware.intro RealIP_edge status_middleware_axioms.intro RealIP_answer)
lemma Recovery_status: "status_middleware Recovery"
  by (intro status_middleware.intro Recovery_edge status_middleware_axioms.intro Recovery_answer)
lemma AccessLog_status: "status_middleware (AccessLog e)"
  by (intro status_middleware.intro AccessLog_edge status_middleware_axioms.intro AccessLog_answer)
lemma Metrics_status: "status_middleware (Metrics e)"
  by (intro status_middleware.intro Metrics_edge status_middleware_axioms.intro Metrics_answer)
lemma Tracing_status: "status_middleware (Tracing e)"
  by (intro status_middleware.intro Tracing_edge status_middleware_axioms.intro Tracing_answer)

interpretation cors_status: status_middleware "CORS cfg" for cfg by (rule CORS_status)
interpretation request_id_status: status_middleware "RequestID e" for e by (rule RequestID_status)
interpretation real_ip_status: status_middleware RealIP by (rule RealIP_status)
interpretation recovery_status: status_middleware Recovery by (rule Recovery_status)
interpretation access_log_status: status_middleware "AccessLog e" for e by (rule AccessLog_status)
interpretation metrics_status: status_middleware "Metrics e" for e by (rule Metrics_status)
interpretation tracing_status: status_middleware "Tracing e" for e by (rule Tracing_status)

lemma chain_keeps_answer:
  assumes "list_all (keeps_answer P) ms" "\<forall>w r s. P r \<longrightarrow> answers code data (h w r s)" "P r"
  shows "answers code data (chain ms h w r s)"
  using assms
proof (induction ms arbitrary: w r s)
  case (Cons m ms)
  then have "\<forall>w r s. P r \<longrightarrow> answers code data (chain ms h w r s)" by simp
  with Cons.prems(1,3) show ?case by (simp add: keeps_answer_def)
qed simp

subsection \<open>Properties of handlers that middleware preserves\<close>

definition preserves :: "('w handler \<Rightarrow> bool) \<Rightarrow> 'w middleware \<Rightarrow> bool" where
  "preserves Q m \<longleftrightarrow> (\<forall>h. Q h \<longrightarrow> Q (m h))"

lemma preservesI: "(\<And>h. Q h \<Longrightarrow> Q (m h)) \<Longrightarrow> preserves Q m"
  by (simp add: preserves_def)

lemma chain_preserves: "list_all (preserves Q) ms \<Longrightarrow> Q h \<Longrightarrow> Q (chain ms h)"
  by (induction ms) (simp_all add: preserves_def)

text \<open>Handlers that do not touch the access log.\<close>

definition quiet :: "'w handler \<Rightarrow> bool" where
  "quiet h \<longleftrightarrow> (\<forall>w r s. st_log (res_state (h w r s)) = st_log s)"

lemma quietD: "quiet h \<Longrightarrow> h w r s = (s', ops, oc) \<Longrightarrow> st_log s' = st_log s"
  unfolding quiet_def by (metis res_simps(1))

lemma quietI: "(\<And>w r s s' ops oc. m w r s = (s', ops, oc) \<Longrightarrow> st_log s' = st_log s) \<Longrightarrow> quiet m"
  unfolding quiet_def res_state_def by (metis prod.collapse)

lemma read_clock_log: "read_clock e s = (t, s') \<Longrightarrow> st_log s' = st_log s"
  by (auto simp: read_clock_def split: prod.splits)

lemma quiet_Metrics: "preserves quiet (Metrics e)"
  by (intro preservesI quietI)
    (auto simp: Metrics_def Let_def split: prod.splits outcome.splits dest!: quietD read_clock_log)

lemma quiet_Tracing: "preserves quiet (Tracing e)"
  by (intro preservesI quietI)
    (auto simp: Tracing_def Let_def split: prod.splits outcome.splits dest!: quietD)

lemma quiet_Auth: "preserves quiet (Auth a)"
  by (intro preservesI quietI)
    (auto simp: Auth_def Let_def reply_def split: if_splits sum.splits dest: quietD)

lemma quiet_RateLimit: "preserves quiet (RateLimit e n)"
proof (intro preservesI quietI)
  fix h :: "'a handler" and w r s s' ops oc
  assume h: "quiet h" and m: "RateLimit e n h w r s = (s', ops, oc)"
  obtain t s1 where t: "read_clock e s = (t, s1)" by force
  obtain ok b where b: "allow t (st_bucket s1) = (ok, b)" by force
  have "s' = s1\<lparr>st_bucket := b\<rparr> \<or> h w r (s1\<lparr>st_bucket := b\<rparr>) = (s', ops, oc) \<or> h w r s = (s', ops, oc)"
    using m by (auto simp: RateLimit_def Let_def t b reply_def split: if_splits)
  then show "st_log s' = st_log s"
    using quietD [OF h] read_clock_log [OF t] by auto
qed

lemma quiet_PrincipalRateLimit: "preserves quiet (PrincipalRateLimit e n)"
proof (intro preservesI quietI)
  fix h :: "'a handler" and w r s s' ops oc
  assume h: "quiet h" and m: "PrincipalRateLimit e n h w r s = (s', ops, oc)"
  obtain t1 s1 where t1: "(case bs_buckets (st_store s) (principal_key r) of
      None \<Rightarrow> read_clock e s | Some _ \<Rightarrow> (0, s)) = (t1, s1)" by force
  obtain t2 s2 where t2: "read_clock e s1 = (t2, s2)" by force
  obtain ok bs where b: "store_allow t1 t2 (principal_key r) (st_store s2) = (ok, bs)" by force
  have l: "st_log s2 = st_log s"
    using t1 read_clock_log [OF t2] by (auto split: option.splits dest: read_clock_log)
  have "s' = s2\<lparr>st_store := bs\<rparr> \<or> h w r (s2\<lparr>st_store := bs\<rparr>) = (s', ops, oc) \<or> h w r s = (s', ops, oc)"
    using m by (auto simp: PrincipalRateLimit_def Let_def t1 t2 b reply_def split: if_splits)
  then show "st_log s' = st_log s"
    using quietD [OF h] l by auto
qed

lemma quiet_MaxBodySize: "preserves quiet (MaxBodySize n)"
  by (intro preservesI quietI)
    (auto simp: MaxBodySize_def split: option.splits if_splits dest: quietD)

lemma in_goroutine_cases: "in_goroutine res = (s', ops, oc) \<Longrightarrow> \<exists>oc'. res = (s', ops, oc')"
  by (auto simp: in_goroutine_def split: prod.splits outcome.splits)

lemma quiet_EndpointTimeout: "preserves quiet (EndpointTimeout e a b)"
  by (intro preservesI quietI)
    (auto simp: EndpointTimeout_def Let_def split: if_splits prod.splits
      dest!: in_goroutine_cases quietD read_clock_log)

definition idem_lookup :: "'w env \<Rightarrow> string \<Rightarrow> 'w st \<Rightarrow> cached_response option \<times> 'w st" where
  "idem_lookup e key s =
     (let (now, s1) = (case st_idem s key of None \<Rightarrow> (0, s) | Some _ \<Rightarrow> read_clock e s);
          (hit, c) = cache_get now key (st_idem s1)
      in (hit, s1\<lparr>st_idem := c\<rparr>))"

lemma Idempotency_cases:
  assumes "Idempotency e cfg h w r s = (s', ops, oc)"
  obtains (passed) "h w r s = (s', ops, oc)"
  | (replayed) cr s2 where "idem_lookup e (idem_key r) s = (Some cr, s2)" "s' = s2" "ops = replay_ops cr"
  | (ran) s2 s3 now s4 cr where "idem_lookup e (idem_key r) s = (None, s2)"
      "h wrapped r s2 = (s3, ops, Done)" "read_clock e s3 = (now, s4)"
      "s' = s4\<lparr>st_idem := cache_set (idem_key r) cr (st_idem s4)\<rparr>"
  | (failed) s2 where "idem_lookup e (idem_key r) s = (None, s2)" "h wrapped r s2 = (s', ops, oc)"
proof (cases "idem_applies cfg r")
  case True
  obtain hit s2 where l: "idem_lookup e (idem_key r) s = (hit, s2)" by force
  obtain s3 ops3 oc3 where h: "h wrapped r s2 = (s3, ops3, oc3)" by (cases "h wrapped r s2") auto
  obtain now s4 where n: "read_clock e s3 = (now, s4)" by force
  have m: "Idempotency e cfg h w r s =
      (case hit of Some cr \<Rightarrow> (s2, replay_ops cr, Done)
       | None \<Rightarrow> if oc3 = Done then
           (s4\<lparr>st_idem := cache_set (idem_key r) (stored_response cfg now ops3) (st_idem s4)\<rparr>, ops3, Done)
         else (s3, ops3, oc3))"
    using True l h n
    by (cases oc3) (auto simp: Idempotency_def idem_applies_def idem_lookup_def Let_def reply_def
        replay_ops_def stored_response_def split: option.splits prod.splits)
  show ?thesis
  proof (cases hit)
    case None
    with m assms l h n that(3,4) show ?thesis by (cases "oc3 = Done") auto
  next
    case (Some cr)
    with m assms l that(2) show ?thesis by auto
  qed
next
  case False
  with assms that(1) show ?thesis by (simp add: Idempotency_passes)
qed

lemma idem_lookup_log: "idem_lookup e key s = (hit, s') \<Longrightarrow> st_log s' = st_log s"
  by (auto simp: idem_lookup_def Let_def split: prod.splits option.splits dest: read_clock_log)

lemma quiet_Idempotency: "preserves quiet (Idempotency e cfg)"
proof (intro preservesI quietI)
  fix h :: "'a handler" and w r s s' ops oc
  assume h: "quiet h" and m: "Idempotency e cfg h w r s = (s', ops, oc)"
  from m show "st_log s' = st_log s"
  proof (cases rule: Idempotency_cases)
    case passed
    then show ?thesis by (rule quietD [OF h])
  next
    case (replayed cr s2)
    then show ?thesis by (simp add: idem_lookup_log)
  next
    case (ran s2 s3 now s4 cr)
    then show ?thesis
      using idem_lookup_log [OF ran(1)] quietD [OF h ran(2)] read_clock_log [OF ran(3)] by simp
  next
    case (failed s2)
    then show ?thesis using idem_lookup_log [OF failed(1)] quietD [OF h failed(2)] by simp
  qed
qed

text \<open>Handlers that add no flush, given a writer that is no flusher, and given any writer.\<close>

definition unflushed :: "'w handler \<Rightarrow> bool" where
  "unflushed h \<longleftrightarrow> (\<forall>w r s. \<not> w_flusher w \<longrightarrow> Flush \<notin> set (res_ops (h w r s)))"

definition never_flushes :: "'w handler \<Rightarrow> bool" where
  "never_flushes h \<longleftrightarrow> (\<forall>w r s. Flush \<notin> set (res_ops (h w r s)))"

lemma unflushedD: "unflushed h \<Longrightarrow> \<not> w_flusher w \<Longrightarrow> h w r s = (s', ops, oc) \<Longrightarrow> Flush \<notin> set ops"
  unfolding unflushed_def by (metis res_simps(2))

lemma unflushedI:
  "(\<And>w r s s' ops oc. \<not> w_flusher w \<Longrightarrow> m w r s = (s', ops, oc) \<Longrightarrow> Flush \<notin> set ops) \<Longrightarrow> unflushed m"
  unfolding unflushed_def res_ops_def by (metis prod.collapse)

lemma never_flushesD: "never_flushes h \<Longrightarrow> h w r s = (s', ops, oc) \<Longrightarrow> Flush \<notin> set ops"
  unfolding never_flushes_def by (metis res_simps(2))

lemma never_flushesI:
  "(\<And>w r s s' ops oc. m w r s = (s', ops, oc) \<Longrightarrow> Flush \<notin> set ops) \<Longrightarrow> never_flushes m"
  unfolding never_flushes_def res_ops_def by (metis prod.collapse)

lemma wrapped_no_flusher [simp]: "\<not> w_flusher wrapped"
  by (simp add: wrapped_def)

lemma unflushed_wrapped: "unflushed h \<Longrightarrow> h wrapped r s = (s', ops, oc) \<Longrightarrow> Flush \<notin> set ops"
  using unflushedD [of h wrapped] by auto

lemma http_error_no_flush: "Flush \<notin> set (http_error m c)"
  by (simp add: http_error_def)

lemma unflushed_Metrics: "preserves unflushed (Metrics e)"
  by (intro preservesI unflushedI)
    (auto simp: Metrics_def Let_def split: prod.splits outcome.splits dest!: unflushed_wrapped)

lemma unflushed_Tracing: "preserves unflushed (Tracing e)"
  by (intro preservesI unflushedI)
    (auto simp: Tracing_def Let_def split: prod.splits outcome.splits dest!: unflushed_wrapped)

lemma unflushed_Auth: "preserves unflushed (Auth a)"
  by (intro preservesI unflushedI)
    (auto simp: Auth_def Let_def reply_def http_error_no_flush split: if_splits sum.splits
      dest: unflushedD)

lemma unflushed_RateLimit: "preserves unflushed (RateLimit e n)"
  by (intro preservesI unflushedI)
    (auto simp: RateLimit_def Let_def reply_def http_error_no_flush split: if_splits prod.splits
      dest: unflushedD)

lemma unflushed_PrincipalRateLimit: "preserves unflushed (PrincipalRateLimit e n)"
  by (intro preservesI unflushedI)
    (auto simp: PrincipalRateLimit_def Let_def reply_def http_error_no_flush
      split: if_splits prod.splits dest: unflushedD)

lemma unflushed_MaxBodySize: "preserves unflushed (MaxBodySize n)"
  by (intro preservesI unflushedI)
    (auto simp: MaxBodySize_def split: option.splits if_splits dest: unflushedD)

lemma unflushed_EndpointTimeout: "preserves unflushed (EndpointTimeout e a b)"
  by (intro preservesI unflushedI)
    (auto simp: EndpointTimeout_def Let_def split: if_splits prod.splits
      dest!: in_goroutine_cases dest: unflushedD)

lemma unflushed_Idempotency: "preserves unflushed (Idempotency e cfg)"
proof (intro preservesI unflushedI)
  fix h :: "'a handler" and w r s s' ops oc
  assume h: "unflushed h" "\<not> w_flusher w" and m: "Idempotency e cfg h w r s = (s', ops, oc)"
  from m show "Flush \<notin> set ops"
  proof (cases rule: Idempotency_cases)
    case passed
    then show ?thesis by (rule unflushedD [OF h])
  next
    case (replayed cr s2)
    then show ?thesis by (simp add: replay_ops_def)
  next
    case (ran s2 s3 now s4 cr)
    then show ?thesis using unflushed_wrapped [OF h(1)] by blast
  next
    case (failed s2)
    then show ?thesis using unflushed_wrapped [OF h(1)] by blast
  qed
qed

lemma AccessLog_never_flushes: "unflushed h \<Longrightarrow> never_flushes (AccessLog e h)"
  by (intro never_flushesI)
    (auto simp: AccessLog_def Let_def split: prod.splits outcome.splits dest!: unflushed_wrapped)

lemma never_flushes_Recovery: "preserves never_flushes Recovery"
  by (intro preservesI never_flushesI)
    (auto simp: Recovery_def Let_def http_error_no_flush split: prod.splits outcome.splits
      dest: never_flushesD)

lemma never_flushes_RealIP: "preserves never_flushes RealIP"
  by (intro preservesI never_flushesI) (auto simp: RealIP_def dest: never_flushesD)

lemma never_flushes_RequestID: "preserves never_flushes (RequestID e)"
  by (intro preservesI never_flushesI)
    (auto simp: RequestID_def Let_def prepend_def split: prod.splits if_splits dest: never_flushesD)

lemma never_flushes_CORS: "preserves never_flushes (CORS cfg)"
  by (intro preservesI never_flushesI)
    (auto simp: CORS_def Let_def prepend_def reply_def cors_headers_def split: prod.splits if_splits
      dest: never_flushesD)

subsection \<open>A panic behind the timeout\<close>

definition ends_in :: "(request \<Rightarrow> bool) \<Rightarrow> outcome \<Rightarrow> 'w handler \<Rightarrow> bool" where
  "ends_in P oc h \<longleftrightarrow> (\<forall>w r s. P r \<longrightarrow> res_outcome (h w r s) = oc)"

lemma ends_inD: "ends_in P oc h \<Longrightarrow> h w r s = (s', ops, oc') \<Longrightarrow> P r \<longrightarrow> oc' = oc"
  unfolding ends_in_def by (metis res_simps(3))

lemma ends_inI:
  "(\<And>w r s s' ops oc'. P r \<Longrightarrow> m w r s = (s', ops, oc') \<Longrightarrow> oc' = oc) \<Longrightarrow> ends_in P oc m"
  unfolding ends_in_def res_outcome_def by (metis prod.collapse)

text \<open>Everything outside the goroutine hands a crash on.\<close>

lemma crash_edges:
  assumes "stable P"
  shows "preserves (ends_in P Crashed) (RequestID e)" "preserves (ends_in P Crashed) RealIP"
    "preserves (ends_in P Crashed) Recovery" "preserves (ends_in P Crashed) (AccessLog e)"
    "preserves (ends_in P Crashed) (Metrics e)" "preserves (ends_in P Crashed) (Tracing e)"
    "\<forall>r. P r \<longrightarrow> r_method r \<noteq> ''OPTIONS'' \<Longrightarrow> preserves (ends_in P Crashed) (CORS cfg)"
  by (intro preservesI ends_inI; auto simp: RequestID_def RealIP_def Recovery_def AccessLog_def
      Metrics_def Tracing_def CORS_def Let_def prepend_def stable_simps [OF assms]
      split: prod.splits outcome.splits if_splits dest!: ends_inD)+

lemma panic_below:
  assumes "stable P"
  shows "preserves (ends_in P Panicked) (AccessLog e)" "preserves (ends_in P Panicked) (Metrics e)"
    "preserves (ends_in P Panicked) (Tracing e)"
  by (intro preservesI ends_inI; auto simp: AccessLog_def Metrics_def Tracing_def Let_def
      stable_simps [OF assms] split: prod.splits outcome.splits if_splits dest!: ends_inD)+

lemma done_above:
  assumes "stable P"
  shows "preserves (ends_in P Done) (RequestID e)" "preserves (ends_in P Done) RealIP"
    "\<forall>r. P r \<longrightarrow> r_method r \<noteq> ''OPTIONS'' \<Longrightarrow> preserves (ends_in P Done) (CORS cfg)"
  by (intro preservesI ends_inI; auto simp: RequestID_def RealIP_def CORS_def Let_def prepend_def
      stable_simps [OF assms] split: prod.splits outcome.splits if_splits dest!: ends_inD)+

text \<open>A panic before anything was committed, and what the recovery makes of it.\<close>

definition fresh_panic :: "(request \<Rightarrow> bool) \<Rightarrow> 'w handler \<Rightarrow> bool" where
  "fresh_panic P h \<longleftrightarrow> (\<forall>w r s. P r \<longrightarrow> res_outcome (h w r s) = Panicked \<and> \<not> commits (res_ops (h w r s)))"

lemma fresh_panicD: "fresh_panic P h \<Longrightarrow> h w r s = (s', ops, oc) \<Longrightarrow> P r \<longrightarrow> oc = Panicked \<and> \<not> commits ops"
  unfolding fresh_panic_def by (metis res_simps(2,3))

lemma fresh_panicI:
  "(\<And>w r s s' ops oc. P r \<Longrightarrow> m w r s = (s', ops, oc) \<Longrightarrow> oc = Panicked \<and> \<not> commits ops) \<Longrightarrow> fresh_panic P m"
  unfolding fresh_panic_def res_outcome_def res_ops_def by (metis prod.collapse)

lemma fresh_panic_below:
  "preserves (fresh_panic P) (AccessLog e)" "preserves (fresh_panic P) (Metrics e)"
  "preserves (fresh_panic P) (Tracing e)"
  by (intro preservesI fresh_panicI; auto simp: AccessLog_def Metrics_def Tracing_def Let_def
      split: prod.splits outcome.splits dest!: fresh_panicD)+

lemma play_uncommitted: "\<not> commits ops \<Longrightarrow> \<not> rs_wrote r \<Longrightarrow> rs_body (play ops r) = rs_body r"
proof (induction ops arbitrary: r)
  case (Cons x ops)
  then have "rs_body (wop_step r x) = rs_body r" "\<not> rs_wrote (wop_step r x)"
    by (cases x; auto simp: write_header_def)+
  with Cons show ?case by (simp add: trace_simps)
qed (simp add: trace_simps)

lemma respond_http_error:
  assumes "\<not> commits ops" "body_allowed c"
  shows "rs_status (respond (ops @ http_error msg c)) = c" "rs_body (respond (ops @ http_error msg c)) = msg @ nl"
proof -
  have "\<not> rs_wrote (play ops init_resp)" "rs_body (play ops init_resp) = []"
    using assms(1) play_uncommitted [of ops init_resp] by (simp_all add: play_wrote init_resp_def)
  with assms(2) show "rs_status (respond (ops @ http_error msg c)) = c"
    "rs_body (respond (ops @ http_error msg c)) = msg @ nl"
    by (auto simp: respond_def http_error_def trace_simps write_header_def ensure_header_def body_allowed_def)
qed

lemma recovered_panic:
  assumes "fresh_panic P h" "P r"
  shows "answers 500 (''{\"error\":\"internal server error\"}'' @ nl) (Recovery h w r s)"
proof -
  obtain s1 ops oc where h: "h w r s = (s1, ops, oc)" by (cases "h w r s") auto
  with fresh_panicD [OF assms(1) h] assms(2) have "oc = Panicked" "\<not> commits ops" by auto
  with h show ?thesis
    using respond_http_error [of ops 500] by (simp add: Recovery_def answers_def response_def Let_def body_allowed_def)
qed

text \<open>The panic is written to the log with the method and the path of its request.\<close>

definition notes_panic :: "(request \<Rightarrow> bool) \<Rightarrow> string \<Rightarrow> string \<Rightarrow> 'w handler \<Rightarrow> bool" where
  "notes_panic P meth path h \<longleftrightarrow> (\<forall>w r s. P r \<longrightarrow>
     (\<exists>pes pe. st_panics (res_state (h w r s)) = pes @ [pe] \<and> pe_method pe = meth \<and> pe_path pe = path))"

lemma notes_panicD:
  "notes_panic P meth path h \<Longrightarrow> h w r s = (s', ops, oc) \<Longrightarrow>
     P r \<longrightarrow> (\<exists>pes pe. st_panics s' = pes @ [pe] \<and> pe_method pe = meth \<and> pe_path pe = path)"
  unfolding notes_panic_def by (metis res_simps(1))

lemma notes_panicI:
  "(\<And>w r s s' ops oc. P r \<Longrightarrow> m w r s = (s', ops, oc) \<Longrightarrow>
     \<exists>pes pe. st_panics s' = pes @ [pe] \<and> pe_method pe = meth \<and> pe_path pe = path) \<Longrightarrow> notes_panic P meth path m"
  unfolding notes_panic_def res_state_def by (metis prod.collapse)

lemma notes_panic_Recovery:
  assumes "ends_in P Panicked h" "\<And>r. P r \<Longrightarrow> r_method r = meth \<and> r_path r = path"
  shows "notes_panic P meth path (Recovery h)"
  by (rule notes_panicI)
    (use assms in \<open>auto simp: Recovery_def Let_def split: prod.splits outcome.splits dest!: ends_inD\<close>)

lemma notes_panic_above:
  assumes "stable P"
  shows "preserves (notes_panic P meth path) (RequestID e)" "preserves (notes_panic P meth path) RealIP"
    "\<forall>r. P r \<longrightarrow> r_method r \<noteq> ''OPTIONS'' \<Longrightarrow> preserves (notes_panic P meth path) (CORS cfg)"
  by (intro preservesI notes_panicI; auto simp: RequestID_def RealIP_def CORS_def Let_def prepend_def
      stable_simps [OF assms] split: prod.splits if_splits dest!: notes_panicD)+

subsection \<open>The lines of the access log\<close>

definition logs_anonymously :: "(request \<Rightarrow> bool) \<Rightarrow> 'w handler \<Rightarrow> bool" where
  "logs_anonymously P h \<longleftrightarrow>
     (\<forall>w r s. P r \<longrightarrow>
        st_log (res_state (h w r s)) = st_log s
        \<or> (\<exists>le. st_log (res_state (h w r s)) = st_log s @ [le] \<and> le_principal le = []))"

lemma logs_anonymouslyI:
  assumes "\<And>w r s s' ops oc. P r \<Longrightarrow> m w r s = (s', ops, oc) \<Longrightarrow>
    st_log s' = st_log s \<or> (\<exists>le. st_log s' = st_log s @ [le] \<and> le_principal le = [])"
  shows "logs_anonymously P m"
  unfolding logs_anonymously_def res_state_def using assms by (metis prod.collapse)

lemma logs_anonymouslyD:
  "logs_anonymously P h \<Longrightarrow> h w r s = (s', ops, oc) \<Longrightarrow>
     P r \<longrightarrow> st_log s' = st_log s \<or> (\<exists>le. st_log s' = st_log s @ [le] \<and> le_principal le = [])"
  unfolding logs_anonymously_def by (metis res_simps(1))

lemma AccessLog_anonymous:
  assumes "quiet h" "\<And>r. P r \<Longrightarrow> c_principal (r_ctx r) = None"
  shows "logs_anonymously P (AccessLog e h)"
  using assms(2)
  by (intro logs_anonymouslyI)
    (auto simp: AccessLog_def Let_def PrincipalFromContext_def split: prod.splits outcome.splits
      dest!: quietD [OF assms(1)] read_clock_log)

lemma anonymous_edges:
  assumes "\<And>r i a. P (r\<lparr>r_ctx := (r_ctx r)\<lparr>c_request_id := i\<rparr>\<rparr>) = P r \<and> P (r\<lparr>r_remote := a\<rparr>) = P r"
  shows "preserves (logs_anonymously P) (RequestID e)" "preserves (logs_anonymously P) RealIP"
    "preserves (logs_anonymously P) Recovery"
  by (intro preservesI logs_anonymouslyI; auto simp: RequestID_def RealIP_def Recovery_def Let_def
      prepend_def assms split: prod.splits outcome.splits if_splits dest!: logs_anonymouslyD)+

lemma anonymous_CORS: "preserves (logs_anonymously P) (CORS cfg)"
  by (intro preservesI logs_anonymouslyI)
    (auto simp: CORS_def Let_def prepend_def reply_def split: prod.splits if_splits
      dest!: logs_anonymouslyD)

end
