(* ===== verification/Handler_Facts.thy ===== *)
theory Handler_Facts
  imports Rest_Documents Rest_Stream Rest_Webhook Stack_Facts
begin

text \<open>
  Facts about all REST handlers at once: each changes nothing of the server's state but the
  world behind the engine (\<open>world_only\<close>), so none touches a limiter, the idempotency cache or
  the log; and none flushes a writer that is no flusher.
\<close>

definition ext :: "'w st \<Rightarrow> 'w st \<Rightarrow> bool" where
  "ext s s' \<longleftrightarrow> (\<exists>w. s' = s\<lparr>st_world := w\<rparr>)"

lemma ext_refl [simp]: "ext s s"
  unfolding ext_def by (rule exI [of _ "st_world s"]) simp

lemma ext_trans: "ext a b \<Longrightarrow> ext b c \<Longrightarrow> ext a c"
  by (auto simp: ext_def)

lemma ext_call: "call f s = (a, s') \<Longrightarrow> ext s s'"
  by (auto simp: call_def ext_def split: prod.splits)

lemma ext_clock: "read_clock e s = (t, s') \<Longrightarrow> ext s s'"
  by (simp add: read_clock_call ext_call)

lemma ext_fetch: "fetchContent sto c ref s = (x, s') \<Longrightarrow> ext s s'"
  by (auto simp: fetchContent_def split: if_splits prod.splits sum.splits dest: ext_call)

lemma ext_log: "ext s s' \<Longrightarrow> st_log s' = st_log s"
  by (auto simp: ext_def)

named_theorems ext_rules \<open>steps that change the world only\<close>

lemmas [ext_rules] = ext_call ext_clock ext_fetch

lemma ext_collect: "collect_sections sto c t ids s = (x, s') \<Longrightarrow> ext s s'"
proof (induction ids arbitrary: s x)
  case (Cons i ids)
  then show ?case
    by (auto split: option.splits prod.splits intro: ext_trans dest!: ext_fetch)
qed simp

lemma ext_capped: "collect_capped sto c t cap n ids s = (x, s') \<Longrightarrow> ext s s'"
proof (induction ids arbitrary: n s x)
  case (Cons i ids)
  then show ?case
    by (auto split: option.splits prod.splits if_splits intro: ext_trans dest!: ext_fetch)
qed simp

lemma ext_documents: "collect_documents d c cap drs s = (x, s') \<Longrightarrow> ext s s'"
proof (induction drs arbitrary: s x)
  case (Cons dr drs)
  then show ?case
    by (cases dr) (auto split: prod.splits intro: ext_trans dest!: ext_capped)
qed simp

lemma ext_strategy: "run_strategy sg c t q b s = (x, s') \<Longrightarrow> ext s s'"
  by (auto simp: run_strategy_def split: option.splits prod.splits sum.splits dest: ext_call)

lemma ext_event: "build_event e d c t q name started ev s = (x, s') \<Longrightarrow> ext s s'"
  by (auto simp: build_event_def Let_def split: event_type.splits option.splits prod.splits
      dest: ext_fetch ext_clock)

lemma ext_stream: "stream_loop e d w c t q name started evs s = (ops, s') \<Longrightarrow> ext s s'"
proof (induction evs arbitrary: ops s)
  case (Cons ev evs)
  then show ?case by (auto split: prod.splits intro: ext_trans dest!: ext_event)
qed simp

lemma ext_multi_event: "build_multi_event e d q started mev s = (x, s') \<Longrightarrow> ext s s'"
  by (auto simp: build_multi_event_def Let_def split: event_type.splits prod.splits dest: ext_clock)

lemma ext_multi_stream: "multi_stream_loop e d w q started mevs s = (ops, s') \<Longrightarrow> ext s s'"
proof (induction mevs arbitrary: ops s)
  case (Cons mev mevs)
  then show ?case by (auto split: prod.splits intro: ext_trans dest!: ext_multi_event)
qed simp

lemma ext_ingest: "ingest_steps d c org store docID u s = (x, s') \<Longrightarrow> ext s s'"
  by (auto simp: ingest_steps_def Let_def split: prod.splits option.splits intro: ext_trans dest!: ext_call)

lemmas [ext_rules] = ext_collect ext_capped ext_documents ext_strategy ext_stream ext_multi_stream ext_ingest

subsection \<open>Handlers\<close>

definition world_only :: "'w handler \<Rightarrow> bool" where
  "world_only h \<longleftrightarrow> (\<forall>w r s. ext s (res_state (h w r s)))"

lemma world_onlyI: "(\<And>w r s. ext s (res_state (h w r s))) \<Longrightarrow> world_only h"
  by (simp add: world_only_def)

lemma world_only_quiet: "world_only h \<Longrightarrow> quiet h"
  by (simp add: world_only_def quiet_def ext_log)

lemma world_only_documents:
  "world_only (HandleListDocuments d)" "world_only (HandleIngestDocument d)"
  "world_only (HandleGetDocument d)" "world_only (HandleDeleteDocument d)"
  "world_only (HandleGetDocumentSource d)" "world_only (HandleGetTree d)"
  "world_only (HandleGetSection d)"
  by (rule world_onlyI; auto simp: HandleListDocuments_def HandleIngestDocument_def HandleGetDocument_def
      HandleDeleteDocument_def HandleGetDocumentSource_def HandleGetTree_def HandleGetSection_def Let_def
      split: sum.splits prod.splits option.splits intro: ext_trans dest!: ext_rules)+

lemma world_only_health: "world_only HandleHealth" "world_only (HandleVersion v)"
  by (rule world_onlyI; simp add: HandleHealth_def HandleVersion_def)+

lemma world_only_webhook: "world_only (HandleQueueWebhook d)"
  by (rule world_onlyI, auto simp: HandleQueueWebhook_def Let_def
      split: sum.splits prod.splits option.splits dest!: ext_rules, (meson ext_trans)+)

lemma world_only_query: "world_only (HandleQuery e d)"
  by (rule world_onlyI, auto simp: HandleQuery_def Let_def
      split: sum.splits prod.splits option.splits dest!: ext_rules, (meson ext_trans)+)

lemma world_only_multi: "world_only (HandleQueryMulti e d)"
  by (rule world_onlyI, auto simp: HandleQueryMulti_def Let_def
      split: sum.splits prod.splits option.splits dest!: ext_rules, (meson ext_trans)+)

lemma world_only_stream: "world_only (HandleQueryStream e d)"
  by (rule world_onlyI, auto simp: HandleQueryStream_def Let_def
      split: sum.splits prod.splits option.splits dest!: ext_rules, (meson ext_trans)+)

lemma world_only_stream_multi: "world_only (HandleQueryStreamMulti e d)"
  by (rule world_onlyI, auto simp: HandleQueryStreamMulti_def Let_def
      split: sum.splits prod.splits option.splits dest!: ext_rules, (meson ext_trans)+)

subsection \<open>Flushes\<close>

lemma write_no_flush [simp]: "Flush \<notin> set (writeJSON c v)" "Flush \<notin> set (writeErr c msg)"
    "Flush \<notin> set (lookup_err m err)"
  by (auto simp: writeJSON_def writeErr_def lookup_err_def split: option.splits)

lemma requireOrgID_no_flush: "requireOrgID r = Inl ops \<Longrightarrow> Flush \<notin> set ops"
  by (auto simp: requireOrgID_Inl)

lemma read_upload_no_flush: "read_upload d r = Inl ops \<Longrightarrow> Flush \<notin> set ops"
  by (auto simp: read_upload_def read_multipart_def read_json_upload_def Let_def
      split: if_splits sum.splits option.splits)

lemma query_body_no_flush: "query_body d r = Inl ops \<Longrightarrow> Flush \<notin> set ops"
  by (auto simp: query_body_def split: if_splits option.splits)

lemma multi_body_no_flush: "multi_body d r = Inl ops \<Longrightarrow> Flush \<notin> set ops"
  by (auto simp: multi_body_def split: if_splits option.splits)

lemma stream_no_flush: "stream_loop e d w c t q name started evs s = (ops, s') \<Longrightarrow>
    \<not> w_flusher w \<Longrightarrow> Flush \<notin> set ops"
  by (induction evs arbitrary: ops s) (auto simp: emit_def split: prod.splits)

lemma multi_stream_no_flush: "multi_stream_loop e d w q started mevs s = (ops, s') \<Longrightarrow>
    \<not> w_flusher w \<Longrightarrow> Flush \<notin> set ops"
  by (induction mevs arbitrary: ops s) (auto simp: emit_def split: prod.splits)

lemmas no_flush_rules = requireOrgID_no_flush read_upload_no_flush query_body_no_flush
  multi_body_no_flush stream_no_flush multi_stream_no_flush

lemma unflushed_documents:
  "unflushed (HandleListDocuments d)" "unflushed (HandleIngestDocument d)"
  "unflushed (HandleGetDocument d)" "unflushed (HandleDeleteDocument d)"
  "unflushed (HandleGetDocumentSource d)" "unflushed (HandleGetTree d)"
  "unflushed (HandleGetSection d)"
  by (rule unflushedI; auto simp: HandleListDocuments_def HandleIngestDocument_def HandleGetDocument_def
      HandleDeleteDocument_def HandleGetDocumentSource_def HandleGetTree_def HandleGetSection_def Let_def
      reply_def source_headers_def
      split: sum.splits prod.splits option.splits if_splits dest: no_flush_rules)+

lemma unflushed_health: "unflushed HandleHealth" "unflushed (HandleVersion v)"
  by (rule unflushedI; auto simp: HandleHealth_def HandleVersion_def reply_def)+

lemma unflushed_webhook: "unflushed (HandleQueueWebhook d)"
  by (rule unflushedI) (auto simp: HandleQueueWebhook_def Let_def reply_def
      split: sum.splits prod.splits option.splits if_splits)

lemma unflushed_query: "unflushed (HandleQuery e d)" "unflushed (HandleQueryMulti e d)"
  by (rule unflushedI; auto simp: HandleQuery_def HandleQueryMulti_def Let_def reply_def
      split: sum.splits prod.splits option.splits dest: no_flush_rules)+

lemma sse_headers_no_flush [simp]: "Flush \<notin> set sse_headers"
  by (simp add: sse_headers_def)

lemma unflushed_stream: "unflushed (HandleQueryStream e d)" "unflushed (HandleQueryStreamMulti e d)"
  by (rule unflushedI; auto simp: HandleQueryStream_def HandleQueryStreamMulti_def Let_def reply_def
      split: sum.splits prod.splits option.splits dest: no_flush_rules)+

end
