(* ===== verification/Server_Config.thy ===== *)
theory Server_Config
  imports Token_Bucket
begin

text \<open>
  Configuration loading (\<open>internal/config/config.go\<close>): the configuration types, the defaults,
  the environment overrides and the validation. The engine's configuration is a type of another
  module: the record has the fields this repository reads or writes, and the engine's
  defaults and validation are parameters, as are the YAML decoder, the file system and the
  process environment.
\<close>

subsection \<open>Types\<close>

record storage_options =
  so_local_root :: string
  so_s3_endpoint :: string
  so_s3_region :: string
  so_s3_bucket :: string
  so_s3_access_key :: string
  so_s3_secret_key :: string
  so_s3_path_style :: bool
  so_gcs_bucket :: string

record queue_options =
  qo_qstash_token :: string
  qo_qstash_webhook_url :: string
  qo_qstash_current_key :: string
  qo_qstash_next_key :: string
  qo_river_workers :: int
  qo_asynq_addr :: string
  qo_asynq_password :: string
  qo_asynq_db :: int
  qo_asynq_concurrency :: int

text \<open>The model and the reasoning model of each LLM driver.\<close>

record llm_options =
  lm_anthropic :: "string \<times> string"
  lm_openai :: "string \<times> string"
  lm_gemini :: "string \<times> string"

record engine_config =
  ec_database_url :: string
  ec_database_max_conns :: int
  ec_log_level :: string
  ec_log_format :: string
  ec_anthropic_key :: string
  ec_openai_key :: string
  ec_gemini_key :: string
  ec_llm_driver :: string
  ec_storage_driver :: string
  ec_queue_driver :: string
  ec_retrieval_strategy :: string
  ec_cache_enabled :: bool
  ec_cache_ttl_seconds :: int
  ec_cache_max_entries :: int
  ec_storage :: storage_options
  ec_queue :: queue_options
  ec_llm :: llm_options

record TLSConfig =
  tls_cert_file :: string
  tls_key_file :: string
  tls_min_version :: string

definition TLS_Enabled :: "TLSConfig \<Rightarrow> bool" where
  "TLS_Enabled t \<longleftrightarrow> tls_cert_file t \<noteq> [] \<and> tls_key_file t \<noteq> []"

record ServerConfig =
  sv_addr :: string
  sv_read_timeout :: int
  sv_write_timeout :: int
  sv_drain_timeout :: int
  sv_tls :: TLSConfig

record AuthConfig =
  au_mode :: string
  au_api_key :: string

record MetricsConfig =
  mt_enabled :: bool

record TracingConfig =
  tc_enabled :: bool
  tc_endpoint :: string
  tc_insecure :: bool
  tc_service_name :: string
  tc_sample_rate :: rat

record RateLimitConfig =
  rl_enabled :: bool
  rl_rpm :: int
  rl_principal_rpm :: int

record CORSConfig =
  cc_enabled :: bool
  cc_origins :: "string list"
  cc_max_age :: int

record GovernanceConfig =
  gv_max_body :: int
  gv_default_timeout :: int
  gv_query_timeout :: int

record Config =
  cf_engine :: engine_config
  cf_server :: ServerConfig
  cf_auth :: AuthConfig
  cf_metrics :: MetricsConfig
  cf_tracing :: TracingConfig
  cf_rate_limit :: RateLimitConfig
  cf_cors :: CORSConfig
  cf_governance :: GovernanceConfig

subsection \<open>Defaults\<close>

definition Default :: "engine_config \<Rightarrow> Config" where
  "Default engine_default =
     \<lparr>cf_engine = engine_default,
      cf_server = \<lparr>sv_addr = '':8080'', sv_read_timeout = 30 * second, sv_write_timeout = 120 * second,
        sv_drain_timeout = 15 * second,
        sv_tls = \<lparr>tls_cert_file = [], tls_key_file = [], tls_min_version = []\<rparr>\<rparr>,
      cf_auth = \<lparr>au_mode = ''none'', au_api_key = []\<rparr>,
      cf_metrics = \<lparr>mt_enabled = True\<rparr>,
      cf_tracing = \<lparr>tc_enabled = False, tc_endpoint = [], tc_insecure = False,
        tc_service_name = ''vectorless-server'', tc_sample_rate = 1\<rparr>,
      cf_rate_limit = \<lparr>rl_enabled = False, rl_rpm = 600, rl_principal_rpm = 0\<rparr>,
      cf_cors = \<lparr>cc_enabled = True, cc_origins = [''*''], cc_max_age = 86400\<rparr>,
      cf_governance = \<lparr>gv_max_body = 33554432, gv_default_timeout = 30 * second,
        gv_query_timeout = 120 * second\<rparr>\<rparr>"

subsection \<open>Environment overrides\<close>

type_synonym getenv = "string \<Rightarrow> string"

fun firstEnv :: "getenv \<Rightarrow> string list \<Rightarrow> string" where
  "firstEnv g [] = []"
| "firstEnv g (n # ns) = (let v = g n in if v \<noteq> [] then v else firstEnv g ns)"

definition truthy :: "string \<Rightarrow> bool" where
  "truthy v \<longleftrightarrow> v = ''true'' \<or> v = ''1''"

text \<open>\<open>if v := ...; v != "" { ... }\<close>\<close>

definition override :: "string \<Rightarrow> (string \<Rightarrow> 'c \<Rightarrow> 'c) \<Rightarrow> 'c \<Rightarrow> 'c" where
  "override v f c = (if v \<noteq> [] then f v c else c)"

definition tls_env :: "getenv \<Rightarrow> TLSConfig \<Rightarrow> TLSConfig" where
  "tls_env g c =
     (let c1 = override (g ''VLS_TLS_CERT_FILE'') (\<lambda>v c. c\<lparr>tls_cert_file := v\<rparr>) c
      in override (g ''VLS_TLS_KEY_FILE'') (\<lambda>v c. c\<lparr>tls_key_file := v\<rparr>) c1)"

definition server_env :: "getenv \<Rightarrow> ServerConfig \<Rightarrow> ServerConfig" where
  "server_env g c =
     (let c1 = override (g ''VLS_ADDR'') (\<lambda>v c. c\<lparr>sv_addr := v\<rparr>) c
      in c1\<lparr>sv_tls := tls_env g (sv_tls c1)\<rparr>)"

definition auth_env :: "getenv \<Rightarrow> AuthConfig \<Rightarrow> AuthConfig" where
  "auth_env g c =
     (let c1 = override (g ''VLS_AUTH_MODE'') (\<lambda>v c. c\<lparr>au_mode := v\<rparr>) c
      in override (g ''VLS_AUTH_API_KEY'') (\<lambda>v c. c\<lparr>au_api_key := v\<rparr>) c1)"

definition metrics_env :: "getenv \<Rightarrow> MetricsConfig \<Rightarrow> MetricsConfig" where
  "metrics_env g c = override (g ''VLS_METRICS_ENABLED'') (\<lambda>v c. c\<lparr>mt_enabled := truthy v\<rparr>) c"

definition tracing_env :: "getenv \<Rightarrow> TracingConfig \<Rightarrow> TracingConfig" where
  "tracing_env g c =
     (let c1 = override (g ''VLS_TRACING_ENABLED'') (\<lambda>v c. c\<lparr>tc_enabled := truthy v\<rparr>) c;
          c2 = override (g ''VLS_TRACING_ENDPOINT'') (\<lambda>v c. c\<lparr>tc_endpoint := v\<rparr>) c1;
          c3 = override (g ''VLS_TRACING_INSECURE'') (\<lambda>v c. c\<lparr>tc_insecure := truthy v\<rparr>) c2
      in override (g ''VLS_TRACING_SERVICE_NAME'') (\<lambda>v c. c\<lparr>tc_service_name := v\<rparr>) c3)"

definition rate_limit_env :: "getenv \<Rightarrow> RateLimitConfig \<Rightarrow> RateLimitConfig" where
  "rate_limit_env g c =
     (let c1 = override (g ''VLS_RATE_LIMIT_ENABLED'') (\<lambda>v c. c\<lparr>rl_enabled := truthy v\<rparr>) c
      in override (g ''VLS_RATE_LIMIT_RPM'')
           (\<lambda>v c. case atoi v of Some n \<Rightarrow> if n > 0 then c\<lparr>rl_rpm := n\<rparr> else c | None \<Rightarrow> c) c1)"

definition cors_env :: "getenv \<Rightarrow> CORSConfig \<Rightarrow> CORSConfig" where
  "cors_env g c =
     (let c1 = override (g ''VLS_CORS_ENABLED'') (\<lambda>v c. c\<lparr>cc_enabled := truthy v\<rparr>) c
      in override (g ''VLS_CORS_ORIGINS'') (\<lambda>v c. c\<lparr>cc_origins := split_byte v (CHR '','')\<rparr>) c1)"

definition engine_env :: "getenv \<Rightarrow> engine_config \<Rightarrow> engine_config" where
  "engine_env g c =
     (let c1 = override (firstEnv g [''VLS_DATABASE_URL'', ''VLE_DATABASE_URL''])
                 (\<lambda>v c. c\<lparr>ec_database_url := v\<rparr>) c;
          c2 = override (firstEnv g [''VLS_LOG_LEVEL'', ''VLE_LOG_LEVEL''])
                 (\<lambda>v c. c\<lparr>ec_log_level := v\<rparr>) c1;
          c3 = override (firstEnv g [''VLS_ANTHROPIC_API_KEY'', ''VLE_ANTHROPIC_API_KEY''])
                 (\<lambda>v c. c\<lparr>ec_anthropic_key := v\<rparr>) c2;
          c4 = override (firstEnv g [''VLS_OPENAI_API_KEY'', ''VLE_OPENAI_API_KEY''])
                 (\<lambda>v c. c\<lparr>ec_openai_key := v\<rparr>) c3;
          c5 = override (firstEnv g [''VLS_GEMINI_API_KEY'', ''VLE_GEMINI_API_KEY''])
                 (\<lambda>v c. c\<lparr>ec_gemini_key := v\<rparr>) c4;
          c6 = override (firstEnv g [''VLS_STORAGE_DRIVER'', ''VLE_STORAGE_DRIVER''])
                 (\<lambda>v c. c\<lparr>ec_storage_driver := v\<rparr>) c5;
          c7 = override (firstEnv g [''VLS_QUEUE_DRIVER'', ''VLE_QUEUE_DRIVER''])
                 (\<lambda>v c. c\<lparr>ec_queue_driver := v\<rparr>) c6
      in override (firstEnv g [''VLS_LLM_DRIVER'', ''VLE_LLM_DRIVER''])
           (\<lambda>v c. c\<lparr>ec_llm_driver := v\<rparr>) c7)"

text \<open>The sections are independent, so they are overridden section by section.\<close>

definition applyEnvOverrides :: "getenv \<Rightarrow> Config \<Rightarrow> Config" where
  "applyEnvOverrides g c =
     c\<lparr>cf_server := server_env g (cf_server c),
       cf_auth := auth_env g (cf_auth c),
       cf_metrics := metrics_env g (cf_metrics c),
       cf_tracing := tracing_env g (cf_tracing c),
       cf_rate_limit := rate_limit_env g (cf_rate_limit c),
       cf_cors := cors_env g (cf_cors c),
       cf_engine := engine_env g (cf_engine c)\<rparr>"

subsection \<open>Validation and loading\<close>

datatype config_error =
    ReadConfig string
  | ParseConfig string
  | ApiKeyRequired
  | UnknownAuthMode string
  | KeyFileRequired
  | CertFileRequired
  | BadMinVersion string
  | TracingEndpointRequired
  | EngineConfig string

definition validate_auth :: "AuthConfig \<Rightarrow> config_error option" where
  "validate_auth a =
     (if au_mode a = ''none'' then None
      else if au_mode a = ''api_key'' then (if au_api_key a = [] then Some ApiKeyRequired else None)
      else Some (UnknownAuthMode (au_mode a)))"

definition validate_tls :: "TLSConfig \<Rightarrow> config_error option" where
  "validate_tls t =
     (if tls_cert_file t \<noteq> [] \<and> tls_key_file t = [] then Some KeyFileRequired
      else if tls_key_file t \<noteq> [] \<and> tls_cert_file t = [] then Some CertFileRequired
      else if tls_min_version t \<noteq> [] \<and> tls_min_version t \<noteq> ''1.2'' \<and> tls_min_version t \<noteq> ''1.3''
      then Some (BadMinVersion (tls_min_version t)) else None)"

definition Validate :: "(engine_config \<Rightarrow> string option) \<Rightarrow> Config \<Rightarrow> config_error option" where
  "Validate engine_validate c =
     (case validate_auth (cf_auth c) of
        Some err \<Rightarrow> Some err
      | None \<Rightarrow>
        (case validate_tls (sv_tls (cf_server c)) of
           Some err \<Rightarrow> Some err
         | None \<Rightarrow>
             if tc_enabled (cf_tracing c) \<and> tc_endpoint (cf_tracing c) = []
             then Some TracingEndpointRequired
             else (case engine_validate (cf_engine c) of
                 Some msg \<Rightarrow> Some (EngineConfig msg)
               | None \<Rightarrow> None)))"

text \<open>What \<open>Load\<close> reads from outside this repository.\<close>

record config_env =
  ce_engine_default :: engine_config
  ce_engine_validate :: "engine_config \<Rightarrow> string option"
  ce_read_file :: "string \<Rightarrow> (string, string) result"
  ce_yaml :: "string \<Rightarrow> Config \<Rightarrow> string option \<times> Config"
  ce_getenv :: getenv

definition load_file :: "config_env \<Rightarrow> string \<Rightarrow> Config \<Rightarrow> (config_error, Config) result" where
  "load_file ce path cfg =
     (if path \<noteq> [] then
        (case ce_read_file ce path of
           Inl err \<Rightarrow> Inl (ReadConfig err)
         | Inr data \<Rightarrow>
             (case ce_yaml ce data cfg of
                (Some err, _) \<Rightarrow> Inl (ParseConfig err)
              | (None, cfg1) \<Rightarrow> Inr cfg1))
      else Inr cfg)"

definition Load :: "config_env \<Rightarrow> string \<Rightarrow> (config_error, Config) result" where
  "Load ce path =
     (case load_file ce path (Default (ce_engine_default ce)) of
        Inl err \<Rightarrow> Inl err
      | Inr cfg \<Rightarrow>
          (let cfg1 = applyEnvOverrides (ce_getenv ce) cfg
           in case Validate (ce_engine_validate ce) cfg1 of
                Some err \<Rightarrow> Inl err
              | None \<Rightarrow> Inr cfg1))"

subsection \<open>Facts\<close>

definition or_else :: "string \<Rightarrow> string \<Rightarrow> string" where
  "or_else v old = (if v \<noteq> [] then v else old)"

lemma or_else_idem [simp]: "or_else v (or_else v x) = or_else v x"
  by (simp add: or_else_def)

lemma or_else_nested [simp]:
  "or_else a (or_else b (or_else a (or_else b x))) = or_else a (or_else b x)"
  by (simp add: or_else_def)

lemma firstEnv_pair: "firstEnv g [a, b] = or_else (g a) (g b)"
  by (simp add: or_else_def Let_def)

lemma or_else_assoc: "or_else (or_else a b) x = or_else a (or_else b x)"
  by (simp add: or_else_def)

text \<open>An override that assigns one string field is an update of that field.\<close>

lemma override_engine:
  "override v (\<lambda>v c. c\<lparr>ec_database_url := v\<rparr>) c = c\<lparr>ec_database_url := or_else v (ec_database_url c)\<rparr>"
  "override v (\<lambda>v c. c\<lparr>ec_log_level := v\<rparr>) c = c\<lparr>ec_log_level := or_else v (ec_log_level c)\<rparr>"
  "override v (\<lambda>v c. c\<lparr>ec_anthropic_key := v\<rparr>) c = c\<lparr>ec_anthropic_key := or_else v (ec_anthropic_key c)\<rparr>"
  "override v (\<lambda>v c. c\<lparr>ec_openai_key := v\<rparr>) c = c\<lparr>ec_openai_key := or_else v (ec_openai_key c)\<rparr>"
  "override v (\<lambda>v c. c\<lparr>ec_gemini_key := v\<rparr>) c = c\<lparr>ec_gemini_key := or_else v (ec_gemini_key c)\<rparr>"
  "override v (\<lambda>v c. c\<lparr>ec_storage_driver := v\<rparr>) c = c\<lparr>ec_storage_driver := or_else v (ec_storage_driver c)\<rparr>"
  "override v (\<lambda>v c. c\<lparr>ec_queue_driver := v\<rparr>) c = c\<lparr>ec_queue_driver := or_else v (ec_queue_driver c)\<rparr>"
  "override v (\<lambda>v c. c\<lparr>ec_llm_driver := v\<rparr>) c = c\<lparr>ec_llm_driver := or_else v (ec_llm_driver c)\<rparr>"
  by (simp_all add: override_def or_else_def)

lemma engine_env_eq:
  "engine_env g c =
     c\<lparr>ec_database_url := or_else (g ''VLS_DATABASE_URL'') (or_else (g ''VLE_DATABASE_URL'') (ec_database_url c)),
       ec_log_level := or_else (g ''VLS_LOG_LEVEL'') (or_else (g ''VLE_LOG_LEVEL'') (ec_log_level c)),
       ec_anthropic_key := or_else (g ''VLS_ANTHROPIC_API_KEY'')
         (or_else (g ''VLE_ANTHROPIC_API_KEY'') (ec_anthropic_key c)),
       ec_openai_key := or_else (g ''VLS_OPENAI_API_KEY'') (or_else (g ''VLE_OPENAI_API_KEY'') (ec_openai_key c)),
       ec_gemini_key := or_else (g ''VLS_GEMINI_API_KEY'') (or_else (g ''VLE_GEMINI_API_KEY'') (ec_gemini_key c)),
       ec_storage_driver := or_else (g ''VLS_STORAGE_DRIVER'')
         (or_else (g ''VLE_STORAGE_DRIVER'') (ec_storage_driver c)),
       ec_queue_driver := or_else (g ''VLS_QUEUE_DRIVER'') (or_else (g ''VLE_QUEUE_DRIVER'') (ec_queue_driver c)),
       ec_llm_driver := or_else (g ''VLS_LLM_DRIVER'') (or_else (g ''VLE_LLM_DRIVER'') (ec_llm_driver c))\<rparr>"
  by (simp only: engine_env_def Let_def override_engine firstEnv_pair or_else_assoc
      engine_config.simps engine_config.select_convs cong: if_cong)
    simp

lemma auth_env_fields:
  "au_mode (auth_env g c) = or_else (g ''VLS_AUTH_MODE'') (au_mode c)"
  "au_api_key (auth_env g c) = or_else (g ''VLS_AUTH_API_KEY'') (au_api_key c)"
  by (simp_all add: auth_env_def override_def or_else_def Let_def)

lemma server_env_fields:
  "sv_addr (server_env g c) = or_else (g ''VLS_ADDR'') (sv_addr c)"
  "tls_cert_file (sv_tls (server_env g c)) = or_else (g ''VLS_TLS_CERT_FILE'') (tls_cert_file (sv_tls c))"
  "tls_key_file (sv_tls (server_env g c)) = or_else (g ''VLS_TLS_KEY_FILE'') (tls_key_file (sv_tls c))"
  "tls_min_version (sv_tls (server_env g c)) = tls_min_version (sv_tls c)"
  "sv_drain_timeout (server_env g c) = sv_drain_timeout c"
  by (simp_all add: server_env_def tls_env_def override_def or_else_def Let_def)

lemma server_env_idem: "server_env g (server_env g c) = server_env g c"
  by (cases "g ''VLS_ADDR'' = []"; cases "g ''VLS_TLS_CERT_FILE'' = []"; cases "g ''VLS_TLS_KEY_FILE'' = []")
    (simp_all add: server_env_def tls_env_def override_def)

lemma auth_env_idem: "auth_env g (auth_env g c) = auth_env g c"
  by (cases "g ''VLS_AUTH_MODE'' = []"; cases "g ''VLS_AUTH_API_KEY'' = []")
    (simp_all add: auth_env_def override_def)

lemma metrics_env_idem: "metrics_env g (metrics_env g c) = metrics_env g c"
  by (simp add: metrics_env_def override_def)

lemma tracing_env_idem: "tracing_env g (tracing_env g c) = tracing_env g c"
  by (cases "g ''VLS_TRACING_ENABLED'' = []"; cases "g ''VLS_TRACING_ENDPOINT'' = []";
      cases "g ''VLS_TRACING_INSECURE'' = []"; cases "g ''VLS_TRACING_SERVICE_NAME'' = []")
    (simp_all add: tracing_env_def override_def)

lemma rate_limit_env_idem: "rate_limit_env g (rate_limit_env g c) = rate_limit_env g c"
  by (cases "g ''VLS_RATE_LIMIT_ENABLED'' = []"; cases "g ''VLS_RATE_LIMIT_RPM'' = []";
      cases "atoi (g ''VLS_RATE_LIMIT_RPM'')")
    (simp_all add: rate_limit_env_def override_def Let_def)

lemma cors_env_idem: "cors_env g (cors_env g c) = cors_env g c"
  by (cases "g ''VLS_CORS_ENABLED'' = []"; cases "g ''VLS_CORS_ORIGINS'' = []")
    (simp_all add: cors_env_def override_def)

lemma engine_env_idem: "engine_env g (engine_env g c) = engine_env g c"
  by (simp add: engine_env_eq)

lemmas env_idem = server_env_idem auth_env_idem metrics_env_idem tracing_env_idem rate_limit_env_idem
  cors_env_idem engine_env_idem

lemma metrics_env_fields: "mt_enabled (metrics_env g c) = (if g ''VLS_METRICS_ENABLED'' = [] then mt_enabled c
    else g ''VLS_METRICS_ENABLED'' \<in> {''true'', ''1''})"
  by (simp add: metrics_env_def override_def truthy_def)

lemma tracing_env_fields:
  "tc_enabled (tracing_env g c) = (if g ''VLS_TRACING_ENABLED'' = [] then tc_enabled c
    else g ''VLS_TRACING_ENABLED'' \<in> {''true'', ''1''})"
  "tc_endpoint (tracing_env g c) = or_else (g ''VLS_TRACING_ENDPOINT'') (tc_endpoint c)"
  "tc_insecure (tracing_env g c) = (if g ''VLS_TRACING_INSECURE'' = [] then tc_insecure c
    else g ''VLS_TRACING_INSECURE'' \<in> {''true'', ''1''})"
  "tc_service_name (tracing_env g c) = or_else (g ''VLS_TRACING_SERVICE_NAME'') (tc_service_name c)"
  "tc_sample_rate (tracing_env g c) = tc_sample_rate c"
  by (simp_all add: tracing_env_def override_def truthy_def or_else_def Let_def)

lemma rate_limit_env_fields:
  "rl_enabled (rate_limit_env g c) = (if g ''VLS_RATE_LIMIT_ENABLED'' = [] then rl_enabled c
    else g ''VLS_RATE_LIMIT_ENABLED'' \<in> {''true'', ''1''})"
  "rl_rpm (rate_limit_env g c) = (case atoi (g ''VLS_RATE_LIMIT_RPM'') of
      Some n \<Rightarrow> if 0 < n then n else rl_rpm c | None \<Rightarrow> rl_rpm c)"
  "rl_principal_rpm (rate_limit_env g c) = rl_principal_rpm c"
  by (auto simp: rate_limit_env_def override_def truthy_def atoi_def Let_def split: option.splits)

lemma cors_env_fields:
  "cc_enabled (cors_env g c) = (if g ''VLS_CORS_ENABLED'' = [] then cc_enabled c
    else g ''VLS_CORS_ENABLED'' \<in> {''true'', ''1''})"
  "cc_origins (cors_env g c) =
    (if g ''VLS_CORS_ORIGINS'' = [] then cc_origins c else split_byte (g ''VLS_CORS_ORIGINS'') (CHR '',''))"
  "cc_max_age (cors_env g c) = cc_max_age c"
  by (simp_all add: cors_env_def override_def truthy_def Let_def)

lemmas env_fields = auth_env_fields server_env_fields metrics_env_fields tracing_env_fields rate_limit_env_fields
  cors_env_fields engine_env_eq

text \<open>A configuration the server can run with.\<close>

definition config_ok :: "(engine_config \<Rightarrow> string option) \<Rightarrow> Config \<Rightarrow> bool" where
  "config_ok engine_validate c \<longleftrightarrow>
     (au_mode (cf_auth c) = ''none'' \<or> au_mode (cf_auth c) = ''api_key'' \<and> au_api_key (cf_auth c) \<noteq> [])
     \<and> (tls_cert_file (sv_tls (cf_server c)) = [] \<longleftrightarrow> tls_key_file (sv_tls (cf_server c)) = [])
     \<and> tls_min_version (sv_tls (cf_server c)) \<in> {[], ''1.2'', ''1.3''}
     \<and> (tc_enabled (cf_tracing c) \<longrightarrow> tc_endpoint (cf_tracing c) \<noteq> [])
     \<and> engine_validate (cf_engine c) = None"

lemma Validate_None_iff: "Validate ev c = None \<longleftrightarrow> config_ok ev c"
  by (auto simp: Validate_def validate_auth_def validate_tls_def config_ok_def split: option.splits)

lemma Load_Inr:
  assumes "Load ce path = Inr cfg"
  obtains cfg0 where "load_file ce path (Default (ce_engine_default ce)) = Inr cfg0"
    and "cfg = applyEnvOverrides (ce_getenv ce) cfg0" and "config_ok (ce_engine_validate ce) cfg"
  using assms that
  by (auto simp: Load_def Let_def Validate_None_iff split: sum.splits option.splits)

text \<open>
  The configuration before the environment: the defaults, over which the YAML file is decoded if
  one is named, can be read and can be parsed.
\<close>

definition configured :: "config_env \<Rightarrow> string \<Rightarrow> Config \<Rightarrow> bool" where
  "configured ce path cfg0 \<longleftrightarrow>
     (if path = [] then cfg0 = Default (ce_engine_default ce)
      else \<exists>data. ce_read_file ce path = Inr data \<and> ce_yaml ce data (Default (ce_engine_default ce)) = (None, cfg0))"

lemma configured_iff: "configured ce path cfg0 \<longleftrightarrow> load_file ce path (Default (ce_engine_default ce)) = Inr cfg0"
  by (auto simp: configured_def load_file_def split: sum.splits prod.splits option.splits)

lemma Load_configured:
  "configured ce path cfg0 \<Longrightarrow> Load ce path =
     (case Validate (ce_engine_validate ce) (applyEnvOverrides (ce_getenv ce) cfg0) of
        Some err \<Rightarrow> Inl err | None \<Rightarrow> Inr (applyEnvOverrides (ce_getenv ce) cfg0))"
  by (simp add: Load_def configured_iff Let_def)

text \<open>The settings that are validated, as the environment and the file give them.\<close>

definition auth_mode :: "config_env \<Rightarrow> Config \<Rightarrow> string" where
  "auth_mode ce c = or_else (ce_getenv ce ''VLS_AUTH_MODE'') (au_mode (cf_auth c))"

definition auth_key :: "config_env \<Rightarrow> Config \<Rightarrow> string" where
  "auth_key ce c = or_else (ce_getenv ce ''VLS_AUTH_API_KEY'') (au_api_key (cf_auth c))"

definition cert_file :: "config_env \<Rightarrow> Config \<Rightarrow> string" where
  "cert_file ce c = or_else (ce_getenv ce ''VLS_TLS_CERT_FILE'') (tls_cert_file (sv_tls (cf_server c)))"

definition key_file :: "config_env \<Rightarrow> Config \<Rightarrow> string" where
  "key_file ce c = or_else (ce_getenv ce ''VLS_TLS_KEY_FILE'') (tls_key_file (sv_tls (cf_server c)))"

definition traced :: "config_env \<Rightarrow> Config \<Rightarrow> bool" where
  "traced ce c \<longleftrightarrow> (if ce_getenv ce ''VLS_TRACING_ENABLED'' = [] then tc_enabled (cf_tracing c)
     else ce_getenv ce ''VLS_TRACING_ENABLED'' \<in> {''true'', ''1''})"

definition trace_endpoint :: "config_env \<Rightarrow> Config \<Rightarrow> string" where
  "trace_endpoint ce c = or_else (ce_getenv ce ''VLS_TRACING_ENDPOINT'') (tc_endpoint (cf_tracing c))"

lemmas setting_defs = auth_mode_def auth_key_def cert_file_def key_file_def traced_def trace_endpoint_def

lemma validated_settings:
  "au_mode (cf_auth (applyEnvOverrides (ce_getenv ce) c)) = auth_mode ce c"
  "au_api_key (cf_auth (applyEnvOverrides (ce_getenv ce) c)) = auth_key ce c"
  "tls_cert_file (sv_tls (cf_server (applyEnvOverrides (ce_getenv ce) c))) = cert_file ce c"
  "tls_key_file (sv_tls (cf_server (applyEnvOverrides (ce_getenv ce) c))) = key_file ce c"
  "tls_min_version (sv_tls (cf_server (applyEnvOverrides (ce_getenv ce) c))) = tls_min_version (sv_tls (cf_server c))"
  "tc_enabled (cf_tracing (applyEnvOverrides (ce_getenv ce) c)) = traced ce c"
  "tc_endpoint (cf_tracing (applyEnvOverrides (ce_getenv ce) c)) = trace_endpoint ce c"
  by (simp_all add: applyEnvOverrides_def env_fields setting_defs)

subsection \<open>Properties\<close>

text \<open>C37. What \<open>Load\<close> answers, from what the file system, the YAML decoder and the environment give
  it: a file that cannot be read or parsed is that error. Otherwise it succeeds exactly when the
  mode of authentication is \<open>none\<close>, or \<open>api_key\<close> with a key, the certificate and the key of TLS
  are both set or both not, the minimum version is unset, 1.2 or 1.3, enabled tracing has an
  endpoint, and the engine accepts its part; each read from its variable if that is set, and from
  the file or the defaults if not. When it fails, the error is that of the first of these checks
  that is not met, in this order.\<close>

theorem load_reports_first_problem:
  "(path \<noteq> [] \<and> ce_read_file ce path = Inl msg \<longrightarrow> Load ce path = Inl (ReadConfig msg))
   \<and> (path \<noteq> [] \<and> ce_read_file ce path = Inr data
        \<and> ce_yaml ce data (Default (ce_engine_default ce)) = (Some msg, junk) \<longrightarrow> Load ce path = Inl (ParseConfig msg))
   \<and> (configured ce path cfg0 \<longrightarrow>
       (case Load ce path of
          Inr cfg \<Rightarrow> (auth_mode ce cfg0 = ''none'' \<or> auth_mode ce cfg0 = ''api_key'' \<and> auth_key ce cfg0 \<noteq> [])
            \<and> (cert_file ce cfg0 = [] \<longleftrightarrow> key_file ce cfg0 = [])
            \<and> tls_min_version (sv_tls (cf_server cfg0)) \<in> {[], ''1.2'', ''1.3''}
            \<and> (traced ce cfg0 \<longrightarrow> trace_endpoint ce cfg0 \<noteq> [])
            \<and> ce_engine_validate ce (cf_engine cfg) = None
        | Inl err \<Rightarrow>
            (if auth_mode ce cfg0 \<notin> {''none'', ''api_key''} then err = UnknownAuthMode (auth_mode ce cfg0)
             else if auth_mode ce cfg0 = ''api_key'' \<and> auth_key ce cfg0 = [] then err = ApiKeyRequired
             else if cert_file ce cfg0 \<noteq> [] \<and> key_file ce cfg0 = [] then err = KeyFileRequired
             else if cert_file ce cfg0 = [] \<and> key_file ce cfg0 \<noteq> [] then err = CertFileRequired
             else if tls_min_version (sv_tls (cf_server cfg0)) \<notin> {[], ''1.2'', ''1.3''}
             then err = BadMinVersion (tls_min_version (sv_tls (cf_server cfg0)))
             else if traced ce cfg0 \<and> trace_endpoint ce cfg0 = [] then err = TracingEndpointRequired
             else \<exists>m. err = EngineConfig m \<and> ce_engine_validate ce (engine_env (ce_getenv ce) (cf_engine cfg0)) = Some m)))"
proof (intro conjI impI)
  assume "path \<noteq> [] \<and> ce_read_file ce path = Inl msg"
  then show "Load ce path = Inl (ReadConfig msg)" by (simp add: Load_def load_file_def)
next
  assume "path \<noteq> [] \<and> ce_read_file ce path = Inr data
    \<and> ce_yaml ce data (Default (ce_engine_default ce)) = (Some msg, junk)"
  then show "Load ce path = Inl (ParseConfig msg)" by (simp add: Load_def load_file_def)
next
  assume c: "configured ce path cfg0"
  let ?cfg = "applyEnvOverrides (ce_getenv ce) cfg0"
  have e: "cf_engine ?cfg = engine_env (ce_getenv ce) (cf_engine cfg0)" by (simp add: applyEnvOverrides_def)
  show "case Load ce path of
          Inr cfg \<Rightarrow> (auth_mode ce cfg0 = ''none'' \<or> auth_mode ce cfg0 = ''api_key'' \<and> auth_key ce cfg0 \<noteq> [])
            \<and> (cert_file ce cfg0 = [] \<longleftrightarrow> key_file ce cfg0 = [])
            \<and> tls_min_version (sv_tls (cf_server cfg0)) \<in> {[], ''1.2'', ''1.3''}
            \<and> (traced ce cfg0 \<longrightarrow> trace_endpoint ce cfg0 \<noteq> [])
            \<and> ce_engine_validate ce (cf_engine cfg) = None
        | Inl err \<Rightarrow>
            (if auth_mode ce cfg0 \<notin> {''none'', ''api_key''} then err = UnknownAuthMode (auth_mode ce cfg0)
             else if auth_mode ce cfg0 = ''api_key'' \<and> auth_key ce cfg0 = [] then err = ApiKeyRequired
             else if cert_file ce cfg0 \<noteq> [] \<and> key_file ce cfg0 = [] then err = KeyFileRequired
             else if cert_file ce cfg0 = [] \<and> key_file ce cfg0 \<noteq> [] then err = CertFileRequired
             else if tls_min_version (sv_tls (cf_server cfg0)) \<notin> {[], ''1.2'', ''1.3''}
             then err = BadMinVersion (tls_min_version (sv_tls (cf_server cfg0)))
             else if traced ce cfg0 \<and> trace_endpoint ce cfg0 = [] then err = TracingEndpointRequired
             else \<exists>m. err = EngineConfig m \<and> ce_engine_validate ce (engine_env (ce_getenv ce) (cf_engine cfg0)) = Some m)"
  proof (cases "Validate (ce_engine_validate ce) ?cfg")
    case None
    then have "config_ok (ce_engine_validate ce) ?cfg" by (simp add: Validate_None_iff)
    with None show ?thesis by (simp add: Load_configured [OF c] config_ok_def validated_settings)
  next
    case (Some err)
    then show ?thesis
      by (auto simp: Load_configured [OF c] Validate_def validate_auth_def validate_tls_def validated_settings e
          split: if_splits option.splits)
  qed
qed


definition sample_engine :: engine_config where
  "sample_engine = \<lparr>ec_database_url = ''postgres://db'', ec_database_max_conns = 10, ec_log_level = ''info'',
     ec_log_format = ''json'', ec_anthropic_key = [], ec_openai_key = [], ec_gemini_key = [],
     ec_llm_driver = ''anthropic'', ec_storage_driver = ''local'', ec_queue_driver = ''river'',
     ec_retrieval_strategy = ''chunked-tree'', ec_cache_enabled = False, ec_cache_ttl_seconds = 0,
     ec_cache_max_entries = 0,
     ec_storage = \<lparr>so_local_root = ''/data'', so_s3_endpoint = [], so_s3_region = [], so_s3_bucket = [],
       so_s3_access_key = [], so_s3_secret_key = [], so_s3_path_style = False, so_gcs_bucket = []\<rparr>,
     ec_queue = \<lparr>qo_qstash_token = [], qo_qstash_webhook_url = [], qo_qstash_current_key = [],
       qo_qstash_next_key = [], qo_river_workers = 4, qo_asynq_addr = [], qo_asynq_password = [], qo_asynq_db = 0,
       qo_asynq_concurrency = 0\<rparr>,
     ec_llm = \<lparr>lm_anthropic = (''sonnet'', ''opus''), lm_openai = ([], []), lm_gemini = ([], [])\<rparr>\<rparr>"

definition sample_config_env :: config_env where
  "sample_config_env = \<lparr>ce_engine_default = sample_engine, ce_engine_validate = (\<lambda>_. None),
     ce_read_file = (\<lambda>_. Inl ''no such file''), ce_yaml = (\<lambda>_ c. (None, c)),
     ce_getenv = (\<lambda>n. if n = ''VLS_AUTH_MODE'' then ''api_key''
        else if n = ''VLS_AUTH_API_KEY'' then ''sekrit'' else [])\<rparr>"

lemma sample_configured: "configured sample_config_env [] (Default sample_engine)"
  by (simp add: configured_def sample_config_env_def)

lemma sample_loaded: "Load sample_config_env [] = Inr (applyEnvOverrides (ce_getenv sample_config_env) (Default sample_engine))"
proof -
  have "config_ok (ce_engine_validate sample_config_env)
      (applyEnvOverrides (ce_getenv sample_config_env) (Default sample_engine))"
    by (simp add: config_ok_def applyEnvOverrides_def env_fields sample_config_env_def Default_def or_else_def)
  then show ?thesis
    unfolding Load_configured [OF sample_configured] by (simp add: Validate_None_iff [symmetric])
qed

lemma load_reports_first_problem_witness:
  "Load sample_config_env ''server.yaml'' = Inl (ReadConfig ''no such file'')
   \<and> (\<exists>cfg. Load sample_config_env [] = Inr cfg \<and> ce_engine_validate sample_config_env (cf_engine cfg) = None)"
proof
  show "Load sample_config_env ''server.yaml'' = Inl (ReadConfig ''no such file'')"
    using load_reports_first_problem [of "''server.yaml''" sample_config_env "''no such file''"]
    by (simp add: sample_config_env_def)
  show "\<exists>cfg. Load sample_config_env [] = Inr cfg \<and> ce_engine_validate sample_config_env (cf_engine cfg) = None"
    using load_reports_first_problem [of "[]" sample_config_env] sample_configured sample_loaded by fastforce
qed


end
