(* ===== verification/Sample_Services.thy ===== *)
theory Sample_Services
  imports Engine Sample_World
begin

text \<open>
  A concrete engine on which theorems are evaluated: one document with one section whose content
  is stored, every write succeeds, and the queue is QStash with a verifier that accepts one
  signature.
\<close>

definition sample_time :: go_time where
  "sample_time = \<lparr>t_year = 2024, t_month = 2, t_day = 29, t_hour = 12, t_min = 30, t_sec = 5,
     t_nsec = 120000000, t_off = 0\<rparr>"

definition sample_document :: document where
  "sample_document = \<lparr>d_id = ''doc-1'', d_org = ''org-a'', d_store = [], d_title = ''a.md'',
     d_content_type = ''text/markdown'', d_source_ref = ''src/doc-1'', d_status = ''ready'', d_byte_size = 5,
     d_error = [], d_metadata = None, d_created = sample_time, d_updated = sample_time\<rparr>"

definition sample_section :: doc_section where
  "sample_section = \<lparr>s_id = ''s1'', s_document = ''doc-1'', s_parent = [], s_ordinal = 0, s_depth = 1,
     s_title = ''Intro'', s_summary = ''sum'', s_token_count = 7, s_metadata = None, s_content_ref = ''c1''\<rparr>"

definition sample_tree :: tree where
  "sample_tree = \<lparr>tr_find = (\<lambda>i. if i = ''s1'' then Some sample_section else None),
     tr_view = \<lparr>tv_document = ''doc-1'', tv_title = ''a.md'', tv_sections = []\<rparr>\<rparr>"

definition not_found :: go_error where
  "not_found = \<lparr>ge_kind = ErrNotFound, ge_msg = ''not found''\<rparr>"

definition sample_db :: "'w database" where
  "sample_db = \<lparr>db_list = (\<lambda>c opts w. (Inr ([sample_document], zero_time), w)),
     db_new = (\<lambda>c doc w. (None, w)),
     db_get = (\<lambda>c i org store w. (if org = ''org-a'' then Inr sample_document else Inl not_found, w)),
     db_delete = (\<lambda>c i org store w. (if org = ''org-a'' then None else Some not_found, w)),
     db_count = (\<lambda>c i org store w. (Inr 1, w)),
     db_tree = (\<lambda>c i org store w. (if org = ''org-a'' then Inr sample_tree else Inl not_found, w)),
     db_section = (\<lambda>c i org store w. (if org = ''org-a'' then Inr sample_section else Inl not_found, w))\<rparr>"

definition sample_storage :: "'w storage" where
  "sample_storage = \<lparr>sto_put = (\<lambda>c key data meta w. (None, w)),
     sto_get = (\<lambda>c key w. (Inr \<lparr>bl_data = ''hello'', bl_size = 5, bl_error = None\<rparr>, w))\<rparr>"

definition sample_qstash :: "'w qstash" where
  "sample_qstash = \<lparr>qs_verify = Some (\<lambda>sig data url w.
       (if sig = ''good'' then None else Some \<lparr>ge_kind = ErrOther, ge_msg = ''bad signature''\<rparr>, w)),
     qs_base_url = ''https://x/'', qs_dispatch = (\<lambda>c kind payload w. (None, w))\<rparr>"

definition sample_usage :: usage where
  "sample_usage = \<lparr>us_input = 1, us_output = 2, us_total = 3, us_cost = 0, us_calls = 1\<rparr>"

definition sample_strategy :: "'w strategy" where
  "sample_strategy = \<lparr>sg_name = ''single-pass'',
     sg_select = (\<lambda>c t q b w. (Inr [''s1'', ''s1''], w)), sg_cost = None, sg_stream = None\<rparr>"

definition sample_deps :: "'w deps" where
  "sample_deps = \<lparr>dp_db = sample_db, dp_storage = sample_storage,
     dp_queue = \<lparr>q_enqueue = (\<lambda>c j w. (None, w)), q_qstash = Some sample_qstash\<rparr>,
     dp_strategy = Some sample_strategy, dp_multi = None, dp_version = ''dev'',
     dp_document_id = (\<lambda>w. (''doc-9'', w)), dp_source_key = (\<lambda>i f. i @ ''/'' @ f),
     dp_multipart = (\<lambda>r. Inl ''no boundary''), dp_json_error = (\<lambda>what b. ''bad json''),
     dp_float_text = (\<lambda>x. ''0''), dp_pending = ''pending'', dp_ingest_kind = ''ingest_document'',
     dp_event_name = (\<lambda>t. case t of EventStarted \<Rightarrow> ''started'' | EventSectionSelected \<Rightarrow> ''section_selected''
        | EventCompleted \<Rightarrow> ''completed'' | EventError \<Rightarrow> ''error'' | EventOther x \<Rightarrow> x),
     dp_payload = (\<lambda>i ct f key. i), dp_view_json = (\<lambda>v. JStr (tv_title v))\<rparr>"

end
