(* ===== verification/Router.thy ===== *)
theory Router
  imports Handler_Facts Server_Config Sample_Services
begin

text \<open>
  The router (\<open>internal/handler/router.go\<close>): the middleware stack in its order and the table of
  routes. The routing library is a parameter: a function from the registered middleware and
  the table to a handler. Two facts of its documentation are used. \<open>chi_use\<close>: the middleware wraps
  the router in the order of registration, and runs before a route is looked for.
  \<open>chi_dispatches\<close>: a request is handed to one of the handlers of the table, with the URL
  parameters in its context, or answered by the library itself (404 or 405).
\<close>

subsection \<open>Routes\<close>

datatype 'w route =
    Method string string "'w handler"
  | Handle string "'w handler"
  | Mount string "'w handler"
  | Route string "'w route list"

type_synonym 'w chi = "'w middleware list \<Rightarrow> 'w route list \<Rightarrow> 'w handler"

definition chi_use :: "'w chi \<Rightarrow> bool" where
  "chi_use chi \<longleftrightarrow> (\<forall>ms rs. chi ms rs = chain ms (chi [] rs))"

primrec route_handlers :: "'w route \<Rightarrow> 'w handler list" where
  "route_handlers (Method meth p h) = [h]"
| "route_handlers (Handle p h) = [h]"
| "route_handlers (Mount p h) = [h]"
| "route_handlers (Route p rs) = concat (map route_handlers rs)"

definition chi_dispatches :: "'w chi \<Rightarrow> bool" where
  "chi_dispatches chi \<longleftrightarrow>
     (\<forall>rs w r s.
        (\<exists>h \<in> set (concat (map route_handlers rs)). \<exists>p. chi [] rs w r s = h w (r\<lparr>r_params := p\<rparr>) s)
        \<or> (\<exists>hs code data. list_all is_header_op hs
             \<and> chi [] rs w r s = reply (hs @ [WriteHeader code, WriteBytes data]) s))"

text \<open>The handlers built by libraries: the three generated RPC services and the metrics page.\<close>

record 'w mounts =
  mn_health :: "string \<times> 'w handler"
  mn_documents :: "string \<times> 'w handler"
  mn_query :: "string \<times> 'w handler"
  mn_prometheus :: "'w handler"

definition routes :: "'w env \<Rightarrow> 'w deps \<Rightarrow> 'w mounts \<Rightarrow> Config \<Rightarrow> 'w route list" where
  "routes e d m cfg =
     [Mount (fst (mn_health m)) (snd (mn_health m)),
      Mount (fst (mn_documents m)) (snd (mn_documents m)),
      Mount (fst (mn_query m)) (snd (mn_query m))] @
     (if mt_enabled (cf_metrics cfg) then [Handle ''/metrics'' (mn_prometheus m)] else []) @
     [Route ''/v1''
        [Method ''GET'' ''/health'' HandleHealth,
         Method ''GET'' ''/version'' (HandleVersion (dp_version d)),
         Route ''/documents''
           [Method ''GET'' ''/'' (HandleListDocuments d),
            Method ''POST'' ''/'' (HandleIngestDocument d),
            Method ''GET'' ''/{id}'' (HandleGetDocument d),
            Method ''DELETE'' ''/{id}'' (HandleDeleteDocument d),
            Method ''GET'' ''/{id}/tree'' (HandleGetTree d),
            Method ''GET'' ''/{id}/source'' (HandleGetDocumentSource d)],
         Method ''GET'' ''/sections/{id}'' (HandleGetSection d),
         Route ''/query''
           [Method ''POST'' ''/'' (HandleQuery e d),
            Method ''POST'' ''/stream'' (HandleQueryStream e d),
            Method ''POST'' ''/multi'' (HandleQueryMulti e d),
            Method ''POST'' ''/multi/stream'' (HandleQueryStreamMulti e d)]],
      Method ''POST'' ''/internal/jobs/{kind}'' (HandleQueueWebhook d)]"

subsection \<open>The middleware stack\<close>

definition router_auth :: "Config \<Rightarrow> authenticator" where
  "router_auth cfg =
     (if au_mode (cf_auth cfg) = ''api_key''
      then StaticAPIKey (NewStaticAPIKey (au_api_key (cf_auth cfg))) else NoAuth)"

definition edge_stack :: "'w env \<Rightarrow> Config \<Rightarrow> 'w middleware list" where
  "edge_stack e cfg =
     (if cc_enabled (cf_cors cfg)
      then [CORS \<lparr>co_origins = cc_origins (cf_cors cfg), co_max_age = cc_max_age (cf_cors cfg)\<rparr>] else []) @
     [RequestID e, RealIP, Recovery, AccessLog e] @
     (if mt_enabled (cf_metrics cfg) then [Metrics e] else []) @
     (if tc_enabled (cf_tracing cfg) then [Tracing e] else [])"

definition inner_stack :: "'w env \<Rightarrow> Config \<Rightarrow> 'w middleware list" where
  "inner_stack e cfg =
     (if rl_enabled (cf_rate_limit cfg) then [RateLimit e (rl_rpm (cf_rate_limit cfg))] else []) @
     (if rl_principal_rpm (cf_rate_limit cfg) > 0
      then [PrincipalRateLimit e (rl_principal_rpm (cf_rate_limit cfg))] else []) @
     [MaxBodySize (gv_max_body (cf_governance cfg)),
      EndpointTimeout e (gv_default_timeout (cf_governance cfg)) (gv_query_timeout (cf_governance cfg)),
      Idempotency e \<lparr>ic_ttl = 0, ic_prefixes = []\<rparr>]"

definition stack :: "'w env \<Rightarrow> Config \<Rightarrow> 'w middleware list" where
  "stack e cfg = edge_stack e cfg @ [Auth (router_auth cfg)] @ inner_stack e cfg"

definition Router :: "'w chi \<Rightarrow> 'w env \<Rightarrow> 'w deps \<Rightarrow> 'w mounts \<Rightarrow> Config \<Rightarrow> 'w handler" where
  "Router chi e d m cfg = chi (stack e cfg) (routes e d m cfg)"

text \<open>The state the middleware starts with: its buckets and its cache are made when it is built.\<close>

definition router_state :: "'w env \<Rightarrow> Config \<Rightarrow> 'w \<Rightarrow> 'w st" where
  "router_state e cfg w =
     (let (now, w1) = time_now e w in
      \<lparr>st_world = w1, st_bucket = new_bucket (rl_rpm (cf_rate_limit cfg)) now,
       st_store = new_store (rl_principal_rpm (cf_rate_limit cfg)), st_idem = (\<lambda>_. None), st_log = [],
       st_panics = [], st_metrics = \<lparr>m_requests = (\<lambda>_. 0), m_durations = (\<lambda>_. []), m_bytes = (\<lambda>_. 0)\<rparr>,
       st_spans = []\<rparr>)"

subsection \<open>Facts\<close>

lemma Router_chain:
  "chi_use chi \<Longrightarrow> Router chi e d m cfg = chain (stack e cfg) (chi [] (routes e d m cfg))"
  unfolding Router_def chi_use_def by blast

lemma edge_stack_local: "stable P \<Longrightarrow> list_all (local_on P) (edge_stack e cfg)"
  by (simp add: edge_stack_def cors.edge_local request_id.edge_local real_ip.edge_local
      recovery.edge_local access_log.edge_local metrics_mw.edge_local tracing.edge_local)

lemma edge_stack_answer:
  "stable P \<Longrightarrow> \<forall>r. P r \<longrightarrow> r_method r \<noteq> ''OPTIONS'' \<Longrightarrow> list_all (keeps_answer P) (edge_stack e cfg)"
  by (simp add: edge_stack_def cors_status.edge_answer request_id_status.edge_answer
      real_ip_status.edge_answer recovery_status.edge_answer access_log_status.edge_answer
      metrics_status.edge_answer tracing_status.edge_answer)

lemma stack_chain: "chain (stack e cfg) h = chain (edge_stack e cfg) (Auth (router_auth cfg) (chain (inner_stack e cfg) h))"
  by (simp add: stack_def)

text \<open>The stack around the access log.\<close>

definition outer_edges :: "'w env \<Rightarrow> Config \<Rightarrow> 'w middleware list" where
  "outer_edges e cfg =
     (if cc_enabled (cf_cors cfg)
      then [CORS \<lparr>co_origins = cc_origins (cf_cors cfg), co_max_age = cc_max_age (cf_cors cfg)\<rparr>] else []) @
     [RequestID e, RealIP, Recovery]"

definition below_log :: "'w env \<Rightarrow> Config \<Rightarrow> 'w middleware list" where
  "below_log e cfg =
     (if mt_enabled (cf_metrics cfg) then [Metrics e] else []) @
     (if tc_enabled (cf_tracing cfg) then [Tracing e] else [])"

lemma chain_edge_stack:
  "chain (edge_stack e cfg) h = chain (outer_edges e cfg) (AccessLog e (chain (below_log e cfg) h))"
  by (simp add: edge_stack_def outer_edges_def below_log_def)

lemma outer_preserves:
  assumes "\<And>c. preserves Q (CORS c)" "preserves Q (RequestID e)" "preserves Q RealIP" "preserves Q Recovery"
    and "Q (AccessLog e h)"
  shows "Q (chain (outer_edges e cfg) (AccessLog e h))"
  using assms by (intro chain_preserves [where Q = Q]) (simp_all add: outer_edges_def)

text \<open>A property that everything behind the access log preserves.\<close>

lemma behind_log:
  assumes "preserves Q (Metrics e)" "preserves Q (Tracing e)" "preserves Q (Auth (router_auth cfg))"
    and "list_all (preserves Q) (inner_stack e cfg)" "Q h"
  shows "Q (chain (below_log e cfg) (Auth (router_auth cfg) (chain (inner_stack e cfg) h)))"
proof -
  have "Q (chain (inner_stack e cfg) h)"
    using assms(4,5) by (intro chain_preserves [where Q = Q])
  then have "Q (Auth (router_auth cfg) (chain (inner_stack e cfg) h))"
    using assms(3) by (simp add: preserves_def)
  then show ?thesis
    using assms(1,2) by (intro chain_preserves [where Q = Q]) (simp_all add: below_log_def)
qed

lemma inner_stack_quiet: "list_all (preserves quiet) (inner_stack e cfg)"
  by (simp add: inner_stack_def quiet_RateLimit quiet_PrincipalRateLimit quiet_MaxBodySize
      quiet_EndpointTimeout quiet_Idempotency)

lemma inner_stack_unflushed: "list_all (preserves unflushed) (inner_stack e cfg)"
  by (simp add: inner_stack_def unflushed_RateLimit unflushed_PrincipalRateLimit
      unflushed_MaxBodySize unflushed_EndpointTimeout unflushed_Idempotency)

text \<open>What the routing library and the handlers it calls do below the middleware.\<close>

abbreviation dispatch :: "'w chi \<Rightarrow> 'w env \<Rightarrow> 'w deps \<Rightarrow> 'w mounts \<Rightarrow> Config \<Rightarrow> 'w handler" where
  "dispatch chi e d m cfg \<equiv> chi [] (routes e d m cfg)"

text \<open>
  A panic that reaches the recovery is turned into a normal return and noted; if nothing was
  committed before it, the answer is a 500.
\<close>

lemma below_recovery:
  assumes "list_all (preserves Q) [AccessLog e, Metrics e, Tracing e]" "Q h"
  shows "Q (AccessLog e (chain (below_log e cfg) h))"
proof -
  have "Q (chain (AccessLog e # below_log e cfg) h)"
    using assms by (intro chain_preserves [where Q = Q]) (simp_all add: below_log_def)
  then show ?thesis by simp
qed

definition above_recovery :: "'w env \<Rightarrow> Config \<Rightarrow> 'w middleware list" where
  "above_recovery e cfg =
     (if cc_enabled (cf_cors cfg)
      then [CORS \<lparr>co_origins = cc_origins (cf_cors cfg), co_max_age = cc_max_age (cf_cors cfg)\<rparr>] else []) @
     [RequestID e, RealIP]"

lemma chain_recovery:
  "chain (edge_stack e cfg) h =
     chain (above_recovery e cfg) (Recovery (AccessLog e (chain (below_log e cfg) h)))"
  by (simp add: chain_edge_stack outer_edges_def above_recovery_def)

lemma panic_edges:
  assumes "stable P" "\<forall>r. P r \<longrightarrow> r_method r \<noteq> ''OPTIONS''" "ends_in P Panicked h"
  shows "ends_in P Done (chain (edge_stack e cfg) h)"
    and "(\<And>r. P r \<Longrightarrow> r_method r = meth \<and> r_path r = path) \<Longrightarrow> notes_panic P meth path (chain (edge_stack e cfg) h)"
proof -
  let ?in = "AccessLog e (chain (below_log e cfg) h)"
  have i: "ends_in P Panicked ?in"
    using assms(3) by (intro below_recovery [where Q = "ends_in P Panicked"]) (simp_all add: panic_below [OF assms(1)])
  then have "ends_in P Done (Recovery ?in)"
    by (intro ends_inI) (auto simp: Recovery_def Let_def split: prod.splits outcome.splits dest!: ends_inD)
  then show "ends_in P Done (chain (edge_stack e cfg) h)"
    unfolding chain_recovery by (intro chain_preserves [where Q = "ends_in P Done"])
      (simp_all add: above_recovery_def done_above(1,2) [OF assms(1)] done_above(3) [OF assms(1,2)])
  assume "\<And>r. P r \<Longrightarrow> r_method r = meth \<and> r_path r = path"
  with i have "notes_panic P meth path (Recovery ?in)" by (rule notes_panic_Recovery)
  then show "notes_panic P meth path (chain (edge_stack e cfg) h)"
    unfolding chain_recovery by (intro chain_preserves [where Q = "notes_panic P meth path"])
      (simp_all add: above_recovery_def notes_panic_above(1,2) [OF assms(1)] notes_panic_above(3) [OF assms(1,2)])
qed

lemma fresh_panic_answer:
  assumes "stable P" "\<forall>r. P r \<longrightarrow> r_method r \<noteq> ''OPTIONS''" "fresh_panic P h" "P r"
  shows "answers 500 (''{\"error\":\"internal server error\"}'' @ nl) (chain (edge_stack e cfg) h w r s)"
proof -
  have "fresh_panic P (AccessLog e (chain (below_log e cfg) h))"
    using assms(3) by (intro below_recovery [where Q = "fresh_panic P"]) (simp_all add: fresh_panic_below)
  then have "\<forall>w r s. P r \<longrightarrow> answers 500 (''{\"error\":\"internal server error\"}'' @ nl)
      (Recovery (AccessLog e (chain (below_log e cfg) h)) w r s)"
    using recovered_panic by blast
  moreover have "list_all (keeps_answer P) (above_recovery e cfg)"
    using assms(1,2) by (simp add: above_recovery_def cors_status.edge_answer request_id_status.edge_answer
        real_ip_status.edge_answer)
  ultimately show ?thesis
    unfolding chain_recovery using assms(4) by (intro chain_keeps_answer)
qed

lemma dispatch_quiet:
  assumes "chi_dispatches chi" "\<forall>h \<in> {snd (mn_health m), snd (mn_documents m), snd (mn_query m), mn_prometheus m}. quiet h"
  shows "quiet (dispatch chi e d m cfg)"
  unfolding quiet_def
proof (intro allI)
  fix w r s
  have q: "\<forall>h \<in> set (concat (map route_handlers (routes e d m cfg))). quiet h"
    using assms(2) by (auto simp: routes_def intro!: world_only_quiet world_only_documents world_only_health
        world_only_webhook world_only_query world_only_multi world_only_stream world_only_stream_multi)
  show "st_log (res_state (dispatch chi e d m cfg w r s)) = st_log s"
    using assms(1) [unfolded chi_dispatches_def, rule_format, of "routes e d m cfg" w r s] q
    by (fastforce simp: quiet_def)
qed

lemma header_op_no_flush: "list_all is_header_op hs \<Longrightarrow> Flush \<notin> set hs"
  by (auto simp: list_all_iff)

lemma dispatch_unflushed:
  assumes "chi_dispatches chi" "\<forall>h \<in> {snd (mn_health m), snd (mn_documents m), snd (mn_query m), mn_prometheus m}. unflushed h"
  shows "unflushed (dispatch chi e d m cfg)"
  unfolding unflushed_def
proof (intro allI impI)
  fix w :: writer and r s
  assume w: "\<not> w_flusher w"
  have q: "\<forall>h \<in> set (concat (map route_handlers (routes e d m cfg))). unflushed h"
    using assms(2) by (auto simp: routes_def unflushed_documents unflushed_health
        unflushed_webhook unflushed_query unflushed_stream)
  show "Flush \<notin> set (res_ops (dispatch chi e d m cfg w r s))"
    using assms(1) [unfolded chi_dispatches_def, rule_format, of "routes e d m cfg" w r s]
  proof (elim disjE bexE exE conjE)
    fix h p
    assume "h \<in> set (concat (map route_handlers (routes e d m cfg)))"
      and "dispatch chi e d m cfg w r s = h w (r\<lparr>r_params := p\<rparr>) s"
    with q w show ?thesis by (auto simp: unflushed_def)
  next
    fix hs code data
    assume "list_all is_header_op hs"
      and "dispatch chi e d m cfg w r s = reply (hs @ [WriteHeader code, WriteBytes data]) s"
    then show ?thesis by (simp add: header_op_no_flush)
  qed
qed

subsection \<open>A routing library\<close>

text \<open>A small instance of the parameter, for evaluation: literal patterns, first match.\<close>

fun find_route :: "string \<Rightarrow> 'w route list \<Rightarrow> string \<Rightarrow> 'w handler option"
and find_in :: "string \<Rightarrow> 'w route \<Rightarrow> string \<Rightarrow> 'w handler option" where
  "find_route meth [] path = None"
| "find_route meth (x # xs) path =
     (case find_in meth x path of Some h \<Rightarrow> Some h | None \<Rightarrow> find_route meth xs path)"
| "find_in meth (Method m p h) path = (if m = meth \<and> p = path then Some h else None)"
| "find_in meth (Handle p h) path = (if p = path then Some h else None)"
| "find_in meth (Mount p h) path = (if has_prefix path p then Some h else None)"
| "find_in meth (Route p xs) path =
     (if has_prefix path p
      then find_route meth xs (if drop (length p) path = [] then ''/'' else drop (length p) path) else None)"

definition sample_chi :: "'w chi" where
  "sample_chi ms rs =
     chain ms (\<lambda>w r s. case find_route (r_method r) rs (r_path r) of
        Some h \<Rightarrow> h w (r\<lparr>r_params := \<lambda>_. []\<rparr>) s
      | None \<Rightarrow> reply ([] @ [WriteHeader 404, WriteBytes ''404 page not found'']) s)"

lemma sample_chi_use: "chi_use sample_chi"
  by (simp add: chi_use_def sample_chi_def)

lemma find_route_handlers:
  "find_route meth rs path = Some h \<Longrightarrow> h \<in> set (concat (map route_handlers rs))"
  "find_in meth x path = Some h \<Longrightarrow> h \<in> set (route_handlers x)"
  by (induction meth rs path and meth x path rule: find_route_find_in.induct)
    (auto split: option.splits if_splits)

lemma sample_chi_dispatches: "chi_dispatches sample_chi"
  unfolding chi_dispatches_def
proof (intro allI)
  fix rs :: "'a route list" and w r and s :: "'a st"
  show "(\<exists>h \<in> set (concat (map route_handlers rs)). \<exists>p. sample_chi [] rs w r s = h w (r\<lparr>r_params := p\<rparr>) s)
    \<or> (\<exists>hs code data. list_all is_header_op hs
         \<and> sample_chi [] rs w r s = reply (hs @ [WriteHeader code, WriteBytes data]) s)"
  proof (cases "find_route (r_method r) rs (r_path r)")
    case None
    then show ?thesis
      by (intro disjI2 exI [of _ "[]"] exI [of _ 404] exI [of _ "''404 page not found''"])
        (simp add: sample_chi_def)
  next
    case (Some h)
    with find_route_handlers(1) [OF Some] show ?thesis
      by (intro disjI1 bexI [of _ h] exI [of _ "\<lambda>_. []"]) (simp_all add: sample_chi_def)
  qed
qed

definition sample_mounts :: "'w mounts" where
  "sample_mounts = \<lparr>mn_health = (''/panics/'', \<lambda>w r s. (s, [], Panicked)),
     mn_documents = (''/internal/panics/'', \<lambda>w r s. (s, [], Panicked)),
     mn_query = (''/rpc/'', fixed_handler 200 ''{}''), mn_prometheus = fixed_handler 200 ''# metrics''\<rparr>"

definition key_config :: Config where
  "key_config = (Default sample_engine)\<lparr>cf_auth := \<lparr>au_mode = ''api_key'', au_api_key = ''sekrit''\<rparr>\<rparr>"

lemma key_config_simps:
  "au_mode (cf_auth key_config) = ''api_key''" "au_api_key (cf_auth key_config) = ''sekrit''"
  "cc_enabled (cf_cors key_config)" "cc_origins (cf_cors key_config) = [''*'']"
  "router_auth (Default sample_engine) = NoAuth"
  "\<not> rl_enabled (cf_rate_limit (Default sample_engine))"
  "rl_principal_rpm (cf_rate_limit (Default sample_engine)) \<le> 0"
  by (simp_all add: key_config_def Default_def router_auth_def)

lemma sample_mounts_ok:
  "\<forall>h \<in> {snd (mn_health sample_mounts), snd (mn_documents sample_mounts), snd (mn_query sample_mounts),
     mn_prometheus sample_mounts}. quiet h"
  "\<forall>h \<in> {snd (mn_health sample_mounts), snd (mn_documents sample_mounts), snd (mn_query sample_mounts),
     mn_prometheus sample_mounts}. unflushed h"
  by (simp_all add: sample_mounts_def quiet_def unflushed_def fixed_handler_def)

subsection \<open>Properties\<close>

text \<open>C1. The API-key gate: with auth mode \<open>api_key\<close>, a request that is no preflight, is not for an
  excluded path and does not carry exactly the configured key as its bearer token is answered
  with 401, and nothing behind the gate runs: the result does not depend on the engine, on the
  mounted services or on what their handlers do.\<close>

theorem api_key_gate:
  assumes "chi_use chi" "au_mode (cf_auth cfg) = ''api_key''"
    and "unauthenticated (au_api_key (cf_auth cfg)) r" "r_method r \<noteq> ''OPTIONS''"
  shows "rs_status (response (Router chi e d m cfg w r s)) = 401
    \<and> res_outcome (Router chi e d m cfg w r s) = Done
    \<and> Router chi e d m cfg w r s = Router chi e d' m' cfg w r s"
proof -
  let ?key = "au_api_key (cf_auth cfg)"
  let ?sk = "NewStaticAPIKey ?key"
  have auth: "router_auth cfg = StaticAPIKey ?sk" using assms(2) by (simp add: router_auth_def)
  obtain msg where msg: "StaticAPIKey_Authenticate ?sk r = Inl msg"
    using assms(3) api_key_accepts_iff [of ?sk r]
    by (cases "StaticAPIKey_Authenticate ?sk r") (auto simp: unauthenticated_def NewStaticAPIKey_def)
  define P where "P = (\<lambda>r'. \<not> excluded (r_path r') \<and> r_method r' \<noteq> ''OPTIONS''
      \<and> StaticAPIKey_Authenticate ?sk r' = Inl msg)"
  have st: "stable P" by (simp add: stable_def P_def StaticAPIKey_Authenticate_def)
  have P: "P r" using assms(3,4) msg by (simp add: P_def unauthenticated_def)
  have reject: "Auth (StaticAPIKey ?sk) h w r s = reply (http_error (auth_error_body msg) 401) s"
    if "P r" for h w r s
    using that by (simp add: Auth_def P_def)
  have blocks: "blocks_on P (Auth (StaticAPIKey ?sk))"
    by (rule blocks_onI) (simp add: reject)
  have "Router chi e d m cfg w r s = Router chi e d' m' cfg w r s"
    unfolding Router_chain [OF assms(1)] stack_chain auth
    by (rule blocked_by_chain [OF blocks edge_stack_local [OF st] P])
  moreover have "answers 401 (auth_error_body msg @ nl) (Router chi e d m cfg w r s)"
    unfolding Router_chain [OF assms(1)] stack_chain auth
  proof (rule chain_keeps_answer [OF edge_stack_answer [OF st] _ P])
    show "\<forall>w r s. P r \<longrightarrow> answers 401 (auth_error_body msg @ nl) (Auth (StaticAPIKey ?sk)
        (chain (inner_stack e cfg) (dispatch chi e d m cfg)) w r s)"
      by (auto simp: reject answers_def http_error_def respond_def trace_simps write_header_def
          ensure_header_def body_allowed_def Let_def)
  qed (simp add: P_def)
  ultimately show ?thesis by (simp add: answers_def)
qed

lemma api_key_gate_witness:
  "rs_status (response (Router sample_chi sample_env sample_deps sample_mounts key_config plain_writer
     (sample_request ''GET'' ''/v1/documents'' [] []) sample_state)) = 401"
proof -
  let ?r = "sample_request ''GET'' ''/v1/documents'' [] []"
  have "hget (r_header ?r) ''Authorization'' = []"
    by (simp add: sample_request_def hget_def)
  then have u: "unauthenticated (au_api_key (cf_auth key_config)) ?r"
    by (simp add: unauthenticated_def bearer_def excluded_iff key_config_simps has_prefix_def)
  show ?thesis
    using api_key_gate [OF sample_chi_use key_config_simps(1) u, of sample_env sample_deps sample_mounts
        plain_writer sample_state] by simp
qed

text \<open>C30. A preflight request is answered by the CORS middleware alone, before authentication and
  limits, with 204 and with the state unchanged; the origin it allows is the wildcard only
  when the configuration allows every origin, and otherwise is the request's own origin and on
  the configured list.\<close>

theorem preflight_is_answered_first:
  assumes "chi_use chi" "cc_enabled (cf_cors cfg)" "r_method r = ''OPTIONS''"
  shows "\<exists>ops allowed. Router chi e d m cfg w r s = (s, ops, Done) \<and> rs_status (respond ops) = 204
    \<and> hget (rs_sent (respond ops)) ''Access-Control-Allow-Origin'' = allowed
    \<and> (allowed = ''*'' \<longrightarrow> cc_origins (cf_cors cfg) = [] \<or> ''*'' \<in> set (cc_origins (cf_cors cfg)))
    \<and> (allowed \<noteq> [] \<and> allowed \<noteq> ''*'' \<longrightarrow>
         allowed = hget (r_header r) ''Origin'' \<and> allowed \<in> set (cc_origins (cf_cors cfg)))"
proof -
  let ?c = "\<lparr>co_origins = cc_origins (cf_cors cfg), co_max_age = cc_max_age (cf_cors cfg)\<rparr>"
  let ?a = "cors_origin ?c r"
  let ?hs = "cors_headers ?c ?a"
  have run: "Router chi e d m cfg w r s = (s, ?hs @ [WriteHeader 204], Done)"
    using assms by (simp add: Router_chain stack_def edge_stack_def CORS_def reply_def)
  have "rs_status (respond (?hs @ WriteHeader 204 # [])) = 204"
    by (rule respond_status) (simp_all add: cors_headers_ops)
  moreover have "hget (rs_sent (respond (?hs @ [WriteHeader 204]))) ''Access-Control-Allow-Origin'' = ?a"
    by (rule cors_preflight_origin)
  moreover have "?a = ''*'' \<Longrightarrow> cc_origins (cf_cors cfg) = [] \<or> ''*'' \<in> set (cc_origins (cf_cors cfg))"
    by (auto simp: cors_origin_def cors_allow_all_def Let_def split: if_splits)
  moreover have "?a \<noteq> [] \<Longrightarrow> ?a \<noteq> ''*'' \<Longrightarrow>
      ?a = hget (r_header r) ''Origin'' \<and> ?a \<in> set (cc_origins (cf_cors cfg))"
    by (auto simp: cors_origin_def Let_def split: if_splits)
  ultimately show ?thesis using run by (intro exI [of _ "?hs @ [WriteHeader 204]"] exI [of _ ?a]) simp
qed

lemma preflight_is_answered_first_witness:
  "\<exists>ops. Router sample_chi sample_env sample_deps sample_mounts key_config plain_writer
     (sample_request ''OPTIONS'' ''/v1/documents'' [] []) sample_state = (sample_state, ops, Done)
     \<and> rs_status (respond ops) = 204"
  using preflight_is_answered_first [OF sample_chi_use key_config_simps(3),
      of "sample_request ''OPTIONS'' ''/v1/documents'' [] []" sample_env sample_deps sample_mounts
      plain_writer sample_state] by auto

text \<open>Without authentication and limits, what is between the edge and the endpoint changes no panic but
  by raising it on a goroutine of its own.\<close>

lemma open_stack_panics:
  assumes "router_auth cfg = NoAuth" "\<not> rl_enabled (cf_rate_limit cfg)" "rl_principal_rpm (cf_rate_limit cfg) \<le> 0"
    and "idem_key r = []" "\<forall>w r' s. r_method r' = r_method r \<and> r_path r' = r_path r \<longrightarrow> res_outcome (h w r' s) = Panicked"
  shows "res_outcome (Auth (router_auth cfg) (chain (inner_stack e cfg) h) w r s) =
    (if isInternalPath (r_path r) then Panicked else Crashed)"
  using assms
  by (auto simp: inner_stack_def Auth_def NoAuth_Authenticate_def MaxBodySize_def EndpointTimeout_def
      Idempotency_passes idem_applies_def Let_def split: option.splits prod.splits)

lemma open_stack_commits:
  assumes "router_auth cfg = NoAuth" "\<not> rl_enabled (cf_rate_limit cfg)" "rl_principal_rpm (cf_rate_limit cfg) \<le> 0"
    and "idem_key r = []" "\<forall>w r' s. r_method r' = r_method r \<and> r_path r' = r_path r \<longrightarrow> \<not> commits (res_ops (h w r' s))"
    and "isInternalPath (r_path r)"
  shows "\<not> commits (res_ops (Auth (router_auth cfg) (chain (inner_stack e cfg) h) w r s))"
  using assms
  by (auto simp: inner_stack_def Auth_def NoAuth_Authenticate_def MaxBodySize_def EndpointTimeout_def
      Idempotency_passes idem_applies_def Let_def split: option.splits prod.splits)

text \<open>C29. A panic in a handler, without authentication and rate limits, for a request that is no
  preflight and has no idempotency key: on a path outside \<open>/internal/\<close> it ends the process, because
  the timeout middleware runs the handler on a goroutine of its own that the Recovery middleware
  does not cover. On an \<open>/internal/\<close> path the request returns, the panic is noted last with its
  method and path, and the client is answered 500 with the JSON error text, unless the handler
  had committed another status before it panicked.\<close>

theorem panic_is_recovered_only_on_internal_paths:
  assumes "chi_use chi" "r_method r \<noteq> ''OPTIONS''" "router_auth cfg = NoAuth"
    and "\<not> rl_enabled (cf_rate_limit cfg)" "rl_principal_rpm (cf_rate_limit cfg) \<le> 0"
    and "idem_key r = []"
    and "\<forall>w r' s. r_method r' = r_method r \<and> r_path r' = r_path r \<longrightarrow>
      res_outcome (dispatch chi e d m cfg w r' s) = Panicked"
  shows "if isInternalPath (r_path r)
    then res_outcome (Router chi e d m cfg w r s) = Done
      \<and> (\<exists>pes pe. st_panics (res_state (Router chi e d m cfg w r s)) = pes @ [pe]
          \<and> pe_method pe = r_method r \<and> pe_path pe = r_path r)
      \<and> ((\<forall>w r' s. r_method r' = r_method r \<and> r_path r' = r_path r \<longrightarrow>
              \<not> commits (res_ops (dispatch chi e d m cfg w r' s))) \<longrightarrow>
          rs_status (response (Router chi e d m cfg w r s)) = 500
          \<and> rs_body (response (Router chi e d m cfg w r s)) = ''{\"error\":\"internal server error\"}'' @ nl)
    else res_outcome (Router chi e d m cfg w r s) = Crashed"
proof -
  define P where "P = (\<lambda>r'. r_method r' = r_method r \<and> idem_key r' = [] \<and> r_path r' = r_path r)"
  have st: "stable P" by (simp add: stable_def P_def)
  have P: "P r" using assms by (simp add: P_def)
  let ?h = "dispatch chi e d m cfg"
  define outer where "outer = Auth (router_auth cfg) (chain (inner_stack e cfg) ?h)"
  have inner: "res_outcome (outer w r' s) = (if isInternalPath (r_path r) then Panicked else Crashed)" if "P r'" for w r' s
    using that assms(7) open_stack_panics [OF assms(3-5), of r' ?h] by (simp add: P_def outer_def)
  have run: "Router chi e d m cfg w r s = chain (edge_stack e cfg) outer w r s"
    by (simp add: Router_chain [OF assms(1)] stack_chain outer_def)
  have opt: "\<forall>r. P r \<longrightarrow> r_method r \<noteq> ''OPTIONS''" using assms(2) by (simp add: P_def)
  show ?thesis
  proof (cases "isInternalPath (r_path r)")
    case False
    have "ends_in P Crashed outer" using inner False by (simp add: ends_in_def)
    moreover have "list_all (preserves (ends_in P Crashed)) (edge_stack e cfg)"
      by (simp add: edge_stack_def crash_edges [OF st] crash_edges(7) [OF st opt])
    ultimately have "ends_in P Crashed (chain (edge_stack e cfg) outer)" by (intro chain_preserves [where Q = "ends_in P Crashed"])
    with P False show ?thesis by (simp add: run ends_in_def)
  next
    case True
    have panics: "ends_in P Panicked outer" using inner True by (simp add: ends_in_def)
    have done_: "ends_in P Done (chain (edge_stack e cfg) outer)"
      by (rule panic_edges(1) [OF st opt panics])
    have "notes_panic P (r_method r) (r_path r) (chain (edge_stack e cfg) outer)"
      by (rule panic_edges(2) [OF st opt panics]) (simp add: P_def)
    moreover have "answers 500 (''{\"error\":\"internal server error\"}'' @ nl) (chain (edge_stack e cfg) outer w r s)"
      if "\<forall>w r' s. r_method r' = r_method r \<and> r_path r' = r_path r \<longrightarrow> \<not> commits (res_ops (?h w r' s))"
    proof (rule fresh_panic_answer [OF st opt _ P])
      have "\<not> commits (res_ops (outer w r' s))" if "P r'" for w r' s
        using that True \<open>\<forall>w r' s. r_method r' = r_method r \<and> r_path r' = r_path r \<longrightarrow> \<not> commits (res_ops (?h w r' s))\<close>
          open_stack_commits [OF assms(3-5), of r' ?h] by (simp add: P_def outer_def)
      with panics show "fresh_panic P outer" by (simp add: fresh_panic_def ends_in_def)
    qed
    ultimately show ?thesis
      using P True done_ by (simp add: run ends_in_def notes_panic_def answers_def)
  qed
qed

lemma panic_is_recovered_only_on_internal_paths_witness:
  "res_outcome (Router sample_chi sample_env sample_deps sample_mounts (Default sample_engine) plain_writer
     (sample_request ''GET'' ''/panics/x'' [] []) sample_state) = Crashed
   \<and> res_outcome (Router sample_chi sample_env sample_deps sample_mounts (Default sample_engine) plain_writer
     (sample_request ''GET'' ''/internal/panics/x'' [] []) sample_state) = Done
   \<and> rs_status (response (Router sample_chi sample_env sample_deps sample_mounts (Default sample_engine) plain_writer
     (sample_request ''GET'' ''/internal/panics/x'' [] []) sample_state)) = 500"
proof -
  let ?r = "sample_request ''GET'' ''/panics/x'' [] []"
  let ?q = "sample_request ''GET'' ''/internal/panics/x'' [] []"
  have p: "\<forall>w r' s. r_method r' = r_method ?r \<and> r_path r' = r_path ?r \<longrightarrow>
      res_outcome (dispatch sample_chi sample_env sample_deps sample_mounts (Default sample_engine) w r' s)
        = Panicked"
    and q: "\<forall>w r' s. r_method r' = r_method ?q \<and> r_path r' = r_path ?q \<longrightarrow>
      res_outcome (dispatch sample_chi sample_env sample_deps sample_mounts (Default sample_engine) w r' s)
        = Panicked"
    and u: "\<forall>w r' s. r_method r' = r_method ?q \<and> r_path r' = r_path ?q \<longrightarrow>
      \<not> commits (res_ops (dispatch sample_chi sample_env sample_deps sample_mounts (Default sample_engine) w r' s))"
    by (simp_all add: sample_chi_def routes_def sample_mounts_def has_prefix_def)
  have i: "idem_key ?r = []" "idem_key ?q = []" by (simp_all add: sample_request_def hget_def)
  have "r_method ?r \<noteq> ''OPTIONS''" "r_method ?q \<noteq> ''OPTIONS''" by simp_all
  note c = panic_is_recovered_only_on_internal_paths [OF sample_chi_use _ key_config_simps(5-7)]
  show ?thesis
    using c [OF _ i(1) p, of plain_writer sample_state] c [OF _ i(2) q, of plain_writer sample_state] u
    by (simp add: isInternalPath_iff has_prefix_def)
qed

text \<open>C31. The access log never names the caller: whatever the authentication, every line a request
  adds to it has an empty principal (the log middleware runs outside authentication and reads
  the context it was given, while the principal goes into a copy of the request further in),
  and a request adds at most one line.\<close>

theorem access_log_has_no_principal:
  assumes "chi_use chi" "chi_dispatches chi"
    and "\<forall>h \<in> {snd (mn_health m), snd (mn_documents m), snd (mn_query m), mn_prometheus m}. quiet h"
    and "c_principal (r_ctx r) = None"
  shows "st_log (res_state (Router chi e d m cfg w r s)) = st_log s
    \<or> (\<exists>le. st_log (res_state (Router chi e d m cfg w r s)) = st_log s @ [le] \<and> le_principal le = [])"
proof -
  let ?in = "chain (below_log e cfg) (Auth (router_auth cfg) (chain (inner_stack e cfg)
      (dispatch chi e d m cfg)))"
  let ?anon = "\<lambda>r. c_principal (r_ctx r) = None"
  have "quiet ?in"
    by (rule behind_log [where Q = quiet, OF quiet_Metrics quiet_Tracing quiet_Auth inner_stack_quiet
        dispatch_quiet [OF assms(2,3)]])
  then have "logs_anonymously ?anon (AccessLog e ?in)" by (rule AccessLog_anonymous) simp
  then have "logs_anonymously ?anon (chain (outer_edges e cfg) (AccessLog e ?in))"
    by (intro outer_preserves [where Q = "logs_anonymously ?anon"]) (simp_all add: anonymous_edges anonymous_CORS)
  then show ?thesis
    using assms(4) by (simp add: Router_chain [OF assms(1)] stack_chain chain_edge_stack logs_anonymously_def)
qed

lemma access_log_has_no_principal_witness:
  "st_log (res_state (Router sample_chi sample_env sample_deps sample_mounts key_config plain_writer
     (sample_request ''GET'' ''/v1/health'' [] []) sample_state)) = []
   \<or> (\<exists>le. st_log (res_state (Router sample_chi sample_env sample_deps sample_mounts key_config plain_writer
     (sample_request ''GET'' ''/v1/health'' [] []) sample_state)) = [le] \<and> le_principal le = [])"
  using access_log_has_no_principal [OF sample_chi_use sample_chi_dispatches sample_mounts_ok(1),
      of "sample_request ''GET'' ''/v1/health'' [] []" sample_env sample_deps key_config plain_writer sample_state]
  by (simp add: background_def)

text \<open>C32. The streaming endpoint does not stream: behind the router the handler's writer is a
  recorder, which is no flusher, so no frame is ever flushed and the events wait in the
  server's buffer.\<close>

theorem router_never_flushes:
  assumes "chi_use chi" "chi_dispatches chi"
    and "\<forall>h \<in> {snd (mn_health m), snd (mn_documents m), snd (mn_query m), mn_prometheus m}. unflushed h"
  shows "Flush \<notin> set (res_ops (Router chi e d m cfg w r s))"
proof -
  let ?in = "chain (below_log e cfg) (Auth (router_auth cfg) (chain (inner_stack e cfg)
      (dispatch chi e d m cfg)))"
  have "unflushed ?in"
    by (rule behind_log [where Q = unflushed, OF unflushed_Metrics unflushed_Tracing unflushed_Auth
        inner_stack_unflushed dispatch_unflushed [OF assms(2,3)]])
  then have "never_flushes (AccessLog e ?in)" by (rule AccessLog_never_flushes)
  then have "never_flushes (chain (outer_edges e cfg) (AccessLog e ?in))"
    by (intro outer_preserves [where Q = never_flushes])
      (simp_all add: never_flushes_CORS never_flushes_RequestID never_flushes_RealIP never_flushes_Recovery)
  then show ?thesis
    by (simp add: Router_chain [OF assms(1)] stack_chain chain_edge_stack never_flushes_def)
qed

lemma router_never_flushes_witness:
  "Flush \<notin> set (res_ops (Router sample_chi sample_env sample_deps sample_mounts key_config plain_writer
     (sample_request ''POST'' ''/v1/query/stream'' [] []) sample_state))"
  by (rule router_never_flushes [OF sample_chi_use sample_chi_dispatches sample_mounts_ok(2)])

end
