(* ===== verification/Transparency.thy ===== *)
theory Transparency
  imports Router
begin

text \<open>
  What the stack of middleware does to a request it lets through (\<open>router.go\<close>, \<open>Router\<close>): the
  endpoint sees the request the client sent, with the principal of the caller and the body
  limit added, in a state whose engine is as the client found it; and the client gets the
  status and the body the endpoint answered with, or a 429 of one of the two limiters.
\<close>

subsection \<open>Passing on\<close>

text \<open>
  Properties of states that the middleware does not disturb on its way to the endpoint, indexed
  by the number of calls of the services (clock, identifiers, tracer) they are good for: every
  call uses up one, and the buckets of the limiters do not matter.
\<close>

definition undisturbed :: "'w env \<Rightarrow> (nat \<Rightarrow> 'w st \<Rightarrow> bool) \<Rightarrow> bool" where
  "undisturbed e I \<longleftrightarrow>
     (\<forall>k s. I (Suc k) s \<longrightarrow>
        I k s \<and> I k (s\<lparr>st_world := snd (time_now e (st_world s))\<rparr>)
        \<and> I k (s\<lparr>st_world := snd (uuid_new e (st_world s))\<rparr>)
        \<and> (\<forall>a b c. I k (s\<lparr>st_world := snd (tracer_start e a b c (st_world s))\<rparr>)))
     \<and> (\<forall>k s b. I k s \<longrightarrow> I k (s\<lparr>st_bucket := b\<rparr>)) \<and> (\<forall>k s b. I k s \<longrightarrow> I k (s\<lparr>st_store := b\<rparr>))"

lemma undisturbedD:
  assumes "undisturbed e I" "I (Suc k) s"
  shows "read_clock e s = (t, s') \<Longrightarrow> I k s'" "uuid_new e (st_world s) = (u, w') \<Longrightarrow> I k (s\<lparr>st_world := w'\<rparr>)"
    "tracer_start e a b c (st_world s) = (sc, w') \<Longrightarrow> I k (s\<lparr>st_world := w'\<rparr>)" "I k s"
  using assms unfolding undisturbed_def by (auto simp: read_clock_def split: prod.splits) (metis snd_conv)+

lemma undisturbed_buckets:
  assumes "undisturbed e I" "I k s"
  shows "I k (s\<lparr>st_bucket := bk\<rparr>)" "I k (s\<lparr>st_store := bs\<rparr>)"
  using assms unfolding undisturbed_def by blast+

lemma undisturbed_less: "undisturbed e I \<Longrightarrow> I n s \<Longrightarrow> k \<le> n \<Longrightarrow> I k s"
  by (induction n) (auto simp: le_Suc_eq dest: undisturbedD(4))

text \<open>\<open>res\<close> is the answer of \<open>h\<close> to a request of \<open>Q\<close>.\<close>

definition reaches :: "('w st \<Rightarrow> bool) \<Rightarrow> (request \<Rightarrow> bool) \<Rightarrow> 'w handler \<Rightarrow> 'w outcome3 \<Rightarrow> bool" where
  "reaches I Q h res \<longleftrightarrow>
     (\<exists>w r s. Q r \<and> I s \<and> (\<forall>code data. answers code data (h w r s) \<longrightarrow> answers code data res))"

lemma reaches_call: "Q r \<Longrightarrow> I s \<Longrightarrow> reaches I Q h (h w r s)"
  unfolding reaches_def by blast

lemma reaches_mono:
  "reaches I Q h res \<Longrightarrow> (\<And>code data. answers code data res \<Longrightarrow> answers code data res') \<Longrightarrow> reaches I Q h res'"
  unfolding reaches_def by blast

abbreviation throttled :: "'w outcome3 \<Rightarrow> bool" where
  "throttled \<equiv> answers 429 (rate_limited_body @ nl)"

text \<open>The middleware \<open>m\<close> hands a request of \<open>P\<close> on as one of \<open>Q\<close>, with at most \<open>n\<close> calls of the services,
  or, where \<open>thr\<close> allows it, answers 429.\<close>

definition passes ::
  "nat \<Rightarrow> bool \<Rightarrow> (nat \<Rightarrow> 'w st \<Rightarrow> bool) \<Rightarrow> (request \<Rightarrow> bool) \<Rightarrow> (request \<Rightarrow> bool) \<Rightarrow> 'w middleware \<Rightarrow> bool" where
  "passes n thr I P Q m \<longleftrightarrow>
     (\<forall>k h w r s. P r \<longrightarrow> I (n + k) s \<longrightarrow> reaches (I k) Q h (m h w r s) \<or> thr \<and> throttled (m h w r s))"

lemma passesI:
  assumes "undisturbed e I"
    and "\<And>h w r s k. P r \<Longrightarrow> I k s \<Longrightarrow> I (Suc k) s \<Longrightarrow> reaches (I k) Q h (m h w r s)"
  shows "passes 2 thr I P Q m"
proof -
  have "I k s" "I (Suc k) s" if "I (2 + k) s" for k s
    using undisturbed_less [OF assms(1) that] by simp_all
  with assms(2) show ?thesis unfolding passes_def by blast
qed

lemma passes_compose:
  assumes "passes n thr I P Q m" "passes n' thr I Q R m'"
  shows "passes (n + n') thr I P R (\<lambda>h. m (m' h))"
  unfolding passes_def
proof (intro allI impI)
  fix k h w r and s :: "'a st"
  assume "P r" "I (n + n' + k) s"
  with assms(1) have "reaches (I (n' + k)) Q (m' h) (m (m' h) w r s) \<or> thr \<and> throttled (m (m' h) w r s)"
    by (simp add: passes_def add.assoc)
  then show "reaches (I k) R h (m (m' h) w r s) \<or> thr \<and> throttled (m (m' h) w r s)"
  proof (elim disjE)
    assume "reaches (I (n' + k)) Q (m' h) (m (m' h) w r s)"
    then obtain w' r' s' where q: "Q r'" "I (n' + k) s'"
      and out: "\<And>code data. answers code data (m' h w' r' s') \<Longrightarrow> answers code data (m (m' h) w r s)"
      unfolding reaches_def by blast
    from assms(2) q have "reaches (I k) R h (m' h w' r' s') \<or> thr \<and> throttled (m' h w' r' s')"
      by (simp add: passes_def)
    with out show ?thesis unfolding reaches_def by blast
  qed simp
qed

lemma passes_chain: "list_all (passes 2 thr I P P) ms \<Longrightarrow> passes (2 * length ms) thr I P P (chain ms)"
proof (induction ms)
  case Nil
  show ?case unfolding passes_def chain_simps by (auto intro: reaches_call)
next
  case (Cons m ms)
  then have "passes 2 thr I P P m" "passes (2 * length ms) thr I P P (chain ms)" by simp_all
  from passes_compose [OF this] show ?case by (simp add: chain_def)
qed

lemma passes_more:
  assumes "undisturbed e I" "passes n thr I P Q m" "n \<le> n'"
  shows "passes n' thr I P Q m"
  unfolding passes_def
proof (intro allI impI)
  fix k h w r and s :: "'a st"
  assume r: "P r" and s: "I (n' + k) s"
  have "n + k \<le> n' + k" using assms(3) by simp
  from undisturbed_less [OF assms(1) s this] r assms(2)
  show "reaches (I k) Q h (m h w r s) \<or> thr \<and> throttled (m h w r s)" by (simp add: passes_def)
qed

subsection \<open>The edge\<close>

lemma CORS_passes:
  assumes "undisturbed e I" "\<forall>r. P r \<longrightarrow> r_method r \<noteq> ''OPTIONS''"
  shows "passes 2 thr I P P (CORS cfg)"
proof (rule passesI [OF assms(1)])
  fix h :: "'a handler" and w r k and s :: "'a st"
  assume "P r" "I k s"
  from reaches_mono [OF reaches_call [of P r "I k" s h w, OF this]] show "reaches (I k) P h (CORS cfg h w r s)"
    using assms \<open>P r\<close> by (simp add: CORS_def Let_def answers_prepend cors_headers_ops)
qed

lemma RequestID_passes:
  assumes "undisturbed e I" "stable P"
  shows "passes 2 thr I P P (RequestID e)"
proof (rule passesI [OF assms(1)])
  fix h :: "'a handler" and w r k and s :: "'a st"
  assume r: "P r" and s0: "I k s" and s: "I (Suc k) s"
  obtain i s1 where i: "(if hget (r_header r) ''X-Request-ID'' = []
      then let (u, w1) = uuid_new e (st_world s) in (u, s\<lparr>st_world := w1\<rparr>)
      else (hget (r_header r) ''X-Request-ID'', s)) = (i, s1)" by force
  have s1: "I k s1" using i s0 undisturbedD(2) [OF assms(1) s] by (auto split: if_splits prod.splits)
  let ?r = "r\<lparr>r_ctx := (r_ctx r)\<lparr>c_request_id := Some i\<rparr>\<rparr>"
  have "P ?r" using r by (simp add: stable_simps(1) [OF assms(2)])
  moreover have "RequestID e h w r s = prepend [SetHeader ''X-Request-ID'' i] (h w ?r s1)"
    by (simp only: RequestID_def i [unfolded Let_def] Let_def prod.case)
  ultimately show "reaches (I k) P h (RequestID e h w r s)"
    using reaches_mono [OF reaches_call [of P ?r "I k" s1 h w]] s1 by (simp add: answers_prepend)
qed

lemma RealIP_passes:
  assumes "undisturbed e I" "stable P"
  shows "passes 2 thr I P P RealIP"
proof (rule passesI [OF assms(1)])
  fix h :: "'a handler" and w r k and s :: "'a st"
  assume "P r" "I k s"
  then have "P (r\<lparr>r_remote := real_ip r\<rparr>)" "I k s" by (simp_all add: stable_simps(2) [OF assms(2)])
  from reaches_call [of P "r\<lparr>r_remote := real_ip r\<rparr>" "I k" s h w, OF this]
  show "reaches (I k) P h (RealIP h w r s)" by (simp add: RealIP_def)
qed

lemma Recovery_passes:
  assumes "undisturbed e I"
  shows "passes 2 thr I P P Recovery"
proof (rule passesI [OF assms])
  fix h :: "'a handler" and w r k and s :: "'a st"
  assume "P r" "I k s"
  then show "reaches (I k) P h (Recovery h w r s)"
  proof (rule reaches_mono [OF reaches_call [of P r "I k" s h w]])
    fix code data assume a: "answers code data (h w r s)"
    obtain s2 ops oc where i: "h w r s = (s2, ops, oc)" by (cases "h w r s") auto
    with a answersD have "oc = Done" by metis
    with a i show "answers code data (Recovery h w r s)" by (simp add: Recovery_def)
  qed
qed

text \<open>The recorders: the inner handler runs once, on the same request, at a later state.\<close>

lemma recorder_passes:
  assumes "P r" "I s1"
    and "\<And>code data s2 ops. h wrapped r s1 = (s2, ops, Done) \<Longrightarrow> answers code data (s2, ops, Done)
      \<Longrightarrow> answers code data res"
  shows "reaches I P h res"
proof (rule reaches_mono [OF reaches_call [of P r I s1 h wrapped, OF assms(1,2)]])
  fix code data assume a: "answers code data (h wrapped r s1)"
  obtain s2 ops oc where i: "h wrapped r s1 = (s2, ops, oc)" by (cases "h wrapped r s1") auto
  with a answersD have "oc = Done" by metis
  with a i assms(3) show "answers code data res" by metis
qed

lemma AccessLog_passes:
  assumes "undisturbed e I"
  shows "passes 2 thr I P P (AccessLog e)"
proof (rule passesI [OF assms])
  fix h :: "'a handler" and w r k and s :: "'a st"
  assume r: "P r" and s0: "I k s" and s: "I (Suc k) s"
  obtain t s1 where t: "read_clock e s = (t, s1)" by force
  show "reaches (I k) P h (AccessLog e h w r s)"
    by (rule recorder_passes [of P r "I k" s1 h, OF r undisturbedD(1) [OF assms s t]])
      (auto simp: AccessLog_def Let_def t answers_def response_def split: prod.splits)
qed

lemma Metrics_passes:
  assumes "undisturbed e I"
  shows "passes 2 thr I P P (Metrics e)"
proof (rule passesI [OF assms])
  fix h :: "'a handler" and w r k and s :: "'a st"
  assume r: "P r" and s0: "I k s" and s: "I (Suc k) s"
  obtain t s1 where t: "read_clock e s = (t, s1)" by force
  show "reaches (I k) P h (Metrics e h w r s)"
    by (rule recorder_passes [of P r "I k" s1 h, OF r undisturbedD(1) [OF assms s t]])
      (auto simp: Metrics_def Let_def t answers_def response_def split: prod.splits)
qed

lemma Tracing_passes:
  assumes "undisturbed e I"
  shows "passes 2 thr I P P (Tracing e)"
proof (rule passesI [OF assms])
  fix h :: "'a handler" and w r k and s :: "'a st"
  assume r: "P r" and s0: "I k s" and s: "I (Suc k) s"
  obtain sc w1 where t: "tracer_start e (prop_extract e (r_header r) []) (r_method r @ '' '' @ r_path r)
      [(''http.method'', r_method r), (''http.url'', r_url r), (''http.route'', r_path r),
       (''http.user_agent'', user_agent r), (''net.peer.ip'', r_remote r)] (st_world s) = (sc, w1)"
    by force
  have w1: "I k (s\<lparr>st_world := w1\<rparr>)" using undisturbedD(3) [OF assms s t] by simp
  have hs: "list_all is_header_op (map (\<lambda>(k, v). SetHeader k v) (prop_inject e sc))"
    by (auto simp: list_all_iff)
  show "reaches (I k) P h (Tracing e h w r s)"
    by (rule recorder_passes [of P r "I k" _ h, OF r w1]) (use t answers_append [OF hs] in \<open>simp add: Tracing_def Let_def\<close>)
qed

lemma edge_stack_passes:
  assumes "undisturbed e I" "stable P" "\<forall>r. P r \<longrightarrow> r_method r \<noteq> ''OPTIONS''"
  shows "passes 14 thr I P P (chain (edge_stack e cfg))"
proof (rule passes_more [OF assms(1) passes_chain])
  show "list_all (passes 2 thr I P P) (edge_stack e cfg)"
    by (simp add: edge_stack_def CORS_passes [OF assms(1,3)] RequestID_passes [OF assms(1,2)]
        RealIP_passes [OF assms(1,2)] Recovery_passes [OF assms(1)] AccessLog_passes [OF assms(1)]
        Metrics_passes [OF assms(1)] Tracing_passes [OF assms(1)])
qed (simp add: edge_stack_def)

subsection \<open>The gate and what is behind it\<close>

text \<open>The request a middleware further in sees of \<open>r\<close>: its body, and the caller once there is one.\<close>

definition seen_as :: "request \<Rightarrow> body option \<Rightarrow> principal option \<Rightarrow> request \<Rightarrow> bool" where
  "seen_as r b p r' \<longleftrightarrow>
     r_method r' = r_method r \<and> r_path r' = r_path r \<and> r_url r' = r_url r \<and> r_query r' = r_query r
     \<and> r_header r' = r_header r \<and> r_content_length r' = r_content_length r \<and> r_params r' = r_params r
     \<and> r_body r' = b \<and> (p = None \<or> c_principal (r_ctx r') = p)"

lemma seen_as_stable: "stable (seen_as r b None)"
  by (simp add: stable_def seen_as_def)

definition caller :: "Config \<Rightarrow> request \<Rightarrow> principal option" where
  "caller cfg r =
     (if excluded (r_path r) then Some \<lparr>p_id = ''anonymous'', p_authenticated = False\<rparr>
      else case Authenticate (router_auth cfg) r of Inl msg \<Rightarrow> None | Inr p \<Rightarrow> Some p)"

lemma Authenticate_header: "r_header r' = r_header r \<Longrightarrow> Authenticate a r' = Authenticate a r"
  by (cases a) (simp_all add: NoAuth_Authenticate_def StaticAPIKey_Authenticate_def)

lemma Auth_passes:
  assumes "undisturbed e I" "caller cfg r = Some p"
  shows "passes 2 thr I (seen_as r b None) (seen_as r b (Some p)) (Auth (router_auth cfg))"
proof (rule passesI [OF assms(1)])
  fix h :: "'a handler" and w r' k and s :: "'a st"
  assume r: "seen_as r b None r'" and s: "I k s"
  let ?r = "r'\<lparr>r_ctx := withPrincipal (r_ctx r') p\<rparr>"
  have "Authenticate (router_auth cfg) r' = Authenticate (router_auth cfg) r" "r_path r' = r_path r"
    using r Authenticate_header [of r' r] by (simp_all add: seen_as_def)
  with assms(2) have "Auth (router_auth cfg) h w r' s = h w ?r s"
    by (auto simp: Auth_def caller_def split: if_splits sum.splits)
  moreover have "seen_as r b (Some p) ?r" using r by (simp add: seen_as_def withPrincipal_def)
  ultimately show "reaches (I k) (seen_as r b (Some p)) h (Auth (router_auth cfg) h w r' s)"
    using reaches_call [of "seen_as r b (Some p)" ?r "I k" s h w] s by simp
qed

lemma throttled_error: "throttled (reply (SetHeader k v # http_error rate_limited_body 429) s)"
  "throttled (reply ([SetHeader k v, SetHeader k' v', SetHeader k'' v''] @ http_error rate_limited_body 429) s)"
  by (simp_all add: answers_def http_error_def respond_def trace_simps write_header_def ensure_header_def
      body_allowed_def Let_def)

lemma RateLimit_passes:
  assumes "undisturbed e I" "0 < n \<longrightarrow> thr"
  shows "passes 2 thr I P P (RateLimit e n)"
  unfolding passes_def
proof (intro allI impI)
  fix k h w r and s :: "'a st"
  assume r: "P r" and "I (2 + k) s"
  then have s: "I (Suc (Suc k)) s" by simp
  obtain t s1 where t: "read_clock e s = (t, s1)" by force
  obtain ok b where b: "allow t (st_bucket s1) = (ok, b)" by force
  let ?s = "if 0 < n then s1\<lparr>st_bucket := b\<rparr> else s"
  have "I k s" "I k s1"
    using undisturbed_less [OF assms(1) s] undisturbedD(4) [OF assms(1) undisturbedD(1) [OF assms(1) s t]] by simp_all
  then have s2: "I k ?s" by (simp add: undisturbed_buckets(1) [OF assms(1)])
  have "RateLimit e n h w r s = h w r ?s \<or> thr \<and> throttled (RateLimit e n h w r s)"
    using assms(2) by (simp add: RateLimit_def Let_def t b throttled_error)
  then show "reaches (I k) P h (RateLimit e n h w r s) \<or> thr \<and> throttled (RateLimit e n h w r s)"
    using reaches_call [of P r "I k" ?s h w, OF r s2] by auto
qed

lemma PrincipalRateLimit_passes:
  assumes "undisturbed e I" "0 < n \<longrightarrow> thr"
  shows "passes 2 thr I P P (PrincipalRateLimit e n)"
  unfolding passes_def
proof (intro allI impI)
  fix k h w r and s :: "'a st"
  assume r: "P r" and "I (2 + k) s"
  then have s: "I (Suc (Suc k)) s" by simp
  obtain t1 s1 where t1: "(case bs_buckets (st_store s) (principal_key r) of
      None \<Rightarrow> read_clock e s | Some _ \<Rightarrow> (0, s)) = (t1, s1)" by force
  obtain t2 s2 where t2: "read_clock e s1 = (t2, s2)" by force
  obtain ok bs where b: "store_allow t1 t2 (principal_key r) (st_store s2) = (ok, bs)" by force
  let ?s = "if 0 < n then s2\<lparr>st_store := bs\<rparr> else s"
  have "I (Suc k) s1" "I k s"
    using t1 undisturbed_less [OF assms(1) s] undisturbedD(1) [OF assms(1) s] by (auto split: option.splits)
  then have s3: "I k ?s" by (simp add: undisturbedD(1) [OF assms(1) _ t2] undisturbed_buckets(2) [OF assms(1)])
  have "PrincipalRateLimit e n h w r s = h w r ?s \<or> thr \<and> throttled (PrincipalRateLimit e n h w r s)"
    using assms(2) by (simp add: PrincipalRateLimit_def Let_def t1 t2 b throttled_error(2) [simplified])
  then show "reaches (I k) P h (PrincipalRateLimit e n h w r s) \<or> thr \<and> throttled (PrincipalRateLimit e n h w r s)"
    using reaches_call [of P r "I k" ?s h w, OF r s3] by auto
qed

definition body_behind :: "int \<Rightarrow> request \<Rightarrow> body option" where
  "body_behind n r =
     (if r_content_length r \<noteq> 0 then map_option (\<lambda>b. b\<lparr>b_limit := Some (max 0 n)\<rparr>) (r_body r) else r_body r)"

lemma same_body: "r_body r = b \<Longrightarrow> r\<lparr>r_body := b\<rparr> = r"
  by (cases r) simp

lemma MaxBodySize_sees: "MaxBodySize n h w r s = h w (r\<lparr>r_body := body_behind n r\<rparr>) s"
  by (auto simp: MaxBodySize_def body_behind_def same_body split: option.splits)

lemma MaxBodySize_passes:
  assumes "undisturbed e I"
  shows "passes 2 thr I (seen_as r (r_body r) p) (seen_as r (body_behind n r) p) (MaxBodySize n)"
proof (rule passesI [OF assms])
  fix h :: "'a handler" and w r' k and s :: "'a st"
  assume r: "seen_as r (r_body r) p r'" and s: "I k s"
  let ?r = "r'\<lparr>r_body := body_behind n r\<rparr>"
  have "body_behind n r' = body_behind n r" using r by (simp add: seen_as_def body_behind_def)
  then have "MaxBodySize n h w r' s = h w ?r s" by (simp add: MaxBodySize_sees)
  moreover have "seen_as r (body_behind n r) p ?r" using r by (simp add: seen_as_def)
  ultimately show "reaches (I k) (seen_as r (body_behind n r) p) h (MaxBodySize n h w r' s)"
    using reaches_call [of "seen_as r (body_behind n r) p" ?r "I k" s h w] s by simp
qed

text \<open>What the endpoint sees in the end: there is also a deadline, but for \<open>/internal/\<close> paths.\<close>

definition seen_by_endpoint :: "Config \<Rightarrow> request \<Rightarrow> principal \<Rightarrow> request \<Rightarrow> bool" where
  "seen_by_endpoint cfg r p r' \<longleftrightarrow>
     seen_as r (body_behind (gv_max_body (cf_governance cfg)) r) (Some p) r'
     \<and> (isInternalPath (r_path r) \<or> c_deadline (r_ctx r') \<noteq> None)"

lemma answers_in_goroutine: "answers code data res \<Longrightarrow> answers code data (in_goroutine res)"
  by (cases res rule: prod_cases3) (auto simp: answers_def in_goroutine_def)

lemma EndpointTimeout_passes:
  assumes "undisturbed e I"
  shows "passes 2 thr I (seen_as r (body_behind (gv_max_body (cf_governance cfg)) r) (Some p))
    (seen_by_endpoint cfg r p) (EndpointTimeout e d q)"
proof (rule passesI [OF assms])
  fix h :: "'a handler" and w r' k and s :: "'a st"
  assume r: "seen_as r (body_behind (gv_max_body (cf_governance cfg)) r) (Some p) r'"
    and s0: "I k s" and s: "I (Suc k) s"
  show "reaches (I k) (seen_by_endpoint cfg r p) h (EndpointTimeout e d q h w r' s)"
  proof (cases "isInternalPath (r_path r)")
    case True
    then have "seen_by_endpoint cfg r p r'" "isInternalPath (r_path r')"
      using r by (simp_all add: seen_by_endpoint_def seen_as_def)
    with reaches_call [of "seen_by_endpoint cfg r p" r' "I k" s h w] s0 show ?thesis
      by (simp add: EndpointTimeout_def)
  next
    case False
    let ?to = "if isQueryPath (r_path r') then q else d"
    obtain t s1 where t: "read_clock e s = (t, s1)" by force
    let ?r = "r'\<lparr>r_ctx := with_timeout t ?to (r_ctx r')\<rparr>"
    have "seen_by_endpoint cfg r p ?r" "\<not> isInternalPath (r_path r')"
      using r False by (simp_all add: seen_by_endpoint_def seen_as_def with_timeout_def)
    with reaches_mono [OF reaches_call [of "seen_by_endpoint cfg r p" ?r "I k" s1 h w] answers_in_goroutine]
      undisturbedD(1) [OF assms s t] show ?thesis
      by (simp add: EndpointTimeout_def Let_def t)
  qed
qed

subsection \<open>The router\<close>

text \<open>The inner stack up to the idempotency cache.\<close>

definition limits :: "'w env \<Rightarrow> Config \<Rightarrow> 'w middleware list" where
  "limits e cfg =
     (if rl_enabled (cf_rate_limit cfg) then [RateLimit e (rl_rpm (cf_rate_limit cfg))] else []) @
     (if rl_principal_rpm (cf_rate_limit cfg) > 0
      then [PrincipalRateLimit e (rl_principal_rpm (cf_rate_limit cfg))] else [])"

definition timed_endpoint :: "'w env \<Rightarrow> Config \<Rightarrow> 'w middleware" where
  "timed_endpoint e cfg h =
     MaxBodySize (gv_max_body (cf_governance cfg))
       (EndpointTimeout e (gv_default_timeout (cf_governance cfg)) (gv_query_timeout (cf_governance cfg)) h)"

lemma inner_stack_split:
  "chain (inner_stack e cfg) h =
     chain (limits e cfg) (timed_endpoint e cfg (Idempotency e \<lparr>ic_ttl = 0, ic_prefixes = []\<rparr> h))"
  by (simp add: inner_stack_def limits_def timed_endpoint_def)

definition throttles :: "Config \<Rightarrow> bool" where
  "throttles cfg \<longleftrightarrow> rl_enabled (cf_rate_limit cfg) \<and> 0 < rl_rpm (cf_rate_limit cfg)
     \<or> 0 < rl_principal_rpm (cf_rate_limit cfg)"

text \<open>The bound on the calls of the services, from the length of the stack.\<close>

lemma stack_passes:
  assumes "undisturbed e I" "r_method r \<noteq> ''OPTIONS''" "caller cfg r = Some p"
  shows "passes 24 (throttles cfg) I (seen_as r (r_body r) None) (seen_by_endpoint cfg r p)
    (\<lambda>h. chain (edge_stack e cfg) (Auth (router_auth cfg) (chain (limits e cfg) (timed_endpoint e cfg h))))"
proof -
  let ?P = "seen_as r (r_body r) (Some p)" and ?R = "seen_as r (r_body r) None"
  have edge: "passes 14 (throttles cfg) I ?R ?R (chain (edge_stack e cfg))"
    by (rule edge_stack_passes [OF assms(1) seen_as_stable]) (simp add: seen_as_def assms(2))
  have limits: "passes 4 (throttles cfg) I ?P ?P (chain (limits e cfg))"
  proof (rule passes_more [OF assms(1) passes_chain])
    show "list_all (passes 2 (throttles cfg) I ?P ?P) (limits e cfg)"
      by (simp add: limits_def throttles_def RateLimit_passes [OF assms(1)] PrincipalRateLimit_passes [OF assms(1)])
  qed (simp add: limits_def)
  have "passes (2 + 2) (throttles cfg) I ?P (seen_by_endpoint cfg r p) (timed_endpoint e cfg)"
    unfolding timed_endpoint_def
    by (rule passes_compose [OF MaxBodySize_passes [OF assms(1)] EndpointTimeout_passes [OF assms(1)]])
  from passes_compose [OF edge passes_compose [OF Auth_passes [OF assms(1,3)] passes_compose [OF limits this]]]
  show ?thesis by simp
qed

lemma Router_passes:
  assumes "chi_use chi" "undisturbed e I" "I 24 s" "r_method r \<noteq> ''OPTIONS''" "caller cfg r = Some p"
  shows "reaches (I 0) (seen_by_endpoint cfg r p)
      (Idempotency e \<lparr>ic_ttl = 0, ic_prefixes = []\<rparr> (dispatch chi e d m cfg)) (Router chi e d m cfg w r s)
    \<or> throttles cfg \<and> throttled (Router chi e d m cfg w r s)"
proof -
  have "seen_as r (r_body r) None r" by (simp add: seen_as_def)
  moreover have "I (24 + 0) s" using assms(3) by simp
  ultimately show ?thesis
    using stack_passes [OF assms(2,4,5)] unfolding Router_chain [OF assms(1)] stack_chain inner_stack_split passes_def
    by blast
qed

text \<open>C5. The stack lets a request through unharmed: for a request that is no preflight, whose caller
  is authenticated (or whose path needs none) and that carries no idempotency key for the
  documents endpoints, the client gets the status and the body that the endpoint answers with,
  run on the client's own request with nothing changed but the caller's principal, a deadline
  and the body limit, in an engine the middleware has not touched; or it gets a 429, and that
  only if a rate limit is configured.\<close>

theorem authorized_request_is_served:
  assumes "chi_use chi" "undisturbed e I" "I 24 s"
    and "r_method r \<noteq> ''OPTIONS''" "caller cfg r = Some p"
    and "\<not> idem_applies \<lparr>ic_ttl = 0, ic_prefixes = []\<rparr> r"
  shows "(\<exists>w' r' s'. seen_by_endpoint cfg r p r' \<and> I 0 s'
      \<and> (\<forall>code data. answers code data (dispatch chi e d m cfg w' r' s')
            \<longrightarrow> answers code data (Router chi e d m cfg w r s)))
    \<or> throttles cfg \<and> rs_status (response (Router chi e d m cfg w r s)) = 429"
proof -
  have "Idempotency e \<lparr>ic_ttl = 0, ic_prefixes = []\<rparr> h w' r' s' = h w' r' s'"
    if "seen_by_endpoint cfg r p r'" for h w' r' and s' :: "'a st"
    using assms(6) that by (intro Idempotency_passes) (simp add: seen_by_endpoint_def seen_as_def idem_applies_def)
  note idem = this
  from Router_passes [OF assms(1-5), of d m w] show ?thesis
  proof (elim disjE conjE)
    assume "reaches (I 0) (seen_by_endpoint cfg r p)
      (Idempotency e \<lparr>ic_ttl = 0, ic_prefixes = []\<rparr> (dispatch chi e d m cfg)) (Router chi e d m cfg w r s)"
    then obtain w' r' s' where r': "seen_by_endpoint cfg r p r'" and rest: "I 0 s'"
      "\<forall>code data. answers code data (Idempotency e \<lparr>ic_ttl = 0, ic_prefixes = []\<rparr> (dispatch chi e d m cfg) w' r' s')
        \<longrightarrow> answers code data (Router chi e d m cfg w r s)"
      unfolding reaches_def by blast
    from rest [unfolded idem [OF r']] r' show ?thesis by blast
  qed (simp add: answers_def)
qed

text \<open>A caller with the key, and an endpoint that always answers \<open>{}\<close>.\<close>

lemma authorized_request_is_served_witness:
  "answers 200 ''{}'' (Router sample_chi sample_env sample_deps sample_mounts key_config plain_writer
     (sample_request ''GET'' ''/rpc/x'' [(''Authorization'', ''Bearer sekrit'')] []) sample_state)"
proof -
  let ?r = "sample_request ''GET'' ''/rpc/x'' [(''Authorization'', ''Bearer sekrit'')] []"
  have c: "caller key_config ?r = Some \<lparr>p_id = ''api_key'', p_authenticated = True\<rparr>"
    by code_simp
  have k: "undisturbed sample_env (\<lambda>k s. 0 \<le> st_world s)" by (simp add: undisturbed_def sample_env_def)
  have w: "0 \<le> st_world sample_state" by simp
  have i: "\<not> idem_applies \<lparr>ic_ttl = 0, ic_prefixes = []\<rparr> ?r" by (simp add: idem_applies_def)
  have m: "r_method ?r \<noteq> ''OPTIONS''" by simp
  have "answers 200 ''{}'' (dispatch sample_chi sample_env sample_deps sample_mounts key_config w r' s)"
    if "seen_by_endpoint key_config ?r p r'" for w p r' s
    using that
    by (simp add: seen_by_endpoint_def seen_as_def sample_chi_def routes_def sample_mounts_def has_prefix_def
        fixed_handler_def answers_def respond_def trace_simps write_header_def ensure_header_def body_allowed_def)
  with authorized_request_is_served [OF sample_chi_use k w m c i, where w = plain_writer and m = sample_mounts
      and d = sample_deps]
  show ?thesis by (auto simp: throttles_def key_config_def Default_def)
qed

text \<open>C9. A retry through the router: while the cache holds an answer for the idempotency key of a POST to
  the documents endpoints that stays live for the 24 calls of clock, identifiers and tracer the
  stack can make, every authenticated request with that key is answered with the stored status
  and body, whatever its own body and its organisation are and whatever the endpoint would do;
  or with a 429, and that only if a rate limit is configured.\<close>

theorem keyed_retry_is_replayed:
  assumes "chi_use chi" "undisturbed e I" "I 24 s" "caller cfg r = Some p"
    and "idem_applies \<lparr>ic_ttl = 0, ic_prefixes = []\<rparr> r"
    and "\<forall>s. I 0 s \<longrightarrow> fst (cache_get (fst (time_now e (st_world s))) (idem_key r) (st_idem s)) = Some cr"
    and "is_commit (WriteHeader (cr_status cr))" "body_allowed (cr_status cr)"
  shows "answers (cr_status cr) (cr_body cr) (Router chi e d m cfg w r s)
    \<or> throttles cfg \<and> rs_status (response (Router chi e d m cfg w r s)) = 429"
proof -
  have m: "r_method r \<noteq> ''OPTIONS''" using assms(5) by (simp add: idem_applies_def)
  have "answers (cr_status cr) (cr_body cr) (Idempotency e \<lparr>ic_ttl = 0, ic_prefixes = []\<rparr> h w' r' s')"
    if r': "seen_by_endpoint cfg r p r'" and s': "I 0 s'" for h w' r' s'
  proof -
    have "idem_applies \<lparr>ic_ttl = 0, ic_prefixes = []\<rparr> r'" "idem_key r' = idem_key r"
      using assms(5) r' by (simp_all add: seen_by_endpoint_def seen_as_def idem_applies_def)
    with assms(6) s' have "Idempotency e \<lparr>ic_ttl = 0, ic_prefixes = []\<rparr> h w' r' s' =
        (s'\<lparr>st_world := snd (time_now e (st_world s'))\<rparr>, replay_ops cr, Done)"
      by (intro Idempotency_replay) simp_all
    moreover have "commits (replay_ops cr)" using assms(7) by (simp add: replay_ops_def)
    ultimately show ?thesis
      using respond_replay [OF assms(7)] assms(8) by (simp add: answers_def response_def)
  qed
  with Router_passes [OF assms(1-3) m assms(4), of d m w] show ?thesis
    unfolding reaches_def by (auto simp: answers_def)
qed

definition replayed_state :: "int st" where
  "replayed_state = sample_state\<lparr>st_idem :=
     cache_set ''k1'' \<lparr>cr_status = 202, cr_body = ''doc-1'', cr_expires = 100\<rparr> (\<lambda>_. None)\<rparr>"

lemma keyed_retry_is_replayed_witness:
  "answers 202 ''doc-1'' (Router sample_chi sample_env sample_deps sample_mounts (Default sample_engine) plain_writer
     (keyed_request ''org-b'') replayed_state)"
proof -
  let ?cr = "\<lparr>cr_status = 202, cr_body = ''doc-1'', cr_expires = 100\<rparr>"
  let ?I = "\<lambda>k (s :: int st). st_world s + int k \<le> 100 \<and> st_idem s = st_idem replayed_state"
  have k: "undisturbed sample_env ?I" by (simp add: undisturbed_def sample_env_def)
  have i: "?I 24 replayed_state" by (simp add: replayed_state_def)
  have c: "caller (Default sample_engine) (keyed_request ''org-b'') = Some \<lparr>p_id = ''anonymous'', p_authenticated = False\<rparr>"
    by (simp add: caller_def key_config_simps NoAuth_Authenticate_def)
  have a: "idem_applies \<lparr>ic_ttl = 0, ic_prefixes = []\<rparr> (keyed_request ''org-b'')"
    using keyed_request_simps(2) [of "''org-b''"]
    by (simp add: idem_applies_def with_defaults_def matchesAnyPrefix_iff) (simp add: keyed_request_def has_prefix_iff)
  have l: "\<forall>s. ?I 0 s \<longrightarrow> fst (cache_get (fst (time_now sample_env (st_world s))) (idem_key (keyed_request ''org-b''))
      (st_idem s)) = Some ?cr"
    by (simp add: keyed_request_simps(2) replayed_state_def cache_get_def cache_set_def)
  from keyed_retry_is_replayed [OF sample_chi_use k i c a l, of sample_deps sample_mounts plain_writer]
  show ?thesis using key_config_simps(6,7) by (auto simp: throttles_def body_allowed_def)
qed

end
