(* ===== verification/Load_Limits.thy ===== *)
theory Load_Limits
  imports Router
begin

text \<open>
  The global rate limit as a protection of the engine: whatever requests a server gets, and
  whatever the other middleware makes of them, the work its endpoints do is bounded by what the
  token bucket admits. The work is any measure of the world (\<open>\<mu>\<close>) to which the run of an endpoint
  adds at most one, such as the number of retrievals; the time is a clock of the world (\<open>\<tau>\<close>).
\<close>

subsection \<open>Meters\<close>

text \<open>From \<open>s\<close> to \<open>s'\<close> no token was taken, time went on, and at most \<open>n\<close> was spent.\<close>

definition costs :: "('w \<Rightarrow> int) \<Rightarrow> ('w \<Rightarrow> int) \<Rightarrow> int \<Rightarrow> 'w st \<Rightarrow> 'w st \<Rightarrow> bool" where
  "costs \<tau> \<mu> n s s' \<longleftrightarrow>
     st_bucket s' = st_bucket s \<and> \<tau> (st_world s) \<le> \<tau> (st_world s')
     \<and> \<mu> (st_world s') \<le> \<mu> (st_world s) + n"

text \<open>The clock reads the time, and the services the middleware calls are free.\<close>

definition metered :: "'w env \<Rightarrow> ('w \<Rightarrow> int) \<Rightarrow> ('w \<Rightarrow> int) \<Rightarrow> bool" where
  "metered e \<tau> \<mu> \<longleftrightarrow>
     (\<forall>w t w'. time_now e w = (t, w') \<longrightarrow> \<tau> w \<le> t \<and> t \<le> \<tau> w' \<and> \<mu> w' = \<mu> w)
     \<and> (\<forall>w u w'. uuid_new e w = (u, w') \<longrightarrow> \<tau> w \<le> \<tau> w' \<and> \<mu> w' = \<mu> w)
     \<and> (\<forall>a b c w sc w'. tracer_start e a b c w = (sc, w') \<longrightarrow> \<tau> w \<le> \<tau> w' \<and> \<mu> w' = \<mu> w)"

lemma costs_trans: "costs \<tau> \<mu> m s s1 \<Longrightarrow> costs \<tau> \<mu> n s1 s2 \<Longrightarrow> costs \<tau> \<mu> (m + n) s s2"
  by (auto simp: costs_def)

lemma costs_more: "costs \<tau> \<mu> m s s' \<Longrightarrow> m \<le> n \<Longrightarrow> costs \<tau> \<mu> n s s'"
  by (auto simp: costs_def)

lemma costs_clock:
  assumes "metered e \<tau> \<mu>" "read_clock e s = (t, s')"
  shows "\<tau> (st_world s) \<le> t" "t \<le> \<tau> (st_world s')" "costs \<tau> \<mu> 0 s s'"
proof -
  obtain w' where n: "time_now e (st_world s) = (t, w')" and s': "s' = s\<lparr>st_world := w'\<rparr>"
    using assms(2) by (auto simp: read_clock_def split: prod.splits)
  from assms(1) n have "\<tau> (st_world s) \<le> t" "t \<le> \<tau> w'" "\<mu> w' = \<mu> (st_world s)"
    unfolding metered_def by blast+
  then show "\<tau> (st_world s) \<le> t" "t \<le> \<tau> (st_world s')" "costs \<tau> \<mu> 0 s s'"
    by (simp_all add: costs_def s')
qed

lemma costs_free [simp]:
  "costs \<tau> \<mu> n s (s'\<lparr>st_log := l\<rparr>) = costs \<tau> \<mu> n s s'" "costs \<tau> \<mu> n s (s'\<lparr>st_panics := p\<rparr>) = costs \<tau> \<mu> n s s'"
  "costs \<tau> \<mu> n s (s'\<lparr>st_metrics := x\<rparr>) = costs \<tau> \<mu> n s s'" "costs \<tau> \<mu> n s (s'\<lparr>st_spans := y\<rparr>) = costs \<tau> \<mu> n s s'"
  "costs \<tau> \<mu> n s (s'\<lparr>st_idem := c\<rparr>) = costs \<tau> \<mu> n s s'" "costs \<tau> \<mu> n s (s'\<lparr>st_store := b\<rparr>) = costs \<tau> \<mu> n s s'"
  by (simp_all add: costs_def)

lemma costs_refl [simp]: "0 \<le> n \<Longrightarrow> costs \<tau> \<mu> n s s"
  by (simp add: costs_def)

definition frugal :: "('w \<Rightarrow> int) \<Rightarrow> ('w \<Rightarrow> int) \<Rightarrow> 'w handler \<Rightarrow> bool" where
  "frugal \<tau> \<mu> h \<longleftrightarrow> (\<forall>w r s. costs \<tau> \<mu> 1 s (res_state (h w r s)))"

lemma frugalD: "frugal \<tau> \<mu> h \<Longrightarrow> h w r s = (s', ops, oc) \<Longrightarrow> costs \<tau> \<mu> 1 s s'"
  unfolding frugal_def by (metis res_simps(1))

lemma frugalI:
  "(\<And>w r s s' ops oc. m w r s = (s', ops, oc) \<Longrightarrow> costs \<tau> \<mu> 1 s s') \<Longrightarrow> frugal \<tau> \<mu> m"
  unfolding frugal_def res_state_def by (metis prod.collapse)

subsection \<open>Behind the limiter\<close>

lemma frugal_PrincipalRateLimit:
  assumes "metered e \<tau> \<mu>"
  shows "preserves (frugal \<tau> \<mu>) (PrincipalRateLimit e n)"
proof (intro preservesI frugalI)
  fix h :: "'a handler" and w r s s' ops oc
  assume h: "frugal \<tau> \<mu> h" and m: "PrincipalRateLimit e n h w r s = (s', ops, oc)"
  obtain t1 s1 where t1: "(case bs_buckets (st_store s) (principal_key r) of
      None \<Rightarrow> read_clock e s | Some _ \<Rightarrow> (0, s)) = (t1, s1)" by force
  obtain t2 s2 where t2: "read_clock e s1 = (t2, s2)" by force
  obtain ok bs where b: "store_allow t1 t2 (principal_key r) (st_store s2) = (ok, bs)" by force
  let ?s = "s2\<lparr>st_store := bs\<rparr>"
  have "costs \<tau> \<mu> 0 s s1" using t1 costs_clock(3) [OF assms] by (auto split: option.splits)
  from costs_trans [OF this costs_clock(3) [OF assms t2]] have l: "costs \<tau> \<mu> 0 s ?s" by simp
  consider "s' = ?s" | "h w r ?s = (s', ops, oc)" | "h w r s = (s', ops, oc)"
    using m by (auto simp: PrincipalRateLimit_def Let_def t1 t2 b reply_def split: if_splits)
  then show "costs \<tau> \<mu> 1 s s'"
  proof cases
    case 1
    with l show ?thesis using costs_more [of \<tau> \<mu> 0 s s' 1] by simp
  next
    case 2
    from costs_trans [OF l frugalD [OF h 2]] show ?thesis by simp
  next
    case 3
    then show ?thesis by (rule frugalD [OF h])
  qed
qed

lemma frugal_MaxBodySize: "preserves (frugal \<tau> \<mu>) (MaxBodySize n)"
  by (intro preservesI frugalI) (auto simp: MaxBodySize_def split: option.splits if_splits dest: frugalD)

lemma frugal_EndpointTimeout:
  assumes "metered e \<tau> \<mu>"
  shows "preserves (frugal \<tau> \<mu>) (EndpointTimeout e a b)"
proof (intro preservesI frugalI)
  fix h :: "'a handler" and w r s s' ops oc
  assume h: "frugal \<tau> \<mu> h" and m: "EndpointTimeout e a b h w r s = (s', ops, oc)"
  obtain t s1 where t: "read_clock e s = (t, s1)" by force
  from m consider "h w r s = (s', ops, oc)" | r' oc' where "h w r' s1 = (s', ops, oc')"
    by (auto simp: EndpointTimeout_def Let_def t split: if_splits dest!: in_goroutine_cases)
  then show "costs \<tau> \<mu> 1 s s'"
  proof cases
    case 2
    from costs_trans [OF costs_clock(3) [OF assms t] frugalD [OF h 2]] show ?thesis by simp
  qed (rule frugalD [OF h])
qed

lemma costs_idem_lookup:
  assumes "metered e \<tau> \<mu>" "idem_lookup e key s = (hit, s')"
  shows "costs \<tau> \<mu> 0 s s'"
  using assms(2) costs_clock(3) [OF assms(1)]
  by (auto simp: idem_lookup_def Let_def split: prod.splits option.splits)

lemma frugal_Idempotency:
  assumes "metered e \<tau> \<mu>"
  shows "preserves (frugal \<tau> \<mu>) (Idempotency e cfg)"
proof (intro preservesI frugalI)
  fix h :: "'a handler" and w r s s' ops oc
  assume h: "frugal \<tau> \<mu> h" and m: "Idempotency e cfg h w r s = (s', ops, oc)"
  from m show "costs \<tau> \<mu> 1 s s'"
  proof (cases rule: Idempotency_cases)
    case passed
    then show ?thesis by (rule frugalD [OF h])
  next
    case (replayed cr s2)
    from costs_idem_lookup [OF assms replayed(1)] have "costs \<tau> \<mu> 0 s s'" by (simp add: replayed(2))
    then show ?thesis by (rule costs_more) simp
  next
    case (ran s2 s3 now s4 cr)
    from costs_trans [OF costs_trans [OF costs_idem_lookup [OF assms ran(1)] frugalD [OF h ran(2)]]
        costs_clock(3) [OF assms ran(3)]]
    show ?thesis by (simp add: ran(4))
  next
    case (failed s2)
    from costs_trans [OF costs_idem_lookup [OF assms failed(1)] frugalD [OF h failed(2)]] show ?thesis by simp
  qed
qed

subsection \<open>The limiter\<close>

lemma run_calls_snoc:
  "run_calls f ts b = (oks, b1) \<Longrightarrow> f t b1 = (ok, b2) \<Longrightarrow> run_calls f (ts @ [t]) b = (oks @ [ok], b2)"
proof (induction ts arbitrary: b oks)
  case (Cons u ts)
  obtain ok' b' where f: "f u b = (ok', b')" by force
  obtain oks' where r: "run_calls f ts b' = (oks', b1)" "oks = ok' # oks'"
    using Cons.prems(1) f by (auto split: prod.splits)
  from Cons.IH [OF r(1) Cons.prems(2)] show ?case by (simp add: f r(2))
qed simp

lemma gaps_snoc: "gaps u (ts @ [t]) = gaps u ts @ [t - last (u # ts)]"
  by (induction ts arbitrary: u) simp_all

lemma admitted_snoc: "admitted (oks @ [ok]) = admitted oks + (if ok then 1 else 0)"
  by (induction oks) simp_all

text \<open>What was spent since the bucket was new was paid for with its tokens.\<close>

definition paid :: "('w \<Rightarrow> int) \<Rightarrow> ('w \<Rightarrow> int) \<Rightarrow> int \<Rightarrow> int \<Rightarrow> int \<Rightarrow> 'w st \<Rightarrow> bool" where
  "paid \<tau> \<mu> rpm t0 m0 s \<longleftrightarrow>
     (\<exists>ts oks. run_calls allow ts (new_bucket rpm t0) = (oks, st_bucket s) \<and> list_all gap_ok (gaps t0 ts)
        \<and> t0 \<le> last (t0 # ts) \<and> last (t0 # ts) \<le> \<tau> (st_world s) \<and> \<mu> (st_world s) \<le> m0 + admitted oks)"

lemma paid_costs:
  assumes "paid \<tau> \<mu> rpm t0 m0 s" "costs \<tau> \<mu> 0 s s'"
  shows "paid \<tau> \<mu> rpm t0 m0 s'"
proof -
  obtain ts oks where p: "run_calls allow ts (new_bucket rpm t0) = (oks, st_bucket s)" "list_all gap_ok (gaps t0 ts)"
    "t0 \<le> last (t0 # ts)" "last (t0 # ts) \<le> \<tau> (st_world s)" "\<mu> (st_world s) \<le> m0 + admitted oks"
    using assms(1) unfolding paid_def by blast
  have c: "st_bucket s' = st_bucket s" "\<tau> (st_world s) \<le> \<tau> (st_world s')" "\<mu> (st_world s') \<le> \<mu> (st_world s)"
    using assms(2) by (simp_all add: costs_def)
  show ?thesis
    unfolding paid_def using p(1-3) order_trans [OF p(4) c(2)] order_trans [OF c(3) p(5)]
    by (intro exI [of _ ts] exI [of _ oks]) (simp add: c(1))
qed

lemma paid_allow:
  assumes "paid \<tau> \<mu> rpm t0 m0 s" "allow t (st_bucket s) = (ok, b)" "\<tau> (st_world s) \<le> t" "t < 2 ^ 63" "0 \<le> t0"
    and "st_bucket s' = b" "t \<le> \<tau> (st_world s')" "\<mu> (st_world s') \<le> \<mu> (st_world s) + (if ok then 1 else 0)"
  shows "paid \<tau> \<mu> rpm t0 m0 s'"
proof -
  obtain ts oks where p: "run_calls allow ts (new_bucket rpm t0) = (oks, st_bucket s)" "list_all gap_ok (gaps t0 ts)"
    "t0 \<le> last (t0 # ts)" "last (t0 # ts) \<le> \<tau> (st_world s)" "\<mu> (st_world s) \<le> m0 + admitted oks"
    using assms(1) unfolding paid_def by blast
  from run_calls_snoc [OF p(1) assms(2)]
  have "run_calls allow (ts @ [t]) (new_bucket rpm t0) = (oks @ [ok], st_bucket s')" by (simp add: assms(6))
  moreover have "list_all gap_ok (gaps t0 (ts @ [t]))"
    using p(2-4) assms(3-5) by (simp add: gaps_snoc gap_ok_def)
  moreover have "\<mu> (st_world s') \<le> m0 + admitted (oks @ [ok])" using p(5) assms(8) by (simp add: admitted_snoc)
  moreover have "t0 \<le> last (t0 # ts @ [t])" "last (t0 # ts @ [t]) \<le> \<tau> (st_world s')"
    using p(3,4) assms(3,7) by simp_all
  ultimately show ?thesis unfolding paid_def by blast
qed

definition keeps_paid :: "('w \<Rightarrow> int) \<Rightarrow> ('w \<Rightarrow> int) \<Rightarrow> int \<Rightarrow> int \<Rightarrow> int \<Rightarrow> 'w handler \<Rightarrow> bool" where
  "keeps_paid \<tau> \<mu> rpm t0 m0 h \<longleftrightarrow>
     (\<forall>w r s. paid \<tau> \<mu> rpm t0 m0 s \<longrightarrow> paid \<tau> \<mu> rpm t0 m0 (res_state (h w r s)))"

lemma keeps_paidD:
  "keeps_paid \<tau> \<mu> rpm t0 m0 h \<Longrightarrow> paid \<tau> \<mu> rpm t0 m0 s \<Longrightarrow> h w r s = (s', ops, oc) \<Longrightarrow> paid \<tau> \<mu> rpm t0 m0 s'"
  unfolding keeps_paid_def by (metis res_simps(1))

lemma keeps_paidI:
  "(\<And>w r s s' ops oc. paid \<tau> \<mu> rpm t0 m0 s \<Longrightarrow> m w r s = (s', ops, oc) \<Longrightarrow> paid \<tau> \<mu> rpm t0 m0 s')
    \<Longrightarrow> keeps_paid \<tau> \<mu> rpm t0 m0 m"
  unfolding keeps_paid_def res_state_def by (metis prod.collapse)

lemma RateLimit_keeps_paid:
  assumes "metered e \<tau> \<mu>" "frugal \<tau> \<mu> h" "0 < rpm" "0 \<le> t0" "\<forall>w. \<tau> w < 2 ^ 63"
  shows "keeps_paid \<tau> \<mu> rpm t0 m0 (RateLimit e rpm h)"
proof (rule keeps_paidI)
  fix w r s s' ops oc
  assume p: "paid \<tau> \<mu> rpm t0 m0 s" and m: "RateLimit e rpm h w r s = (s', ops, oc)"
  obtain t s1 where t: "read_clock e s = (t, s1)" by force
  obtain ok b where b: "allow t (st_bucket s1) = (ok, b)" by force
  let ?s = "s1\<lparr>st_bucket := b\<rparr>"
  note clock = costs_clock [OF assms(1) t]
  have sb: "st_bucket s1 = st_bucket s" "\<mu> (st_world s1) \<le> \<mu> (st_world s)" using clock(3) by (simp_all add: costs_def)
  have "t < 2 ^ 63" using clock(2) assms(5) by (meson le_less_trans)
  note pay = paid_allow [OF p b [unfolded sb(1)] clock(1) this assms(4)]
  show "paid \<tau> \<mu> rpm t0 m0 s'"
  proof (cases ok)
    case False
    with m assms(3) have "s' = ?s" by (auto simp: RateLimit_def Let_def t b reply_def)
    with clock(2) sb(2) False show ?thesis by (intro pay) simp_all
  next
    case True
    with m assms(3) have "h w r ?s = (s', ops, oc)" by (simp add: RateLimit_def Let_def t b)
    from frugalD [OF assms(2) this] clock(2) sb(2) True show ?thesis
      by (intro pay) (simp_all add: costs_def)
  qed
qed

subsection \<open>Outside the limiter\<close>

lemma keeps_CORS: "preserves (keeps_paid \<tau> \<mu> rpm t0 m0) (CORS cfg)"
  by (intro preservesI keeps_paidI)
    (auto simp: CORS_def Let_def prepend_def reply_def split: prod.splits if_splits dest: keeps_paidD)

lemma keeps_RealIP: "preserves (keeps_paid \<tau> \<mu> rpm t0 m0) RealIP"
  by (intro preservesI keeps_paidI) (auto simp: RealIP_def dest: keeps_paidD)

lemma keeps_Auth: "preserves (keeps_paid \<tau> \<mu> rpm t0 m0) (Auth a)"
  by (intro preservesI keeps_paidI)
    (auto simp: Auth_def Let_def reply_def split: if_splits sum.splits dest: keeps_paidD)

lemma paid_free [simp]:
  "paid \<tau> \<mu> rpm t0 m0 (s\<lparr>st_log := l\<rparr>) = paid \<tau> \<mu> rpm t0 m0 s"
  "paid \<tau> \<mu> rpm t0 m0 (s\<lparr>st_panics := p\<rparr>) = paid \<tau> \<mu> rpm t0 m0 s"
  "paid \<tau> \<mu> rpm t0 m0 (s\<lparr>st_metrics := x\<rparr>) = paid \<tau> \<mu> rpm t0 m0 s"
  "paid \<tau> \<mu> rpm t0 m0 (s\<lparr>st_spans := y\<rparr>) = paid \<tau> \<mu> rpm t0 m0 s"
  by (simp_all add: paid_def)

lemma keeps_Recovery: "preserves (keeps_paid \<tau> \<mu> rpm t0 m0) Recovery"
  by (intro preservesI keeps_paidI)
    (auto simp: Recovery_def Let_def split: prod.splits outcome.splits dest: keeps_paidD)

lemma keeps_RequestID:
  assumes "metered e \<tau> \<mu>"
  shows "preserves (keeps_paid \<tau> \<mu> rpm t0 m0) (RequestID e)"
proof (intro preservesI keeps_paidI)
  fix h :: "'a handler" and w r s s' ops oc
  assume h: "keeps_paid \<tau> \<mu> rpm t0 m0 h" and p: "paid \<tau> \<mu> rpm t0 m0 s" and m: "RequestID e h w r s = (s', ops, oc)"
  obtain i s1 where i: "(if hget (r_header r) ''X-Request-ID'' = []
      then let (u, w1) = uuid_new e (st_world s) in (u, s\<lparr>st_world := w1\<rparr>)
      else (hget (r_header r) ''X-Request-ID'', s)) = (i, s1)" by force
  have "costs \<tau> \<mu> 0 s s1"
    using i assms by (auto simp: costs_def metered_def split: if_splits prod.splits)
  with p have "paid \<tau> \<mu> rpm t0 m0 s1" by (rule paid_costs)
  moreover obtain r' ops' where "h w r' s1 = (s', ops', oc)"
  proof -
    let ?r = "r\<lparr>r_ctx := (r_ctx r)\<lparr>c_request_id := Some i\<rparr>\<rparr>"
    have "RequestID e h w r s = prepend [SetHeader ''X-Request-ID'' i] (h w ?r s1)"
      by (simp only: RequestID_def i [unfolded Let_def] Let_def prod.case)
    with m that [of ?r] show thesis by (cases "h w ?r s1") (auto simp: prepend_def)
  qed
  ultimately show "paid \<tau> \<mu> rpm t0 m0 s'" by (rule keeps_paidD [OF h])
qed

text \<open>The recorders read the clock before and after the inner handler, at most.\<close>

lemma keeps_clocked:
  assumes "metered e \<tau> \<mu>" "keeps_paid \<tau> \<mu> rpm t0 m0 h" "paid \<tau> \<mu> rpm t0 m0 s"
    and "read_clock e s = (t, s1)" "h w r s1 = (s2, ops, oc)"
  shows "paid \<tau> \<mu> rpm t0 m0 s2" "read_clock e s2 = (u, s3) \<Longrightarrow> paid \<tau> \<mu> rpm t0 m0 s3"
proof -
  show p: "paid \<tau> \<mu> rpm t0 m0 s2"
    using keeps_paidD [OF assms(2) paid_costs [OF assms(3) costs_clock(3) [OF assms(1,4)]] assms(5)] .
  show "read_clock e s2 = (u, s3) \<Longrightarrow> paid \<tau> \<mu> rpm t0 m0 s3"
    using paid_costs [OF p costs_clock(3) [OF assms(1)]] .
qed

lemma keeps_AccessLog:
  assumes "metered e \<tau> \<mu>"
  shows "preserves (keeps_paid \<tau> \<mu> rpm t0 m0) (AccessLog e)"
proof (intro preservesI keeps_paidI)
  fix h :: "'a handler" and w r s s' ops oc
  assume h: "keeps_paid \<tau> \<mu> rpm t0 m0 h" and p: "paid \<tau> \<mu> rpm t0 m0 s" and m: "AccessLog e h w r s = (s', ops, oc)"
  obtain t s1 where t: "read_clock e s = (t, s1)" by force
  obtain s2 ops2 oc2 where i: "h wrapped r s1 = (s2, ops2, oc2)" by (cases "h wrapped r s1") auto
  obtain u s3 where u: "read_clock e s2 = (u, s3)" by force
  from keeps_clocked(1) [OF assms h p t i] keeps_clocked(2) [OF assms h p t i u] show "paid \<tau> \<mu> rpm t0 m0 s'"
    using m by (cases oc2) (auto simp: AccessLog_def Let_def t i u)
qed

lemma keeps_Metrics:
  assumes "metered e \<tau> \<mu>"
  shows "preserves (keeps_paid \<tau> \<mu> rpm t0 m0) (Metrics e)"
proof (intro preservesI keeps_paidI)
  fix h :: "'a handler" and w r s s' ops oc
  assume h: "keeps_paid \<tau> \<mu> rpm t0 m0 h" and p: "paid \<tau> \<mu> rpm t0 m0 s" and m: "Metrics e h w r s = (s', ops, oc)"
  obtain t s1 where t: "read_clock e s = (t, s1)" by force
  obtain s2 ops2 oc2 where i: "h wrapped r s1 = (s2, ops2, oc2)" by (cases "h wrapped r s1") auto
  obtain u s3 where u: "read_clock e s2 = (u, s3)" by force
  from keeps_clocked(1) [OF assms h p t i] keeps_clocked(2) [OF assms h p t i u] show "paid \<tau> \<mu> rpm t0 m0 s'"
    using m by (cases oc2) (auto simp: Metrics_def Let_def t i u)
qed

lemma keeps_Tracing:
  assumes "metered e \<tau> \<mu>"
  shows "preserves (keeps_paid \<tau> \<mu> rpm t0 m0) (Tracing e)"
proof (intro preservesI keeps_paidI)
  fix h :: "'a handler" and w r s s' ops oc
  assume h: "keeps_paid \<tau> \<mu> rpm t0 m0 h" and p: "paid \<tau> \<mu> rpm t0 m0 s" and m: "Tracing e h w r s = (s', ops, oc)"
  obtain sc w1 where t: "tracer_start e (prop_extract e (r_header r) []) (r_method r @ '' '' @ r_path r)
      [(''http.method'', r_method r), (''http.url'', r_url r), (''http.route'', r_path r),
       (''http.user_agent'', user_agent r), (''net.peer.ip'', r_remote r)] (st_world s) = (sc, w1)"
    by force
  have "\<tau> (st_world s) \<le> \<tau> w1" "\<mu> w1 = \<mu> (st_world s)" using assms t unfolding metered_def by blast+
  then have "costs \<tau> \<mu> 0 s (s\<lparr>st_world := w1\<rparr>)" by (simp add: costs_def)
  from paid_costs [OF p this] have p1: "paid \<tau> \<mu> rpm t0 m0 (s\<lparr>st_world := w1\<rparr>)" .
  obtain s2 ops2 oc2 where i: "h wrapped r (s\<lparr>st_world := w1\<rparr>) = (s2, ops2, oc2)"
    by (cases "h wrapped r (s\<lparr>st_world := w1\<rparr>)") auto
  have "paid \<tau> \<mu> rpm t0 m0 s2" by (rule keeps_paidD [OF h p1 i])
  then show "paid \<tau> \<mu> rpm t0 m0 s'"
    using m t i by (cases oc2) (auto simp: Tracing_def Let_def)
qed

subsection \<open>Any load\<close>

fun serve_all :: "'w handler \<Rightarrow> (writer \<times> request) list \<Rightarrow> 'w st \<Rightarrow> 'w st" where
  "serve_all h [] s = s"
| "serve_all h ((w, r) # rs) s = serve_all h rs (res_state (h w r s))"

lemma serve_all_paid:
  "keeps_paid \<tau> \<mu> rpm t0 m0 h \<Longrightarrow> paid \<tau> \<mu> rpm t0 m0 s \<Longrightarrow> paid \<tau> \<mu> rpm t0 m0 (serve_all h rs s)"
  by (induction h rs s rule: serve_all.induct) (simp_all add: keeps_paid_def)

lemma Router_keeps_paid:
  assumes "chi_use chi" "metered e \<tau> \<mu>" "frugal \<tau> \<mu> (dispatch chi e d m cfg)"
    and "rl_enabled (cf_rate_limit cfg)" "0 < rl_rpm (cf_rate_limit cfg)" "0 \<le> t0" "\<forall>w. \<tau> w < 2 ^ 63"
  shows "keeps_paid \<tau> \<mu> (rl_rpm (cf_rate_limit cfg)) t0 m0 (Router chi e d m cfg)"
proof -
  let ?K = "keeps_paid \<tau> \<mu> (rl_rpm (cf_rate_limit cfg)) t0 m0"
  define below where "below = (if rl_principal_rpm (cf_rate_limit cfg) > 0
      then [PrincipalRateLimit e (rl_principal_rpm (cf_rate_limit cfg))] else []) @
     [MaxBodySize (gv_max_body (cf_governance cfg)),
      EndpointTimeout e (gv_default_timeout (cf_governance cfg)) (gv_query_timeout (cf_governance cfg)),
      Idempotency e \<lparr>ic_ttl = 0, ic_prefixes = []\<rparr>]"
  have "list_all (preserves (frugal \<tau> \<mu>)) below"
    by (simp add: below_def frugal_PrincipalRateLimit [OF assms(2)] frugal_MaxBodySize
        frugal_EndpointTimeout [OF assms(2)] frugal_Idempotency [OF assms(2)])
  from chain_preserves [where Q = "frugal \<tau> \<mu>", OF this assms(3)]
  have "?K (RateLimit e (rl_rpm (cf_rate_limit cfg)) (chain below (dispatch chi e d m cfg)))"
    by (rule RateLimit_keeps_paid [OF assms(2) _ assms(5-7)])
  moreover have "chain (inner_stack e cfg) h = RateLimit e (rl_rpm (cf_rate_limit cfg)) (chain below h)" for h
    using assms(4) by (simp add: inner_stack_def below_def)
  moreover have "list_all (preserves ?K) (edge_stack e cfg @ [Auth (router_auth cfg)])"
    by (simp add: edge_stack_def keeps_CORS keeps_RequestID [OF assms(2)] keeps_RealIP keeps_Recovery
        keeps_AccessLog [OF assms(2)] keeps_Metrics [OF assms(2)] keeps_Tracing [OF assms(2)] keeps_Auth)
  ultimately show ?thesis
    using chain_preserves [where Q = ?K, of "edge_stack e cfg @ [Auth (router_auth cfg)]"]
    by (simp add: Router_chain [OF assms(1)] stack_chain)
qed

text \<open>C7. The global rate limit protects the engine: from the start of the server, whatever sequence of
  requests comes in, and whatever they are, the work their endpoints do (any measure \<open>\<mu>\<close> to which
  one endpoint adds at most one) is at most the configured burst plus what the time that has
  passed on the server's clock pays for at the configured rate, up to the rounding of \<open>float64\<close>.\<close>

theorem engine_load_is_bounded:
  assumes "chi_use chi" "metered e \<tau> \<mu>" "frugal \<tau> \<mu> (dispatch chi e d m cfg)"
    and "rl_enabled (cf_rate_limit cfg)" "0 < rl_rpm (cf_rate_limit cfg)" "rl_rpm (cf_rate_limit cfg) \<le> max_rpm"
    and "\<forall>w. 0 \<le> \<tau> w \<and> \<tau> w < 2 ^ 63"
    and "serve_all (Router chi e d m cfg) rs (router_state e cfg w0) = s'"
  shows "(of_int (\<mu> (st_world s') - \<mu> w0) :: rat)
    \<le> of_int (rl_rpm (cf_rate_limit cfg))
      + of_int ((\<tau> (st_world s') - \<tau> w0) * rl_rpm (cf_rate_limit cfg)) / of_int minute * (1 + 1 / 2 ^ 50)"
proof -
  let ?rpm = "rl_rpm (cf_rate_limit cfg)"
  obtain t0 w1 where now: "time_now e w0 = (t0, w1)" by force
  then have w1: "\<tau> w0 \<le> t0" "t0 \<le> \<tau> w1" "\<mu> w1 = \<mu> w0" using assms(2) unfolding metered_def by blast+
  then have t0: "0 \<le> t0" using assms(7) by (meson order_trans)
  have "paid \<tau> \<mu> ?rpm t0 (\<mu> w0) (router_state e cfg w0)"
    unfolding paid_def using w1 by (intro exI [of _ "[]"]) (simp add: router_state_def now)
  moreover have "keeps_paid \<tau> \<mu> ?rpm t0 (\<mu> w0) (Router chi e d m cfg)"
    using assms(7) by (intro Router_keeps_paid [OF assms(1-5) t0]) simp
  ultimately have "paid \<tau> \<mu> ?rpm t0 (\<mu> w0) s'" using serve_all_paid assms(8) by blast
  then obtain ts oks where p: "run_calls allow ts (new_bucket ?rpm t0) = (oks, st_bucket s')"
    "list_all gap_ok (gaps t0 ts)" "last (t0 # ts) \<le> \<tau> (st_world s')" "\<mu> (st_world s') \<le> \<mu> w0 + admitted oks"
    unfolding paid_def by blast
  have "(last (t0 # ts) - t0) * ?rpm \<le> (\<tau> (st_world s') - \<tau> w0) * ?rpm"
    using p(3) w1(1) assms(5) by (intro mult_right_mono) simp_all
  then have "of_int ((last (t0 # ts) - t0) * ?rpm) / of_int minute * (1 + 1 / 2 ^ 50 :: rat)
      \<le> of_int ((\<tau> (st_world s') - \<tau> w0) * ?rpm) / of_int minute * (1 + 1 / 2 ^ 50)"
    by (intro mult_right_mono divide_right_mono) (simp_all only: of_int_le_iff minute_def second_def, simp_all)
  moreover have "(of_int (\<mu> (st_world s') - \<mu> w0) :: rat) \<le> of_int (admitted oks)"
    using p(4) by (simp only: of_int_le_iff)
  ultimately show ?thesis using fresh_bucket_admits(1) [OF assms(5,6) p(2,1)] by linarith
qed

text \<open>A world of a clock and a count of the requests served.\<close>

definition clock_of :: "int \<times> int \<Rightarrow> int" where
  "clock_of w = max 0 (min (2 ^ 63 - 1) (fst w))"

definition counting_env :: "(int \<times> int) env" where
  "counting_env = \<lparr>time_now = (\<lambda>w. (clock_of w, (fst w + 1, snd w))), uuid_new = (\<lambda>w. (''uuid'', w)),
     prop_extract = (\<lambda>h n. hget h n), prop_inject = (\<lambda>c. []), tracer_start = (\<lambda>parent name attrs w. (name, w))\<rparr>"

definition counting_chi :: "(int \<times> int) chi" where
  "counting_chi ms rs =
     chain ms (\<lambda>w r s. reply [WriteHeader 200] (s\<lparr>st_world := (fst (st_world s) + 1, snd (st_world s) + 1)\<rparr>))"

definition limited_config :: Config where
  "limited_config = (Default sample_engine)\<lparr>cf_rate_limit := \<lparr>rl_enabled = True, rl_rpm = 60, rl_principal_rpm = 0\<rparr>\<rparr>"

definition loaded :: "(int \<times> int) deps \<Rightarrow> (int \<times> int) mounts \<Rightarrow> (writer \<times> request) list \<Rightarrow> int \<times> int" where
  "loaded d m rs = st_world (serve_all (Router counting_chi counting_env d m limited_config) rs
     (router_state counting_env limited_config (0, 0)))"

lemma engine_load_is_bounded_witness:
  "\<forall>d m rs. (of_int (snd (loaded d m rs)) :: rat)
     \<le> of_int 60 + of_int (clock_of (loaded d m rs) * 60) / of_int minute * (1 + 1 / 2 ^ 50)"
proof (intro allI)
  fix d m rs
  have c: "chi_use counting_chi" by (simp add: chi_use_def counting_chi_def)
  have clock: "clock_of w \<le> clock_of (fst w + 1, n)" for w n by (simp add: clock_of_def max_def min_def)
  then have e: "metered counting_env clock_of snd" by (simp add: metered_def counting_env_def)
  have f: "frugal clock_of snd (dispatch counting_chi counting_env d m limited_config)"
    using clock by (simp add: frugal_def counting_chi_def costs_def)
  have r: "rl_enabled (cf_rate_limit limited_config)" "0 < rl_rpm (cf_rate_limit limited_config)"
    "rl_rpm (cf_rate_limit limited_config) \<le> max_rpm"
    by (simp_all add: limited_config_def max_rpm_def)
  have t: "\<forall>w. 0 \<le> clock_of w \<and> clock_of w < 2 ^ 63" by (simp add: clock_of_def min_def max_def)
  have z: "clock_of (0, 0) = 0" "rl_rpm (cf_rate_limit limited_config) = 60"
    by (simp_all add: clock_of_def limited_config_def)
  from engine_load_is_bounded [OF c e f r t refl, of rs "(0, 0)"]
  show "(of_int (snd (loaded d m rs)) :: rat)
     \<le> of_int 60 + of_int (clock_of (loaded d m rs) * 60) / of_int minute * (1 + 1 / 2 ^ 50)"
    by (simp only: loaded_def z snd_conv diff_zero)
qed

end
