(* ===== verification/Json_Parse_Facts.thy ===== *)
theory Json_Parse_Facts
  imports Json_Parse
begin

text \<open>
  The fuel of the parser is no limit, and the parser reads from left to right: what it accepts
  it accepts whatever follows. So a text that is cut inside its first value is refused.
\<close>

subsection \<open>Enough fuel\<close>

lemma skip_ws_length: "length (skip_ws s) \<le> length s"
  by (simp add: skip_ws_def length_dropWhile_le)

lemma skip_ws_Cons_length: "skip_ws s = c # t \<Longrightarrow> length t < length s"
  using skip_ws_length [of s] by simp

lemma unquote_length: "unquote s = Some (v, r) \<Longrightarrow> length r < length s"
proof (induction s arbitrary: v r rule: unquote.induct)
  case (1 s)
  show ?case
  proof (cases "s \<noteq> [] \<and> hd s = CHR 0x22")
    case True
    with 1(2) show ?thesis by (subst (asm) unquote.simps) auto
  next
    case False
    with 1(2) obtain b k v2 where step: "string_step s = Some (b, k)" and v2: "unquote (drop k s) = Some (v2, r)"
      by (subst (asm) unquote.simps) (auto split: option.splits)
    from 1(1) [OF False step refl v2] show ?thesis by simp
  qed
qed

lemma scan_int_length: "scan_int s = Some (a, r) \<Longrightarrow> length r < length s"
  by (auto simp: scan_int_def less_Suc_eq_le length_dropWhile_le split: list.splits if_splits)

lemma scan_frac_length: "scan_frac s = Some (a, r) \<Longrightarrow> length r \<le> length s"
  by (cases s rule: remdups_adj.cases)
    (auto simp: scan_frac_def intro: le_SucI length_dropWhile_le split: if_splits)

lemma scan_exp_length: "scan_exp s = Some (a, r) \<Longrightarrow> length r \<le> length s"
  by (auto simp: scan_exp_def Let_def intro: le_SucI order_trans [OF length_dropWhile_le]
      split: list.splits if_splits)

lemma scan_number_length: "scan_number s = Some (a, r) \<Longrightarrow> length r < length s"
  by (auto simp: scan_number_def split: list.splits option.splits if_splits
      dest!: scan_int_length scan_frac_length scan_exp_length)

lemma scan_literal_length: "scan_literal s = Some (v, r) \<Longrightarrow> length r < length s"
  by (cases s) (auto simp: scan_literal_def has_prefix_def less_Suc_eq_le dest: scan_number_length split: if_splits)

text \<open>A parse that succeeds with some fuel succeeds with as much as it consumes bytes, or more.\<close>

definition fed :: "(nat \<Rightarrow> ('a \<times> string) option) \<Rightarrow> string \<Rightarrow> 'a \<times> string \<Rightarrow> bool" where
  "fed f s x \<longleftrightarrow> length (snd x) < length s \<and> (\<forall>n. length s - length (snd x) \<le> n \<longrightarrow> f n = Some x)"

lemma fedD: "fed f s (v, r) \<Longrightarrow> length s - length r \<le> n \<Longrightarrow> f n = Some (v, r)"
  by (simp add: fed_def)

lemma fed_length: "fed f s (v, r) \<Longrightarrow> length r < length s"
  by (simp add: fed_def)

lemma fedI: "length r < length s \<Longrightarrow> (\<And>n. length s - length r \<le> Suc n \<Longrightarrow> f (Suc n) = Some (v, r)) \<Longrightarrow> fed f s (v, r)"
proof (unfold fed_def snd_conv, intro conjI allI impI)
  fix n
  assume "length r < length s" "length s - length r \<le> n"
    and step: "\<And>n. length s - length r \<le> Suc n \<Longrightarrow> f (Suc n) = Some (v, r)"
  then obtain m where "n = Suc m" by (cases n) auto
  with step \<open>length s - length r \<le> n\<close> show "f n = Some (v, r)" by simp
qed simp

lemma parse_fed:
  "parse_value m d s = Some (v, r) \<Longrightarrow> fed (\<lambda>n. parse_value n d s) s (v, r)"
  "parse_elems m d s = Some (vs, r) \<Longrightarrow> fed (\<lambda>n. parse_elems n d s) s (vs, r)"
  "parse_members m d s = Some (ms, r) \<Longrightarrow> fed (\<lambda>n. parse_members n d s) s (ms, r)"
proof (induction m d s and m d s and m d s arbitrary: v r and vs r and ms r
    rule: parse_value_parse_elems_parse_members.induct)
  case (2 m d s)
  from 2(3) obtain c t where s: "skip_ws s = c # t" by (auto split: list.splits)
  note len = skip_ws_Cons_length [OF s]
  note ltail = order_le_less_trans [OF diff_le_self len]
  consider (str) "c = CHR 0x22" | (arr) "c = CHR ''[''" | (obj) "c = CHR ''{''"
    | (lit) "c \<noteq> CHR 0x22" "c \<noteq> CHR ''[''" "c \<noteq> CHR ''{''" by blast
  then show ?case
  proof cases
    case str
    with 2(3) s obtain x where "unquote t = Some (x, r)" "v = JStr x" by auto
    with str s len unquote_length show ?thesis by (intro fedI) fastforce+
  next
    case arr
    show ?thesis
    proof (cases "skip_ws t \<noteq> [] \<and> hd (skip_ws t) = CHR '']''")
      case True
      then have "length (tl (skip_ws t)) < length t" using skip_ws_length [of t] by (cases "skip_ws t") auto
      with True arr 2(3) s len show ?thesis by (intro fedI) (auto split: if_splits)
    next
      case False
      with 2(3) s arr obtain xs where d: "0 < d" and xs: "parse_elems m (d - 1) t = Some (xs, r)" "v = JArr xs"
        by (auto split: if_splits)
      from False arr d have "fed (\<lambda>n. parse_elems n (d - 1) t) t (xs, r)"
        using 2(1) [OF s _ _ _ _ xs(1)] by auto
      with fed_length [OF this] fedD [OF this] False arr d xs(2) s len show ?thesis by (intro fedI) auto
    qed
  next
    case obj
    show ?thesis
    proof (cases "skip_ws t \<noteq> [] \<and> hd (skip_ws t) = CHR ''}''")
      case True
      then have "length (tl (skip_ws t)) < length t" using skip_ws_length [of t] by (cases "skip_ws t") auto
      with True obj 2(3) s len show ?thesis by (intro fedI) (auto split: if_splits)
    next
      case False
      with 2(3) s obj obtain xs where d: "0 < d" and xs: "parse_members m (d - 1) t = Some (xs, r)" "v = JObj xs"
        by (auto split: if_splits)
      from False obj d have "fed (\<lambda>n. parse_members n (d - 1) t) t (xs, r)"
        using 2(2) [OF s _ _ _ _ _ xs(1)] by auto
      with fed_length [OF this] fedD [OF this] False obj d xs(2) s len show ?thesis by (intro fedI) auto
    qed
  next
    case lit
    with 2(3) s have "scan_literal (c # t) = Some (v, r)" by simp
    with lit s len scan_literal_length [OF this] skip_ws_length [of s] show ?thesis by (intro fedI) auto
  qed
next
  case (4 m d s)
  from 4(3) obtain v r1 c t where v: "parse_value m d s = Some (v, r1)" and r1: "skip_ws r1 = c # t"
    by (auto split: option.splits prod.splits list.splits)
  note fv = 4(1) [OF v]
  note len = skip_ws_Cons_length [OF r1] fed_length [OF fv]
  show ?case
  proof (cases "c = CHR '']''")
    case True
    with 4(3) v r1 have "vs = [v]" "r = t" by auto
    with True r1 len fedD [OF fv] show ?thesis by (intro fedI) auto
  next
    case False
    with 4(3) v r1 obtain vs2 where c: "c = CHR '',''" and vs2: "parse_elems m d t = Some (vs2, r)" "vs = v # vs2"
      by (auto split: if_splits)
    have fe: "fed (\<lambda>n. parse_elems n d t) t (vs2, r)" using 4(2) [OF v refl r1 False c vs2(1)] .
    with fed_length [OF fe] fedD [OF fe] fedD [OF fv] False c vs2(2) r1 len show ?thesis by (intro fedI) auto
  qed
next
  case (6 m d s)
  from 6(3) obtain t where s: "skip_ws s = CHR 0x22 # t" by (auto split: list.splits if_splits)
  with 6(3) obtain k r1 where k: "unquote t = Some (k, r1)" by (auto split: option.splits)
  with 6(3) s obtain r2 where r1: "skip_ws r1 = CHR '':'' # r2" by (auto split: list.splits if_splits)
  with 6(3) s k obtain v r3 where v: "parse_value m d r2 = Some (v, r3)" by (auto split: option.splits)
  with 6(3) s k r1 obtain e u where r3: "skip_ws r3 = e # u" by (auto split: list.splits)
  have fv: "fed (\<lambda>n. parse_value n d r2) r2 (v, r3)"
    using 6(1) [OF s _ k refl r1 _ v] by simp
  note len = skip_ws_Cons_length [OF s] unquote_length [OF k] skip_ws_Cons_length [OF r1] fed_length [OF fv]
    skip_ws_Cons_length [OF r3]
  show ?case
  proof (cases "e = CHR ''}''")
    case True
    with 6(3) s k r1 v r3 have "ms = [(k, v)]" "r = u" by auto
    with True s k r1 r3 len fedD [OF fv] show ?thesis by (intro fedI) auto
  next
    case False
    with 6(3) s k r1 v r3 obtain ms2 where e: "e = CHR '',''" and ms2: "parse_members m d u = Some (ms2, r)"
        "ms = (k, v) # ms2" by (auto split: if_splits)
    have fm: "fed (\<lambda>n. parse_members n d u) u (ms2, r)"
      using 6(2) [OF s _ k refl r1 _ v refl r3 False e ms2(1)] by simp
    with fed_length [OF fm] fedD [OF fm] fedD [OF fv] False e ms2(2) s k r1 r3 len show ?thesis
      by (intro fedI) auto
  qed
qed simp_all

text \<open>So the fuel of \<open>first_value\<close> is no limit: with any other fuel it finds nothing more.\<close>

lemma first_value_fuel: "first_value s = Some (v, r) \<longleftrightarrow> (\<exists>n. parse_value n max_depth s = Some (v, r))"
  unfolding first_value_def using fedD [OF parse_fed(1)] by (metis diff_le_self le_add1 le_trans)

subsection \<open>What follows a value does not matter\<close>

text \<open>In what can still be cut: a number that ends with the input.\<close>

definition closed_value :: "json \<Rightarrow> string \<Rightarrow> bool" where
  "closed_value v r \<longleftrightarrow> r \<noteq> [] \<or> (\<forall>x. v \<noteq> JNum x)"

lemma skip_ws_append: "skip_ws s \<noteq> [] \<Longrightarrow> skip_ws (s @ u) = skip_ws s @ u"
  by (induction s) (auto simp: skip_ws_def)

lemma hex4_None: "None \<in> set (map hex_val (take 4 s)) \<Longrightarrow> hex4 s = None"
  by (auto simp: hex4_def simp del: set_map list.set_map split: list.splits option.splits)

lemma hex4_short: "length s < 4 \<Longrightarrow> hex4 s = None"
  by (auto simp: hex4_def dest!: arg_cong [of _ _ length] split: list.splits option.splits)

lemma hex4_append:
  assumes "CHR 0x22 \<in> set s \<or> hex4 s \<noteq> None"
  shows "hex4 (s @ u) = hex4 s"
proof (cases "length s < 4")
  case False
  then show ?thesis by (simp add: hex4_def)
next
  case True
  have q: "hex_val (CHR 0x22) = None" by code_simp
  from True have "hex4 s = None" by (rule hex4_short)
  with assms have "CHR 0x22 \<in> set s" by simp
  with True have "None \<in> set (map hex_val (take 4 (s @ u)))" using q by (force simp: image_iff)
  with \<open>hex4 s = None\<close> show ?thesis by (simp add: hex4_None del: set_map list.set_map)
qed

lemma surrogate_append:
  "CHR 0x22 \<in> set rest \<Longrightarrow> surrogate_pair x (rest @ u) = surrogate_pair x rest"
proof (cases rest rule: remdups_adj.cases)
  case (3 a b t)
  assume "CHR 0x22 \<in> set rest"
  with 3 have "a \<noteq> CHR 0x5C \<or> b \<noteq> CHR ''u'' \<or> CHR 0x22 \<in> set t" by auto
  with 3 hex4_append [of t u] show ?thesis by (auto simp: surrogate_pair_def)
qed (auto simp: surrogate_pair_def split: list.splits)

lemma rune_width_more:
  assumes "CHR 0x22 \<in> set s"
  shows "rune_width (s @ u) = rune_width s"
proof (cases s)
  case (Cons a t)
  have q: "\<not> byte_in lo hi (CHR 0x22)" if "35 \<le> lo" for lo hi using that by (simp add: byte_in_def)
  show ?thesis
  proof (cases "byte_val a < 128")
    case False
    with assms Cons have t: "CHR 0x22 \<in> set t" by auto
    have "width2 (t @ u) = width2 t" using t by (cases t) (auto simp: width2_def)
    moreover have "width3 a (t @ u) = width3 a t"
      using t q by (cases t rule: remdups_adj.cases; cases u) (auto simp: width3_def)
    moreover have "width4 a (t @ u) = width4 a t"
    proof -
      consider b where "t = [b]" | b c where "t = [b, c]" | b c d t2 where "t = b # c # d # t2"
        using t by (cases t; cases "tl t"; cases "tl (tl t)") auto
      then show ?thesis
        using t q by cases (auto simp: width4_def split: list.splits)
    qed
    ultimately show ?thesis by (simp add: Cons)
  qed (simp add: Cons)
qed (use assms in simp)

lemma string_step_plain:
  "c \<noteq> CHR 0x5C \<Longrightarrow> string_step (c # t) =
     (if byte_val c < 32 then None
      else if rune_width (c # t) = 0 then Some (utf8_enc replacement, 1)
      else Some (take (rune_width (c # t)) (c # t), rune_width (c # t)))"
  unfolding string_step_def list.case if_False by (simp del: rune_width.simps)

lemma string_step_append:
  assumes "string_step s = Some (b, k)" "CHR 0x22 \<in> set (drop k s)"
  shows "string_step (s @ u) = Some (b, k)" "k \<le> length s"
proof -
  show "k \<le> length s" using assms(2) by (cases "k \<le> length s") simp_all
  have q: "CHR 0x22 \<in> set s" using assms(2) by (meson in_set_dropD)
  obtain c t where s: "s = c # t" using string_step_pos [OF assms(1)] by (cases s) auto
  show "string_step (s @ u) = Some (b, k)"
  proof (cases "c = CHR 0x5C")
    case False
    have w: "rune_width (s @ u) = rune_width s" by (rule rune_width_more [OF q])
    have "take (rune_width s) (s @ u) = take (rune_width s) s" if "rune_width s = k"
      using that \<open>k \<le> length s\<close> by simp
    with assms(1) w show ?thesis
      unfolding s append_Cons string_step_plain [OF False] by (auto simp del: rune_width.simps split: if_splits)
  next
    case True
    then obtain d t2 where t: "t = d # t2" using assms(1) s by (auto simp: string_step_def split: list.splits)
    show ?thesis
    proof (cases "d = CHR ''u''")
      case True
      with assms(1) s t \<open>c = CHR 0x5C\<close> obtain x r j where x: "hex4 t2 = Some x"
          "surrogate_pair x (drop 4 t2) = (r, j)" "b = utf8_enc r" "k = 6 + j"
        by (auto simp: string_step_def split: option.splits prod.splits)
      have "drop k s = drop j (drop 4 t2)" unfolding s t x(4) by (simp add: eval_nat_numeral)
      then have "CHR 0x22 \<in> set (drop 4 t2)" using assms(2) in_set_dropD by metis
      moreover have "4 \<le> length t2" using x(1) hex4_short [of t2] by (cases "length t2 < 4") simp_all
      ultimately show ?thesis
        using x hex4_append [of t2 u] surrogate_append [of "drop 4 t2" x u] s t \<open>c = CHR 0x5C\<close> True
        by (simp add: string_step_def)
    next
      case False
      with assms(1) s t \<open>c = CHR 0x5C\<close> show ?thesis by (simp add: string_step_def)
    qed
  qed
qed

lemma unquote_quote: "unquote s = Some (v, r) \<Longrightarrow> CHR 0x22 \<in> set s"
proof (induction s arbitrary: v r rule: unquote.induct)
  case (1 s)
  show ?case
  proof (cases "s \<noteq> [] \<and> hd s = CHR 0x22")
    case True
    then show ?thesis by (cases s) auto
  next
    case False
    with 1(2) obtain b k v2 where step: "string_step s = Some (b, k)" and v2: "unquote (drop k s) = Some (v2, r)"
      by (subst (asm) unquote.simps) (auto split: option.splits)
    from 1(1) [OF False step refl v2] show ?thesis by (meson in_set_dropD)
  qed
qed

lemma unquote_append: "unquote s = Some (v, r) \<Longrightarrow> unquote (s @ u) = Some (v, r @ u)"
proof (induction s arbitrary: v r rule: unquote.induct)
  case (1 s)
  show ?case
  proof (cases "s \<noteq> [] \<and> hd s = CHR 0x22")
    case True
    with 1(2) show ?thesis by (subst unquote.simps, subst (asm) unquote.simps) auto
  next
    case False
    with 1(2) obtain b k v2 where step: "string_step s = Some (b, k)" and v2: "unquote (drop k s) = Some (v2, r)"
      and v: "v = b @ v2" by (subst (asm) unquote.simps) (auto split: option.splits)
    note st = string_step_append(1) [OF step unquote_quote [OF v2], of u]
      string_step_append(2) [OF step unquote_quote [OF v2]]
    have "s \<noteq> []" using string_step_pos [OF step] by simp
    with 1(1) [OF False step refl v2] st False v show ?thesis
      by (subst unquote.simps) simp
  qed
qed

lemma while_append:
  "dropWhile P xs \<noteq> [] \<Longrightarrow> takeWhile P (xs @ u) = takeWhile P xs \<and> dropWhile P (xs @ u) = dropWhile P xs @ u"
  by (induction xs) auto

lemma scan_int_more: "scan_int s = Some (a, r) \<Longrightarrow> r \<noteq> [] \<Longrightarrow> scan_int (s @ u) = Some (a, r @ u)"
  using while_append [of is_digit s u] by (auto simp: scan_int_def split: list.splits if_splits)

lemma scan_frac_more: "scan_frac s = Some (a, r) \<Longrightarrow> r \<noteq> [] \<Longrightarrow> scan_frac (s @ u) = Some (a, r @ u)"
  using while_append [of is_digit "tl s" u]
  by (cases s rule: remdups_adj.cases; cases u) (auto simp: scan_frac_def split: if_splits)

lemma scan_exp_more: "scan_exp s = Some (a, r) \<Longrightarrow> r \<noteq> [] \<Longrightarrow> scan_exp (s @ u) = Some (a, r @ u)"
  using while_append [of is_digit "tl s" u] while_append [of is_digit "tl (tl s)" u]
  by (cases s rule: remdups_adj.cases) (auto simp: scan_exp_def Let_def split: list.splits if_splits)

lemma scan_number_Cons:
  "scan_number (c # t) = Some (a, b) \<longleftrightarrow>
     (\<exists>ip s2 fp s3 ep. scan_int (if c = CHR ''-'' then t else c # t) = Some (ip, s2) \<and> scan_frac s2 = Some (fp, s3)
        \<and> scan_exp s3 = Some (ep, b) \<and> a = (if c = CHR ''-'' then [c] else []) @ ip @ fp @ ep)"
  unfolding scan_number_def by (cases "c = CHR ''-''") (simp_all split: option.splits prod.splits, fastforce+)

lemma scan_number_more:
  assumes "scan_number s = Some (a, r)" "r \<noteq> []"
  shows "scan_number (s @ u) = Some (a, r @ u)"
proof -
  obtain c t where s: "s = c # t" using scan_number_length [OF assms(1)] by (cases s) auto
  obtain ip s2 fp s3 ep where parts: "scan_int (if c = CHR ''-'' then t else c # t) = Some (ip, s2)"
      "scan_frac s2 = Some (fp, s3)" "scan_exp s3 = Some (ep, r)"
    and a: "a = (if c = CHR ''-'' then [c] else []) @ ip @ fp @ ep"
    using assms(1) unfolding s scan_number_Cons by blast
  have ne: "s3 \<noteq> []" "s2 \<noteq> []"
    using assms(2) scan_exp_length [OF parts(3)] scan_frac_length [OF parts(2)] by auto
  have "scan_int (if c = CHR ''-'' then t @ u else c # t @ u) = Some (ip, s2 @ u)"
    using scan_int_more [OF parts(1) ne(2), of u] by (simp split: if_splits)
  then show ?thesis
    using scan_frac_more [OF parts(2) ne(1)] scan_exp_more [OF parts(3) assms(2)] a
    unfolding s append_Cons scan_number_Cons by blast
qed

lemma scan_number_start: "scan_number s = Some (a, r) \<Longrightarrow> \<exists>c t. s = c # t \<and> (c = CHR ''-'' \<or> is_digit c)"
  by (cases s) (auto simp: scan_number_def scan_int_def is_digit_def split: if_splits option.splits prod.splits)

lemma scan_literal_more:
  assumes "scan_literal s = Some (v, r)" "closed_value v r"
  shows "scan_literal (s @ u) = Some (v, r @ u)"
proof (cases "\<exists>x. v = JNum x")
  case True
  with assms have num: "scan_number s = Some (the (map_option fst (scan_number s)), r)" "r \<noteq> []"
      "v = JNum (the (map_option fst (scan_number s)))"
    by (auto simp: scan_literal_def closed_value_def split: if_splits)
  then obtain c t where "s = c # t" "c = CHR ''-'' \<or> is_digit c" using scan_number_start by blast
  with scan_number_more [OF num(1,2), of u] num(3) show ?thesis
    by (auto simp: scan_literal_def has_prefix_def is_digit_def)
next
  case False
  with assms(1) have "has_prefix s ''null'' \<and> v = JNull \<and> r = drop 4 s \<or> has_prefix s ''true'' \<and> v = JBool True \<and> r = drop 4 s
      \<or> has_prefix s ''false'' \<and> v = JBool False \<and> r = drop 5 s"
    by (auto simp: scan_literal_def split: if_splits)
  then show ?thesis by (auto simp: scan_literal_def has_prefix_iff)
qed

lemma elems_start: "parse_elems m d s = Some x \<Longrightarrow> skip_ws s \<noteq> []"
proof (cases m)
  case (Suc n)
  assume "parse_elems m d s = Some x"
  with Suc have "parse_value n d s \<noteq> None" by (auto split: option.splits)
  then show ?thesis by (cases n) auto
qed simp

lemma members_start: "parse_members m d s = Some x \<Longrightarrow> skip_ws s \<noteq> []"
  by (cases m) auto

text \<open>The parser is stable under what follows.\<close>

lemma parse_append:
  "parse_value m d s = Some (v, r) \<Longrightarrow> closed_value v r \<Longrightarrow> parse_value m d (s @ u) = Some (v, r @ u)"
  "parse_elems m d s = Some (vs, r) \<Longrightarrow> parse_elems m d (s @ u) = Some (vs, r @ u)"
  "parse_members m d s = Some (ms, r) \<Longrightarrow> parse_members m d (s @ u) = Some (ms, r @ u)"
proof (induction m d s and m d s and m d s arbitrary: v r and vs r and ms r
    rule: parse_value_parse_elems_parse_members.induct)
  case (2 m d s)
  from 2(3) obtain c t where s: "skip_ws s = c # t" by (auto split: list.splits)
  then have su: "skip_ws (s @ u) = c # t @ u" using skip_ws_append [of s u] by simp
  consider (str) "c = CHR 0x22" | (arr) "c = CHR ''[''" | (obj) "c = CHR ''{''"
    | (lit) "c \<noteq> CHR 0x22" "c \<noteq> CHR ''[''" "c \<noteq> CHR ''{''" by blast
  then show ?case
  proof cases
    case str
    with 2(3) s obtain x where "unquote t = Some (x, r)" "v = JStr x" by auto
    with str su unquote_append show ?thesis by simp
  next
    case arr
    show ?thesis
    proof (cases "skip_ws t \<noteq> [] \<and> hd (skip_ws t) = CHR '']''")
      case True
      with skip_ws_append [of t u] arr 2(3) s su show ?thesis by (auto split: if_splits)
    next
      case False
      with 2(3) s arr obtain xs where d: "0 < d" and xs: "parse_elems m (d - 1) t = Some (xs, r)" "v = JArr xs"
        by (auto split: if_splits)
      have "parse_elems m (d - 1) (t @ u) = Some (xs, r @ u)"
        using 2(1) [OF s _ _ _ _ xs(1)] False arr d by auto
      with False elems_start [OF xs(1)] skip_ws_append [of t u] arr d xs(2) su show ?thesis by auto
    qed
  next
    case obj
    show ?thesis
    proof (cases "skip_ws t \<noteq> [] \<and> hd (skip_ws t) = CHR ''}''")
      case True
      with skip_ws_append [of t u] obj 2(3) s su show ?thesis by (auto split: if_splits)
    next
      case False
      with 2(3) s obj obtain xs where d: "0 < d" and xs: "parse_members m (d - 1) t = Some (xs, r)" "v = JObj xs"
        by (auto split: if_splits)
      have "parse_members m (d - 1) (t @ u) = Some (xs, r @ u)"
        using 2(2) [OF s _ _ _ _ _ xs(1)] False obj d by auto
      with False members_start [OF xs(1)] skip_ws_append [of t u] obj d xs(2) su show ?thesis by auto
    qed
  next
    case lit
    with 2(3) s have "scan_literal (c # t) = Some (v, r)" by simp
    from scan_literal_more [OF this 2(4), of u] lit su show ?thesis by simp
  qed
next
  case (4 m d s)
  from 4(3) obtain v r1 c t where v: "parse_value m d s = Some (v, r1)" and r1: "skip_ws r1 = c # t"
    by (auto split: option.splits prod.splits list.splits)
  then have "closed_value v r1" by (auto simp: closed_value_def skip_ws_def)
  note fv = 4(1) [OF v this]
  have r1u: "skip_ws (r1 @ u) = c # t @ u" using skip_ws_append [of r1 u] r1 by simp
  show ?case
  proof (cases "c = CHR '']''")
    case True
    with 4(3) v r1 r1u fv show ?thesis by auto
  next
    case False
    with 4(3) v r1 obtain vs2 where c: "c = CHR '',''" and vs2: "parse_elems m d t = Some (vs2, r)" "vs = v # vs2"
      by (auto split: if_splits)
    with 4(2) [OF v refl r1 False c vs2(1)] False fv r1u show ?thesis by auto
  qed
next
  case (6 m d s)
  from 6(3) obtain t where s: "skip_ws s = CHR 0x22 # t" by (auto split: list.splits if_splits)
  with 6(3) obtain k r1 where k: "unquote t = Some (k, r1)" by (auto split: option.splits)
  with 6(3) s obtain r2 where r1: "skip_ws r1 = CHR '':'' # r2" by (auto split: list.splits if_splits)
  with 6(3) s k obtain v r3 where v: "parse_value m d r2 = Some (v, r3)" by (auto split: option.splits)
  with 6(3) s k r1 obtain e w where r3: "skip_ws r3 = e # w" by (auto split: list.splits)
  then have cl: "closed_value v r3" by (auto simp: closed_value_def skip_ws_def)
  have fv: "parse_value m d (r2 @ u) = Some (v, r3 @ u)"
    using 6(1) [OF s _ k refl r1 _ v cl] by simp
  have au: "skip_ws (s @ u) = CHR 0x22 # t @ u" "skip_ws (r1 @ u) = CHR '':'' # r2 @ u" "skip_ws (r3 @ u) = e # w @ u"
    using skip_ws_append [of s u] skip_ws_append [of r1 u] skip_ws_append [of r3 u] s r1 r3 by simp_all
  note eqs = au unquote_append [OF k, of u] fv
  show ?case
  proof (cases "e = CHR ''}''")
    case True
    with 6(3) s k r1 v r3 eqs show ?thesis by auto
  next
    case False
    with 6(3) s k r1 v r3 obtain ms2 where e: "e = CHR '',''" and ms2: "parse_members m d w = Some (ms2, r)"
        "ms = (k, v) # ms2" by (auto split: if_splits)
    have "parse_members m d (w @ u) = Some (ms2, r @ u)"
      using 6(2) [OF s _ k refl r1 _ v refl r3 False e ms2(1)] by simp
    with False e ms2(2) eqs show ?thesis by auto
  qed
qed simp_all

subsection \<open>A text that is cut\<close>

lemma first_value_append:
  "first_value s = Some (v, r) \<Longrightarrow> closed_value v r \<Longrightarrow> first_value (s @ u) = Some (v, r @ u)"
  using parse_append(1) first_value_fuel by metis

lemma number_start: "first_value s = Some (JNum x, r) \<Longrightarrow> skip_ws s \<noteq> [] \<and> hd (skip_ws s) \<noteq> CHR ''{''"
  unfolding first_value_def by (auto split: list.splits if_splits)

lemma object_start: "first_value s = Some (JObj ms, r) \<Longrightarrow> skip_ws s \<noteq> [] \<and> hd (skip_ws s) = CHR ''{''"
  unfolding first_value_def by (auto simp: scan_literal_def split: list.splits if_splits)

text \<open>An object that is cut before its last byte is no value.\<close>

lemma cut_object:
  assumes "first_value s = Some (JObj ms, r)" "n < length s - length r"
  shows "first_value (take n s) = None"
proof (rule ccontr)
  assume "first_value (take n s) \<noteq> None"
  then obtain v r2 where cut: "first_value (take n s) = Some (v, r2)" by auto
  have "closed_value v r2"
  proof (rule ccontr)
    assume "\<not> closed_value v r2"
    then obtain x where "v = JNum x" by (auto simp: closed_value_def)
    with cut have "skip_ws (take n s) \<noteq> []" "hd (skip_ws (take n s)) \<noteq> CHR ''{''" using number_start by blast+
    moreover from this(1) have "skip_ws s = skip_ws (take n s) @ drop n s"
      using skip_ws_append [of "take n s" "drop n s"] by simp
    ultimately show False using object_start [OF assms(1)] by simp
  qed
  from first_value_append [OF cut this, of "drop n s"] assms show False by simp
qed

end
