(* ===== verification/Rest_Contracts.thy ===== *)
theory Rest_Contracts
  imports Handler_Facts Sample_Services
begin

text \<open>
  What the listing, query, streaming and webhook endpoints guarantee: the pagination cursor
  comes back as it was sent, the cap on sections, the framing of the event stream against a
  client-side parser, and the signature check of the webhook.
\<close>

subsection \<open>The pagination cursor\<close>

fun json_member :: "string \<Rightarrow> json \<Rightarrow> json option" where
  "json_member k (JObj kvs) = map_of kvs k"
| "json_member k _ = None"

lemma json_member_JMap: "distinct (map fst kvs) \<Longrightarrow> json_member k (JMap kvs) = map_of kvs k"
proof -
  assume d: "distinct (map fst kvs)"
  have "distinct (map fst (sort_key fst kvs))"
    using d by (simp add: distinct_map)
  then have "map_of (sort_key fst kvs) = map_of kvs"
    using d by (intro map_of_eqI) (auto simp: map_of_eq_Some_iff)
  then show ?thesis by (simp add: JMap_def)
qed

lemma format_time_nonempty: "format_time t \<noteq> []"
  by (simp add: format_time_def)

text \<open>C36. Pagination: when a page has a successor, the cursor in the answer, given back by the client
  in its next request, selects exactly the time the database returned (so no row between two
  pages is lost or repeated by the encoding); \<open>has_more\<close> tells whether there is a cursor.\<close>

theorem cursor_round_trip:
  assumes "list_response docs t = Some j" "time_ok t" "\<not> time_is_zero t"
  shows "\<exists>c. json_member ''next_cursor'' j = Some (JStr c) \<and> json_member ''has_more'' j = Some (JBool True)
    \<and> (\<forall>r org. r_query r ''cursor'' = c \<longrightarrow> lo_cursor (list_opts_of r org) = t)"
proof -
  obtain items where j: "j = JMap [(''documents'', JArr items), (''items'', JArr items),
      (''has_more'', JBool True), (''next_cursor'', JStr (format_time t))]"
    using assms(1,3) by (auto simp: list_response_def)
  have "json_member ''next_cursor'' j = Some (JStr (format_time t))"
    "json_member ''has_more'' j = Some (JBool True)"
    unfolding j by (subst json_member_JMap; simp)+
  moreover have "r_query r ''cursor'' = format_time t \<longrightarrow> lo_cursor (list_opts_of r org) = t" for r org
    using parse_format_time [OF assms(2)] format_time_nonempty by (simp add: list_opts_of_def Let_def)
  ultimately show ?thesis by blast
qed

lemma sample_time_facts: "time_ok sample_time" "\<not> time_is_zero sample_time" "time_json sample_time \<noteq> None"
  by (simp_all add: time_ok_def sample_time_def days_in_def leap_def time_is_zero_def abs_seconds_def
      days_before_year_def days_before_month_def time_json_def)

lemma cursor_round_trip_witness:
  "\<exists>j c. list_response [sample_document] sample_time = Some j \<and> json_member ''next_cursor'' j = Some (JStr c)
    \<and> (\<forall>r org. r_query r ''cursor'' = c \<longrightarrow> lo_cursor (list_opts_of r org) = sample_time)"
proof -
  have "doc_item sample_document \<noteq> None"
    using sample_time_facts(3) by (auto simp: doc_item_def sample_document_def)
  then obtain j where "list_response [sample_document] sample_time = Some j"
    by (auto simp: list_response_def)
  with cursor_round_trip [OF this sample_time_facts(1,2)] show ?thesis by blast
qed

subsection \<open>The cap on sections\<close>

definition known :: "tree \<Rightarrow> string list \<Rightarrow> doc_section list" where
  "known t ids = List.map_filter (tr_find t) ids"

lemma known_simps [simp]:
  "known t [] = []"
  "known t (i # ids) = (case tr_find t i of None \<Rightarrow> known t ids | Some sec \<Rightarrow> sec # known t ids)"
  by (simp_all add: known_def map_filter_simps split: option.splits)

lemma collect_sections_known: "map fst (fst (collect_sections sto c t ids s)) = known t ids"
  by (induction ids arbitrary: s) (auto split: option.splits prod.splits, metis fst_conv)

lemma collect_uncapped: "cap \<le> 0 \<Longrightarrow> map fst (fst (collect_capped sto c t cap n ids s)) = known t ids"
  by (induction ids arbitrary: n s) (auto split: option.splits prod.splits, metis fst_conv)

lemma collect_capped_known:
  "0 \<le> n \<Longrightarrow> n < cap \<Longrightarrow>
     map fst (fst (collect_capped sto c t cap n ids s)) = take (nat (cap - n)) (known t ids)"
proof (induction ids arbitrary: n s)
  case (Cons i ids)
  show ?case
  proof (cases "tr_find t i")
    case None
    with Cons show ?thesis by simp
  next
    case (Some sec)
    obtain x s1 where f: "fetchContent sto c (s_content_ref sec) s = (x, s1)" by force
    show ?thesis
    proof (cases "n + 1 \<ge> cap")
      case True
      with Cons.prems have "nat (cap - n) = 1" by simp
      with True Cons.prems Some f show ?thesis by simp
    next
      case False
      have "nat (cap - n) = Suc (nat (cap - (n + 1)))" using False by simp
      with False Cons.prems Cons.IH [of "n + 1" s1] Some f show ?thesis
        by (auto split: prod.splits)
    qed
  qed
qed simp

text \<open>The cap \<open>max_sections\<close> counts differently on the two endpoints. Both return the selected
  ids that the tree knows, in order. The multi-document endpoint caps what it returns, so it
  returns as many known sections as there are, up to the cap; the single-document endpoint
  caps the selection before it drops unknown ids. Neither exceeds a positive cap; without one
  both return all.\<close>

theorem max_sections_cap:
  "map fst (fst (collect_capped sto c t cap 0 ids s)) = (if cap > 0 then take (nat cap) (known t ids) else known t ids)
   \<and> map fst (fst (collect_sections sto c t (truncate_ids cap ids) s'))
      = known t (if cap > 0 then take (nat cap) ids else ids)
   \<and> length (fst (collect_sections sto c t (truncate_ids cap ids) s')) \<le>
      (if cap > 0 then nat cap else length ids)"
proof -
  have tr: "truncate_ids cap ids = (if cap > 0 then take (nat cap) ids else ids)"
    by (auto simp: truncate_ids_def)
  have len: "length (known t xs) \<le> length xs" for xs
    by (induction xs) (auto split: option.splits)
  have "length (fst (collect_sections sto c t (truncate_ids cap ids) s')) = length (known t (truncate_ids cap ids))"
    using collect_sections_known [of sto c t "truncate_ids cap ids" s'] by (metis length_map)
  also have "\<dots> \<le> length (truncate_ids cap ids)" by (rule len)
  also have "\<dots> \<le> (if cap > 0 then nat cap else length ids)" by (simp add: tr)
  finally show ?thesis
    using collect_capped_known [of 0 cap sto c t ids s] collect_uncapped [of cap sto c t 0 ids s]
      collect_sections_known [of sto c t "truncate_ids cap ids" s'] by (simp add: tr)
qed

subsection \<open>The event stream\<close>

text \<open>
  A client's parser of \<open>text/event-stream\<close>: lines; an empty line dispatches the event collected
  so far when it has data; one blank after a field's colon is dropped.
\<close>

definition field_value :: "string \<Rightarrow> string \<Rightarrow> string option" where
  "field_value name line =
     (let p = name @ '':'' in
      if has_prefix line p then Some (trim_prefix (drop (length p) line) '' '') else None)"

fun sse_lines :: "string list \<Rightarrow> string \<Rightarrow> string list \<Rightarrow> (string \<times> string) list" where
  "sse_lines [] name data = []"
| "sse_lines (l # ls) name data =
     (if l = [] then (if data = [] then sse_lines ls [] []
                      else (name, join_with nl data) # sse_lines ls [] [])
      else (case field_value ''event'' l of
              Some v \<Rightarrow> sse_lines ls v data
            | None \<Rightarrow> (case field_value ''data'' l of
                        Some v \<Rightarrow> sse_lines ls name (data @ [v])
                      | None \<Rightarrow> sse_lines ls name data)))"

definition sse_client :: "string \<Rightarrow> (string \<times> string) list" where
  "sse_client s = sse_lines (split_byte s (CHR 0x0A)) [] []"

lemma split_byte_line: "c \<notin> set l \<Longrightarrow> split_byte (l @ c # rest) c = l # split_byte rest c"
proof (induction l)
  case (Cons b l)
  then show ?case by (auto split: list.splits)
qed simp

lemma field_event: "field_value ''event'' (''event: '' @ v) = Some v"
  by (simp add: field_value_def has_prefix_def trim_prefix_def Let_def)

lemma field_data: "field_value ''event'' (''data: '' @ v) = None" "field_value ''data'' (''data: '' @ v) = Some v"
  by (simp_all add: field_value_def has_prefix_def trim_prefix_def Let_def)

lemma sse_client_frame:
  assumes "CHR 0x0A \<notin> set name" "CHR 0x0A \<notin> set (enc_json j)"
  shows "sse_client (sse_frame name j @ rest) = (name, enc_json j) # sse_client rest"
proof -
  define e where "e = ''event: ''"
  define f where "f = ''data: ''"
  have ne: "e @ name \<noteq> []" "f @ enc_json j \<noteq> []" by (simp_all add: e_def f_def)
  have nn: "CHR 0x0A \<notin> set (e @ name)" "CHR 0x0A \<notin> set (f @ enc_json j)"
    using assms by (simp_all add: e_def f_def)
  have fr: "sse_frame name j @ rest =
      (e @ name) @ CHR 0x0A # (f @ enc_json j) @ CHR 0x0A # [] @ CHR 0x0A # rest"
    by (simp add: sse_frame_def nl_def e_def f_def)
  have "split_byte (sse_frame name j @ rest) (CHR 0x0A) =
      (e @ name) # (f @ enc_json j) # [] # split_byte rest (CHR 0x0A)"
    unfolding fr by (simp only: split_byte_line [OF nn(1)] split_byte_line [OF nn(2)]
        split_byte_line [of "CHR 0x0A" "[]"] empty_iff list.set not_False_eq_True)
  moreover have "field_value ''event'' (e @ name) = Some name" "field_value ''event'' (f @ enc_json j) = None"
    "field_value ''data'' (f @ enc_json j) = Some (enc_json j)"
    unfolding e_def f_def by (rule field_event field_data)+
  ultimately show ?thesis
    using ne by (simp add: sse_client_def)
qed

fun frames :: "(string \<times> json) list \<Rightarrow> string" where
  "frames [] = []"
| "frames ((n, j) # xs) = sse_frame n j @ frames xs"

lemma sse_client_frames:
  assumes "\<forall>(n, j) \<in> set xs. CHR 0x0A \<notin> set n \<and> json_ok j"
  shows "sse_client (frames xs) = map (\<lambda>(n, j). (n, enc_json j)) xs"
  using assms
proof (induction xs rule: frames.induct)
  case 1
  show ?case by (simp add: sse_client_def)
next
  case (2 n j xs)
  then show ?case
    using sse_client_frame [of n j "frames xs"] printable_nl [OF printable_enc_json] by simp
qed

text \<open>The events a run of the loop sends.\<close>

fun stream_events ::
  "'w env \<Rightarrow> 'w deps \<Rightarrow> ctx \<Rightarrow> tree \<Rightarrow> query_request \<Rightarrow> string \<Rightarrow> int \<Rightarrow> stream_event list \<Rightarrow>
     'w st \<Rightarrow> (string \<times> json) list" where
  "stream_events e d c t q name started [] s = []"
| "stream_events e d c t q name started (ev # evs) s =
     (case build_event e d c t q name started ev s of
        (sse, s1) \<Rightarrow>
          (dp_event_name d (ev_type ev), sse_json sse) # stream_events e d c t q name started evs s1)"

fun written_data :: "wop list \<Rightarrow> string" where
  "written_data [] = []"
| "written_data (WriteBytes b # ops) = b @ written_data ops"
| "written_data (_ # ops) = written_data ops"

lemma written_data_append: "written_data (xs @ ys) = written_data xs @ written_data ys"
  by (induction xs rule: written_data.induct) simp_all

lemma written_data_emit: "written_data (emit w n j) = sse_frame n j"
  by (simp add: emit_def)

lemma stream_loop_data:
  "written_data (fst (stream_loop e d w c t q name started evs s))
     = frames (stream_events e d c t q name started evs s)"
proof (induction evs arbitrary: s)
  case (Cons ev evs)
  obtain sse s1 where b: "build_event e d c t q name started ev s = (sse, s1)" by force
  obtain ops s2 where l: "stream_loop e d w c t q name started evs s1 = (ops, s2)" by force
  then show ?case
    using Cons [of s1] b by (simp add: written_data_append written_data_emit)
qed simp

lemma stream_events_names:
  "map fst (stream_events e d c t q name started evs s) = map (\<lambda>ev. dp_event_name d (ev_type ev)) evs"
  by (induction evs arbitrary: s) (auto split: prod.splits)

lemma sse_json_ok: "(\<forall>j. se_section v = Some j \<longrightarrow> json_ok j) \<Longrightarrow> json_ok (sse_json v)"
  unfolding sse_json_def json_ok.simps set_append using json_ok_omit
  by (auto simp: ball_Un)

lemma build_event_ok: "build_event e d c t q name started ev s = (sse, s') \<Longrightarrow> json_ok (sse_json sse)"
  by (rule sse_json_ok) (auto simp: build_event_def base_event_def query_section_json_def Let_def
      split: event_type.splits option.splits prod.splits)

lemma stream_events_ok: "\<forall>(n, j) \<in> set (stream_events e d c t q name started evs s). json_ok j"
  by (induction evs arbitrary: s) (auto split: prod.splits dest: build_event_ok [OF sym])

lemma play_written:
  assumes "rs_wrote r" "body_allowed (rs_status r)"
    and "\<forall>x \<in> set ops. (\<exists>b. x = WriteBytes b) \<or> x = Flush"
  shows "rs_body (play ops r) = rs_body r @ written_data ops"
  using assms
proof (induction ops arbitrary: r)
  case (Cons x ops)
  then show ?case
    by (cases x) (auto simp: trace_simps ensure_header_def Let_def)
qed (simp add: trace_simps)

lemma stream_loop_shape:
  "\<forall>x \<in> set (fst (stream_loop e d w c t q name started evs s)). (\<exists>b. x = WriteBytes b) \<or> x = Flush"
  by (induction evs arbitrary: s) (auto simp: emit_def split: prod.splits, metis fst_conv UnI1)

lemma respond_sse:
  assumes "\<forall>x \<in> set ops. (\<exists>b. x = WriteBytes b) \<or> x = Flush"
  shows "rs_body (respond (sse_headers @ ops)) = written_data ops"
proof -
  let ?r = "play sse_headers init_resp"
  have r: "rs_wrote ?r" "rs_status ?r = 200" "rs_body ?r = []"
    by (simp_all add: sse_headers_def trace_simps write_header_def)
  then have "rs_body (play ops ?r) = written_data ops"
    using play_written [OF r(1) _ assms] by (simp add: body_allowed_def)
  moreover have "rs_wrote (play ops ?r)" using r(1) by (simp add: play_wrote)
  ultimately show ?thesis by (simp add: respond_def trace_simps ensure_header_def)
qed

text \<open>C11. The event stream is well framed: whatever the strategy delivers and whatever the titles,
  summaries and contents of the sections are, a standard client parses the body of the
  streaming endpoint into exactly one event per retrieval event, in order, each with the name
  of its type and the JSON text of its payload.\<close>

theorem stream_is_well_framed:
  assumes "\<forall>ty. CHR 0x0A \<notin> set (dp_event_name d ty)"
    and "requireOrgID r = Inr org" "query_body d r = Inr q"
    and "dp_strategy d = Some sg" "sg_stream sg = Some select_stream"
    and "call (db_tree (dp_db d) (r_ctx r) (qr_document q) org (storeID r)) s = (Inr t, s1)"
    and "read_clock e s1 = (started, s2)"
    and "call (select_stream (r_ctx r) t (qr_query q)
        (make_budget (qr_model q) (qr_max_tokens q) (qr_reserved q) (qr_parallel q))) s2 = (evs, s3)"
  shows "sse_client (rs_body (response (HandleQueryStream e d w r s)))
      = map (\<lambda>(n, j). (n, enc_json j)) (stream_events e d (r_ctx r) t q (sg_name sg) started evs s3)
    \<and> map fst (sse_client (rs_body (response (HandleQueryStream e d w r s))))
      = map (\<lambda>ev. dp_event_name d (ev_type ev)) evs"
proof -
  let ?evs = "stream_events e d (r_ctx r) t q (sg_name sg) started evs s3"
  obtain ops s4 where l: "stream_loop e d w (r_ctx r) t q (sg_name sg) started evs s3 = (ops, s4)" by force
  have h: "HandleQueryStream e d w r s = reply (sse_headers @ ops) s4"
    using assms(2-8) l by (simp add: HandleQueryStream_def)
  have "rs_body (respond (sse_headers @ ops)) = frames ?evs"
    using respond_sse [of ops] stream_loop_shape [of e d w "r_ctx r" t q "sg_name sg" started evs s3]
      stream_loop_data [of e d w "r_ctx r" t q "sg_name sg" started evs s3] l by simp
  moreover have "\<forall>(n, j) \<in> set ?evs. CHR 0x0A \<notin> set n \<and> json_ok j"
  proof -
    have "\<forall>n \<in> set (map fst ?evs). CHR 0x0A \<notin> set n"
      unfolding stream_events_names using assms(1) by auto
    then show ?thesis using stream_events_ok [of e d "r_ctx r" t q "sg_name sg" started evs s3] by fastforce
  qed
  ultimately have "sse_client (rs_body (response (HandleQueryStream e d w r s)))
      = map (\<lambda>(n, j). (n, enc_json j)) ?evs"
    by (simp add: h sse_client_frames)
  moreover have "map fst (map (\<lambda>(n, j). (n, enc_json j)) xs) = map fst xs" for xs :: "(string \<times> json) list"
    by (induction xs) auto
  ultimately show ?thesis using stream_events_names by metis
qed

definition query_request_body :: string where
  "query_request_body =
     (let q = [CHR 0x22] in ''{'' @ q @ ''document_id'' @ q @ '':'' @ q @ ''doc-1'' @ q @ '','' @
        q @ ''query'' @ q @ '':'' @ q @ ''why'' @ q @ ''}'')"

definition query_post :: request where
  "query_post = sample_request ''POST'' ''/v1/query/stream'' [(''X-Vectorless-Org'', ''org-a'')] query_request_body"

definition sample_events :: "stream_event list" where
  "sample_events =
     [\<lparr>ev_type = EventStarted, ev_section = [], ev_slice = 0, ev_total = 1, ev_message = [], ev_error = None\<rparr>,
      \<lparr>ev_type = EventSectionSelected, ev_section = ''s1'', ev_slice = 0, ev_total = 1, ev_message = [],
       ev_error = None\<rparr>]"

definition stream_strategy :: "'w strategy" where
  "stream_strategy = sample_strategy\<lparr>sg_stream := Some (\<lambda>c t q b w. (sample_events, w))\<rparr>"

definition stream_deps :: "'w deps" where
  "stream_deps = sample_deps\<lparr>dp_strategy := Some stream_strategy,
     dp_event_name := (\<lambda>ty. case ty of EventStarted \<Rightarrow> ''started'' | EventSectionSelected \<Rightarrow> ''section_selected''
        | EventCompleted \<Rightarrow> ''completed'' | EventError \<Rightarrow> ''error'' | EventOther x \<Rightarrow> ''other'')\<rparr>"

lemma query_post_decoded:
  "decode_body (r_body query_post) \<bind> decode_query =
     Some \<lparr>qr_document = ''doc-1'', qr_query = ''why'', qr_model = [], qr_max_tokens = 0, qr_reserved = 0,
       qr_parallel = 0, qr_max_sections = 0\<rparr>"
  by code_simp

lemma query_post_org: "requireOrgID query_post = Inr ''org-a''"
  by (simp add: requireOrgID_Inr query_post_def sample_request_def hget_hset)

lemma stream_is_well_framed_witness:
  "map fst (sse_client (rs_body (response (HandleQueryStream sample_env stream_deps plain_writer query_post
     sample_state)))) = [''started'', ''section_selected'']"
proof -
  have n: "\<forall>ty. CHR 0x0A \<notin> set (dp_event_name stream_deps ty)"
    by (auto simp: stream_deps_def split: event_type.splits)
  have b: "query_body stream_deps query_post = Inr \<lparr>qr_document = ''doc-1'', qr_query = ''why'', qr_model = [],
      qr_max_tokens = 0, qr_reserved = 0, qr_parallel = 0, qr_max_sections = 0\<rparr>"
    by (simp add: query_body_def query_post_decoded)
  have t: "call (db_tree (dp_db stream_deps) (r_ctx query_post) ''doc-1'' ''org-a'' (storeID query_post)) sample_state
      = (Inr sample_tree, sample_state)"
    by (simp add: stream_deps_def sample_deps_def sample_db_def call_def)
  have c: "read_clock sample_env sample_state = (0, sample_state\<lparr>st_world := 1\<rparr>)"
    by (simp add: read_clock_def)
  have g: "dp_strategy stream_deps = Some stream_strategy"
    "sg_stream stream_strategy = Some (\<lambda>c t q b w. (sample_events, w))"
    by (simp_all add: stream_deps_def stream_strategy_def)
  have e: "call ((\<lambda>c t q b w. (sample_events, w)) (r_ctx query_post) sample_tree ''why'' (make_budget [] 0 0 0))
      (sample_state\<lparr>st_world := 1\<rparr>) = (sample_events, sample_state\<lparr>st_world := 1\<rparr>)"
    by (simp add: call_def)
  have "map fst (sse_client (rs_body (response (HandleQueryStream sample_env stream_deps plain_writer query_post
     sample_state)))) = map (\<lambda>ev. dp_event_name (stream_deps :: int deps) (ev_type ev)) sample_events"
    using conjunct2 [OF stream_is_well_framed [where e = sample_env and d = stream_deps and w = plain_writer
        and r = query_post and s = sample_state and ?s1.0 = sample_state and t = sample_tree
        and evs = sample_events and ?s2.0 = "sample_state\<lparr>st_world := 1\<rparr>"
        and ?s3.0 = "sample_state\<lparr>st_world := 1\<rparr>", OF n query_post_org b g _ c]]
    by (simp only: query_request.select_convs t e simp_thms True_implies_equals)
  then show ?thesis by (simp add: sample_events_def stream_deps_def)
qed

subsection \<open>The webhook\<close>

text \<open>The QStash driver with another dispatch.\<close>

definition redispatch :: "'w deps \<Rightarrow> (ctx \<Rightarrow> string \<Rightarrow> string \<Rightarrow> 'w \<Rightarrow> go_error option \<times> 'w) \<Rightarrow> 'w deps" where
  "redispatch d f = d\<lparr>dp_queue := (dp_queue d)\<lparr>q_qstash :=
     map_option (\<lambda>qq. qq\<lparr>qs_dispatch := f\<rparr>) (q_qstash (dp_queue d))\<rparr>\<rparr>"

text \<open>
  A job is dispatched only after the verifier has accepted the request's signature over
  exactly the bytes of the body and the configured URL with the request's path.
\<close>

definition webhook_verified :: "'w deps \<Rightarrow> request \<Rightarrow> 'w st \<Rightarrow> string \<Rightarrow> 'w st \<Rightarrow> bool" where
  "webhook_verified d r s data s1 \<longleftrightarrow>
     (\<exists>qq verify. q_qstash (dp_queue d) = Some qq \<and> qs_verify qq = Some verify
        \<and> read_request_body r = Inr data
        \<and> call (verify (hget (r_header r) ''Upstash-Signature'') data (webhook_url qq r)) s = (None, s1))"

lemma webhook_payload_cases:
  "webhook_payload kind data = Some p \<Longrightarrow>
     p = data \<or> (\<exists>m. parse_webhook data = Some m \<and> wb_kind m = kind \<and> p = wb_payload m)"
  by (auto simp: webhook_payload_def split: option.splits if_splits)

text \<open>C4. Nothing is dispatched without a valid signature: either the result does not depend on the
  dispatch function at all, and the status is an error, or the verifier accepted the request,
  and what is dispatched is the signed body, or the payload inside it when the body names the
  same kind as the URL; then the result is that of the dispatch.\<close>

theorem webhook_dispatches_only_verified:
  "(HandleQueueWebhook (redispatch d f) w r s = HandleQueueWebhook d w r s
     \<and> rs_status (response (HandleQueueWebhook d w r s)) \<in> {400, 401, 404})
   \<or> (\<exists>qq data s1 p. q_qstash (dp_queue d) = Some qq \<and> webhook_verified d r s data s1
        \<and> (p = data \<or> (\<exists>m. parse_webhook data = Some m \<and> wb_kind m = r_params r ''kind'' \<and> p = wb_payload m))
        \<and> res_state (HandleQueueWebhook d w r s) = snd (call (qs_dispatch qq (r_ctx r) (r_params r ''kind'') p) s1)
        \<and> (rs_status (response (HandleQueueWebhook d w r s)) = 204
             \<longleftrightarrow> fst (call (qs_dispatch qq (r_ctx r) (r_params r ''kind'') p) s1) = None))"
proof (cases "q_qstash (dp_queue d)")
  case None
  then show ?thesis
    by (simp add: HandleQueueWebhook_def redispatch_def status_writeErr body_allowed_def)
next
  case (Some qq)
  have qq': "q_qstash (dp_queue (redispatch d f)) = Some (qq\<lparr>qs_dispatch := f\<rparr>)"
    "webhook_url (qq\<lparr>qs_dispatch := f\<rparr>) r = webhook_url qq r"
    by (simp_all add: redispatch_def Some webhook_url_def)
  show ?thesis
  proof (cases "\<exists>data s1 p. webhook_verified d r s data s1 \<and> r_params r ''kind'' \<noteq> []
      \<and> webhook_payload (r_params r ''kind'') data = Some p")
    case True
    then obtain data s1 p verify where v: "webhook_verified d r s data s1" "r_params r ''kind'' \<noteq> []"
      "webhook_payload (r_params r ''kind'') data = Some p" "qs_verify qq = Some verify"
      "read_request_body r = Inr data"
      "call (verify (hget (r_header r) ''Upstash-Signature'') data (webhook_url qq r)) s = (None, s1)"
      using Some by (auto simp: webhook_verified_def)
    obtain res s2 where dsp: "call (qs_dispatch qq (r_ctx r) (r_params r ''kind'') p) s1 = (res, s2)" by force
    have "rs_status (respond [WriteHeader 204]) = 204"
      by (simp add: respond_def trace_simps write_header_def ensure_header_def)
    then have "res_state (HandleQueueWebhook d w r s) = s2
        \<and> (rs_status (response (HandleQueueWebhook d w r s)) = 204 \<longleftrightarrow> res = None)"
      using v Some dsp by (cases res)
        (simp_all add: HandleQueueWebhook_def Let_def status_writeErr body_allowed_def)
    then show ?thesis
      using Some v(1) webhook_payload_cases [OF v(3)] dsp
      by (intro disjI2 exI [of _ qq] exI [of _ data] exI [of _ s1] exI [of _ p]) auto
  next
    case False
    then show ?thesis
      unfolding HandleQueueWebhook_def qq'(1) using Some
      by (intro disjI1) (auto simp: webhook_verified_def qq'(2) Let_def status_writeErr body_allowed_def
          split: sum.splits option.splits prod.splits)
  qed
qed

end
