(* ===== verification/Body_Limits.thy ===== *)
theory Body_Limits
  imports Json_Parse_Facts Rest_Contracts
begin

text \<open>
  The body limit (\<open>MaxBodySize\<close> in \<open>governance.go\<close>) together with the handlers that read a body:
  what a client is told whose body is over the limit.
\<close>

definition limited :: "int \<Rightarrow> request \<Rightarrow> request" where
  "limited n r = r\<lparr>r_body := map_option (\<lambda>b. b\<lparr>b_limit := Some (max 0 n)\<rparr>) (r_body r)\<rparr>"

lemma MaxBodySize_limited:
  "r_body r \<noteq> None \<Longrightarrow> r_content_length r \<noteq> 0 \<Longrightarrow> MaxBodySize n h w r s = h w (limited n r) s"
  by (auto simp: MaxBodySize_def limited_def)

lemma limited_simps [simp]:
  "r_header (limited n r) = r_header r" "r_ctx (limited n r) = r_ctx r" "r_params (limited n r) = r_params r"
  "storeID (limited n r) = storeID r" "requireOrgID (limited n r) = requireOrgID r"
  by (simp_all add: limited_def storeID_def requireOrgID_def)

text \<open>A request whose body holds a JSON object that does not fit the limit.\<close>

definition oversized :: "int \<Rightarrow> request \<Rightarrow> bool" where
  "oversized n r \<longleftrightarrow> r_content_length r \<noteq> 0 \<and>
     (case r_body r of None \<Rightarrow> False
      | Some b \<Rightarrow> (case first_value (b_data b) of
            Some (JObj ms, rest) \<Rightarrow> n < int (length (b_data b)) - int (length rest)
          | _ \<Rightarrow> False))"

lemma oversized_body: "oversized n r \<Longrightarrow> r_body r \<noteq> None \<and> r_content_length r \<noteq> 0"
  by (auto simp: oversized_def split: option.splits)

lemma oversized_decode:
  assumes "oversized n r"
  shows "decode_body (r_body (limited n r)) = None"
proof -
  obtain b ms rest where b: "r_body r = Some b" "first_value (b_data b) = Some (JObj ms, rest)"
    and n: "n < int (length (b_data b)) - int (length rest)"
    using assms by (auto simp: oversized_def split: option.splits prod.splits json.splits)
  have "length rest < length (b_data b)"
    using fed_length [OF parse_fed(1) [OF b(2) [unfolded first_value_def]]] .
  with n have "nat (max 0 n) < length (b_data b) - length rest" by simp
  from cut_object [OF b(2) this] b(1) show ?thesis
    by (simp add: decode_body_def limited_def available_def)
qed

text \<open>The three ways a handler meets the limit.\<close>

lemma oversized_read:
  assumes "oversized n r"
  shows "read_request_body (limited n r) = Inl msg_too_large"
proof -
  obtain b ms rest where "r_body r = Some b" "first_value (b_data b) = Some (JObj ms, rest)"
    "n < int (length (b_data b)) - int (length rest)"
    using assms by (auto simp: oversized_def split: option.splits prod.splits json.splits)
  moreover from this(2) have "b_data b \<noteq> []" by (auto simp: first_value_def skip_ws_def)
  ultimately show ?thesis by (auto simp: read_request_body_def limited_def read_body_def too_large_def)
qed

lemma invalid_json_400:
  assumes "oversized n r" "requireOrgID r = Inr org"
  shows "\<exists>msg. HandleQuery e d w (limited n r) s = reply (writeErr 400 (''invalid json: '' @ msg)) s"
    "\<exists>msg. HandleQueryMulti e d w (limited n r) s = reply (writeErr 400 (''invalid json: '' @ msg)) s"
    "\<exists>msg. HandleQueryStream e d w (limited n r) s = reply (writeErr 400 (''invalid json: '' @ msg)) s"
    "\<exists>msg. HandleQueryStreamMulti e d w (limited n r) s = reply (writeErr 400 (''invalid json: '' @ msg)) s"
  using oversized_decode [OF assms(1)] assms(2)
  by (auto simp: HandleQuery_def HandleQueryMulti_def HandleQueryStream_def HandleQueryStreamMulti_def
      query_body_def multi_body_def)

lemma not_multipart: "has_prefix ct ''application/json'' \<Longrightarrow> \<not> has_prefix ct ''multipart/form-data''"
  by (auto simp: has_prefix_iff)

lemma ingest_invalid_json:
  assumes "oversized n r" "requireOrgID r = Inr org"
    "has_prefix (hget (r_header r) ''Content-Type'') ''application/json''"
  shows "\<exists>msg. HandleIngestDocument d w (limited n r) s =
     reply (writeErr 400 (''invalid json: '' @ msg)) (snd (call (dp_document_id d) s))"
  using oversized_decode [OF assms(1)] assms(2,3) not_multipart [OF assms(3)]
  by (auto simp: HandleIngestDocument_def read_upload_def read_json_upload_def Let_def split: prod.splits)

definition query_endpoints :: "'w env \<Rightarrow> 'w deps \<Rightarrow> 'w handler list" where
  "query_endpoints e d = [HandleQuery e d, HandleQueryMulti e d, HandleQueryStream e d, HandleQueryStreamMulti e d]"

text \<open>C25. A body over the limit is a bad request: when the JSON object a client sends is longer than
  \<open>MaxBodySize\<close> allows, each query endpoint answers 400 with an error that says the JSON is invalid,
  and calls nothing of the engine; the ingest endpoint answers the same after drawing a document
  identifier, with nothing stored; and the webhook answers 400 before it verifies or dispatches
  anything. No endpoint answers 413, which the comment at \<open>MaxBodySize\<close> promises.\<close>

theorem oversized_body_is_400:
  assumes "oversized n r"
  shows "(\<forall>h \<in> set (query_endpoints e d). \<forall>org. requireOrgID r = Inr org \<longrightarrow>
      (\<exists>msg. MaxBodySize n h w r s = reply (writeErr 400 (''invalid json: '' @ msg)) s))
    \<and> (\<forall>org. requireOrgID r = Inr org
        \<and> has_prefix (hget (r_header r) ''Content-Type'') ''application/json'' \<longrightarrow>
      (\<exists>msg. MaxBodySize n (HandleIngestDocument d) w r s =
         reply (writeErr 400 (''invalid json: '' @ msg)) (snd (call (dp_document_id d) s))))
    \<and> (\<forall>qq. q_qstash (dp_queue d) = Some qq \<and> r_params r ''kind'' \<noteq> [] \<longrightarrow>
      MaxBodySize n (HandleQueueWebhook d) w r s =
         reply (writeErr 400 ''read body: http: request body too large'') s)"
proof -
  have m: "MaxBodySize n h w r s = h w (limited n r) s" for h :: "'a handler"
    using oversized_body [OF assms] by (intro MaxBodySize_limited) simp_all
  have "\<exists>msg. MaxBodySize n h w r s = reply (writeErr 400 (''invalid json: '' @ msg)) s"
    if "h \<in> set (query_endpoints e d)" "requireOrgID r = Inr org" for h org
    unfolding m using that invalid_json_400 [OF assms that(2)] by (auto simp: query_endpoints_def)
  moreover have "\<exists>msg. MaxBodySize n (HandleIngestDocument d) w r s =
         reply (writeErr 400 (''invalid json: '' @ msg)) (snd (call (dp_document_id d) s))"
    if "requireOrgID r = Inr org" "has_prefix (hget (r_header r) ''Content-Type'') ''application/json''" for org
    unfolding m by (rule ingest_invalid_json [OF assms that])
  moreover have "MaxBodySize n (HandleQueueWebhook d) w r s =
         reply (writeErr 400 ''read body: http: request body too large'') s"
    if "q_qstash (dp_queue d) = Some qq" "r_params r ''kind'' \<noteq> []" for qq
    unfolding m using that oversized_read [OF assms] by (simp add: HandleQueueWebhook_def msg_too_large_def)
  ultimately show ?thesis by blast
qed

lemma query_post_oversized: "oversized 10 query_post"
  by code_simp

lemma oversized_body_is_400_witness:
  "\<exists>msg. MaxBodySize 10 (HandleQuery sample_env sample_deps) plain_writer query_post sample_state
     = reply (writeErr 400 (''invalid json: '' @ msg)) sample_state"
proof -
  have "HandleQuery sample_env sample_deps \<in> set (query_endpoints sample_env sample_deps)"
    by (simp add: query_endpoints_def)
  with oversized_body_is_400 [OF query_post_oversized, of sample_env sample_deps plain_writer sample_state]
  show ?thesis using query_post_org by blast
qed

end
