(* ===== verification/Rpc_Documents.thy ===== *)
theory Rpc_Documents
  imports Engine Rest_Documents
begin

text \<open>
  The documents and health services of the RPC transport (\<open>internal/connecthandler\<close>) and the
  messages they exchange (\<open>gen/vectorless/v1\<close>). A unary method returns a message or an error
  with a code; a streaming method sends messages until it ends. Sending is the transport
  library's and a parameter, as is the way a storage reader splits its data over reads.
\<close>

subsection \<open>Requests and errors\<close>

datatype rpc_code = CodeInvalidArgument | CodeNotFound | CodeInternal | CodeUnavailable | CodeUnimplemented

text \<open>\<open>connect.NewError\<close>; the cause may be nil.\<close>

record rpc_error =
  rc_code :: rpc_code
  rc_cause :: "string option"

definition NewError :: "rpc_code \<Rightarrow> string option \<Rightarrow> rpc_error" where
  "NewError code cause = \<lparr>rc_code = code, rc_cause = cause\<rparr>"

record 'm rpc_request =
  rq_header :: header
  rq_msg :: 'm

definition orgIDFromConnect :: "'m rpc_request \<Rightarrow> (rpc_error, string) result" where
  "orgIDFromConnect req =
     (let org = hget (rq_header req) ''X-Vectorless-Org'' in
      if org = [] then Inl (NewError CodeInvalidArgument (Some ''missing X-Vectorless-Org header'')) else Inr org)"

definition storeIDFromConnect :: "'m rpc_request \<Rightarrow> string" where
  "storeIDFromConnect req = hget (rq_header req) ''X-Vectorless-Store''"

definition isNotFound :: "go_error \<Rightarrow> bool" where
  "isNotFound err \<longleftrightarrow> ge_kind err = ErrNotFound"

definition rpc_lookup_err :: "go_error \<Rightarrow> rpc_error" where
  "rpc_lookup_err err =
     (if isNotFound err then NewError CodeNotFound (Some (ge_msg err))
      else NewError CodeInternal (Some (ge_msg err)))"

subsection \<open>Messages\<close>

record CreateDocumentRequest =
  cdq_content :: string
  cdq_filename :: string
  cdq_content_type :: string
  cdq_metadata :: string_map

record CreateDocumentResponse =
  cdp_document :: string
  cdp_status :: string

text \<open>The requests that carry one identifier.\<close>

record DocumentIdRequest =
  dq_document :: string

record GetSectionRequest =
  sq_section :: string

record ListDocumentsRequest =
  ldq_limit :: int
  ldq_cursor :: string
  ldq_status :: string

text \<open>A protobuf timestamp: seconds since 1970 and nanoseconds.\<close>

type_synonym timestamp = "int \<times> int"

record ProtoDocument =
  pd_id :: string
  pd_title :: string
  pd_content_type :: string
  pd_status :: string
  pd_byte_size :: int
  pd_error :: string
  pd_metadata :: string_map
  pd_created :: timestamp
  pd_updated :: timestamp

record ListDocumentsResponse =
  ldp_documents :: "ProtoDocument list"
  ldp_next_cursor :: string

record SectionView =
  psv_id :: string
  psv_parent :: string
  psv_depth :: int
  psv_title :: string
  psv_summary :: string
  psv_children :: "string list"
  psv_tokens :: int

record DocumentTree =
  pt_document :: string
  pt_title :: string
  pt_sections :: "SectionView list"

record ProtoSection =
  ps_id :: string
  ps_document :: string
  ps_parent :: string
  ps_ordinal :: int
  ps_depth :: int
  ps_title :: string
  ps_summary :: string
  ps_token_count :: int
  ps_metadata :: string_map
  ps_content :: string

type_synonym ('w, 'a) unary = "'w st \<Rightarrow> (rpc_error, 'a) result \<times> 'w st"

subsection \<open>Helpers\<close>

definition timestamp_of :: "go_time \<Rightarrow> timestamp" where
  "timestamp_of t = (unix_seconds t, int (t_nsec t))"

definition docToProto :: "document \<Rightarrow> ProtoDocument" where
  "docToProto doc =
     \<lparr>pd_id = d_id doc, pd_title = d_title doc, pd_content_type = d_content_type doc, pd_status = d_status doc,
      pd_byte_size = d_byte_size doc, pd_error = d_error doc, pd_metadata = d_metadata doc,
      pd_created = timestamp_of (d_created doc), pd_updated = timestamp_of (d_updated doc)\<rparr>"

definition hasSuffix :: "string \<Rightarrow> string \<Rightarrow> bool" where
  "hasSuffix s suffix \<longleftrightarrow> length s \<ge> length suffix \<and> drop (length s - length suffix) s = suffix"

definition rpc_guessContentType :: "string \<Rightarrow> string" where
  "rpc_guessContentType filename =
     (if filename = [] then octet_stream
      else if hasSuffix filename ''.md'' \<or> hasSuffix filename ''.markdown'' then ''text/markdown''
      else if hasSuffix filename ''.txt'' then ''text/plain''
      else if hasSuffix filename ''.html'' \<or> hasSuffix filename ''.htm'' then ''text/html''
      else if hasSuffix filename ''.pdf'' then ''application/pdf''
      else if hasSuffix filename ''.docx'' then docx_type
      else octet_stream)"

text \<open>The in-memory reader; \<open>None\<close> is the end of the data.\<close>

record bytesReaderImpl =
  br_data :: string
  br_pos :: nat

definition bytesReader :: "string \<Rightarrow> bytesReaderImpl" where
  "bytesReader b = \<lparr>br_data = b, br_pos = 0\<rparr>"

definition bytesReader_Read :: "nat \<Rightarrow> bytesReaderImpl \<Rightarrow> string option \<times> bytesReaderImpl" where
  "bytesReader_Read n r =
     (if br_pos r \<ge> length (br_data r) then (None, r)
      else let chunk = take n (drop (br_pos r) (br_data r))
           in (Some chunk, r\<lparr>br_pos := br_pos r + length chunk\<rparr>))"

subsection \<open>Methods\<close>

text \<open>The three writes of \<open>CreateDocument\<close>, on the transport's own code.\<close>

definition rpc_ingest_steps ::
  "'w deps \<Rightarrow> ctx \<Rightarrow> CreateDocumentRequest rpc_request \<Rightarrow> string \<Rightarrow> string \<Rightarrow> string
   \<Rightarrow> ('w, CreateDocumentResponse) unary" where
  "rpc_ingest_steps d c req org docID contentType s =
     (let msg = rq_msg req;
          key = dp_source_key d docID (cdq_filename msg);
          sz = int (length (cdq_content msg));
          title = (if cdq_filename msg = [] then docID else cdq_filename msg)
      in case call (sto_put (dp_storage d) c key (br_data (bytesReader (cdq_content msg)))
                \<lparr>pm_key = key, pm_size = sz, pm_content_type = contentType\<rparr>) s of
           (Some err, s1) \<Rightarrow> (Inl (NewError CodeInternal (Some ''storage write failed'')), s1)
         | (None, s1) \<Rightarrow>
             (case call (db_new (dp_db d) c
                     \<lparr>d_id = docID, d_org = org, d_store = storeIDFromConnect req, d_title = title,
                      d_content_type = contentType, d_source_ref = key, d_status = dp_pending d,
                      d_byte_size = sz, d_error = [], d_metadata = None,
                      d_created = zero_time, d_updated = zero_time\<rparr>) s1 of
                (Some err, s2) \<Rightarrow> (Inl (NewError CodeInternal (Some ''db write failed'')), s2)
              | (None, s2) \<Rightarrow>
                  (case call (q_enqueue (dp_queue d) c
                          \<lparr>j_kind = dp_ingest_kind d,
                           j_payload = dp_payload d docID contentType (cdq_filename msg) key,
                           j_dedupe = docID\<rparr>) s2 of
                     (Some err, s3) \<Rightarrow> (Inl (NewError CodeInternal (Some ''enqueue failed'')), s3)
                   | (None, s3) \<Rightarrow> (Inr \<lparr>cdp_document = docID, cdp_status = dp_pending d\<rparr>, s3))))"

definition CreateDocument :: "'w deps \<Rightarrow> ctx \<Rightarrow> CreateDocumentRequest rpc_request \<Rightarrow> ('w, CreateDocumentResponse) unary" where
  "CreateDocument d c req s =
     (case orgIDFromConnect req of
        Inl err \<Rightarrow> (Inl err, s)
      | Inr org \<Rightarrow>
     (let msg = rq_msg req in
      if cdq_content msg = [] then (Inl (NewError CodeInvalidArgument (Some ''content is required'')), s)
      else
     (case call (dp_document_id d) s of
        (docID, s1) \<Rightarrow>
     (let ct = (if cdq_content_type msg = [] then rpc_guessContentType (cdq_filename msg) else cdq_content_type msg)
      in rpc_ingest_steps d c req org docID ct s1))))"

definition GetDocument :: "'w deps \<Rightarrow> ctx \<Rightarrow> DocumentIdRequest rpc_request \<Rightarrow> ('w, ProtoDocument) unary" where
  "GetDocument d c req s =
     (case orgIDFromConnect req of
        Inl err \<Rightarrow> (Inl err, s)
      | Inr org \<Rightarrow>
          (case call (db_get (dp_db d) c (dq_document (rq_msg req)) org (storeIDFromConnect req)) s of
             (Inl err, s1) \<Rightarrow> (Inl (rpc_lookup_err err), s1)
           | (Inr doc, s1) \<Rightarrow> (Inr (docToProto doc), s1)))"

definition rpc_list_opts :: "ListDocumentsRequest rpc_request \<Rightarrow> string \<Rightarrow> list_opts" where
  "rpc_list_opts req org =
     (let msg = rq_msg req in
      \<lparr>lo_org = org, lo_store = storeIDFromConnect req, lo_limit = ldq_limit msg, lo_status = ldq_status msg,
       lo_cursor = (if ldq_cursor msg \<noteq> []
         then (case parse_time (ldq_cursor msg) of Some t \<Rightarrow> t | None \<Rightarrow> zero_time) else zero_time)\<rparr>)"

definition ListDocuments :: "'w deps \<Rightarrow> ctx \<Rightarrow> ListDocumentsRequest rpc_request \<Rightarrow> ('w, ListDocumentsResponse) unary" where
  "ListDocuments d c req s =
     (case orgIDFromConnect req of
        Inl err \<Rightarrow> (Inl err, s)
      | Inr org \<Rightarrow>
          (case call (db_list (dp_db d) c (rpc_list_opts req org)) s of
             (Inl err, s1) \<Rightarrow> (Inl (NewError CodeInternal (Some (ge_msg err))), s1)
           | (Inr (docs, next_t), s1) \<Rightarrow>
               (Inr \<lparr>ldp_documents = map docToProto docs,
                     ldp_next_cursor = (if time_is_zero next_t then [] else format_time next_t)\<rparr>, s1)))"

definition DeleteDocument :: "'w deps \<Rightarrow> ctx \<Rightarrow> DocumentIdRequest rpc_request \<Rightarrow> ('w, unit) unary" where
  "DeleteDocument d c req s =
     (case orgIDFromConnect req of
        Inl err \<Rightarrow> (Inl err, s)
      | Inr org \<Rightarrow>
          (case call (db_delete (dp_db d) c (dq_document (rq_msg req)) org (storeIDFromConnect req)) s of
             (Some err, s1) \<Rightarrow> (Inl (rpc_lookup_err err), s1)
           | (None, s1) \<Rightarrow> (Inr (), s1)))"

definition viewToProto :: "section_view \<Rightarrow> SectionView" where
  "viewToProto v =
     \<lparr>psv_id = sv_id v, psv_parent = sv_parent v, psv_depth = wrap32 (sv_depth v), psv_title = sv_title v,
      psv_summary = sv_summary v, psv_children = sv_children v, psv_tokens = wrap32 (sv_tokens v)\<rparr>"

definition GetDocumentTree :: "'w deps \<Rightarrow> ctx \<Rightarrow> DocumentIdRequest rpc_request \<Rightarrow> ('w, DocumentTree) unary" where
  "GetDocumentTree d c req s =
     (case orgIDFromConnect req of
        Inl err \<Rightarrow> (Inl err, s)
      | Inr org \<Rightarrow>
          (case call (db_tree (dp_db d) c (dq_document (rq_msg req)) org (storeIDFromConnect req)) s of
             (Inl err, s1) \<Rightarrow> (Inl (rpc_lookup_err err), s1)
           | (Inr t, s1) \<Rightarrow>
               (let v = tr_view t in
                (Inr \<lparr>pt_document = tv_document v, pt_title = tv_title v,
                      pt_sections = map viewToProto (tv_sections v)\<rparr>, s1))))"

definition GetSection :: "'w deps \<Rightarrow> ctx \<Rightarrow> GetSectionRequest rpc_request \<Rightarrow> ('w, ProtoSection) unary" where
  "GetSection d c req s =
     (case orgIDFromConnect req of
        Inl err \<Rightarrow> (Inl err, s)
      | Inr org \<Rightarrow>
          (case call (db_section (dp_db d) c (sq_section (rq_msg req)) org (storeIDFromConnect req)) s of
             (Inl err, s1) \<Rightarrow> (Inl (rpc_lookup_err err), s1)
           | (Inr sec, s1) \<Rightarrow>
               (case fetchContent (dp_storage d) c (s_content_ref sec) s1 of
                  (content, s2) \<Rightarrow>
                    (Inr \<lparr>ps_id = s_id sec, ps_document = s_document sec, ps_parent = s_parent sec,
                      ps_ordinal = wrap32 (s_ordinal sec), ps_depth = wrap32 (s_depth sec),
                      ps_title = s_title sec, ps_summary = s_summary sec,
                      ps_token_count = wrap32 (s_token_count sec), ps_metadata = s_metadata sec,
                      ps_content = content\<rparr>, s2))))"

subsection \<open>The source stream\<close>

text \<open>
  How a reader hands out a blob: the bytes of the reads that reported no error, in order, and
  the bytes of the last read, the one that reported the end of the data (or the blob's error).
  \<open>send\<close> is the stream's \<open>Send\<close>; a message is sent only for a read that returned bytes.
\<close>

type_synonym reads = "string list \<times> string"

definition chunk_size :: nat where
  "chunk_size = 32 * 1024"

definition send_chunk :: "(string \<Rightarrow> 'w \<Rightarrow> go_error option \<times> 'w) \<Rightarrow> string \<Rightarrow> 'w st \<Rightarrow>
    string list \<times> rpc_error option \<times> 'w st" where
  "send_chunk send chunk s =
     (if chunk = [] then ([], None, s)
      else (case call (send chunk) s of
              (Some e, s1) \<Rightarrow> ([chunk], Some (NewError CodeInternal (Some (ge_msg e))), s1)
            | (None, s1) \<Rightarrow> ([chunk], None, s1)))"

fun source_loop ::
  "(string \<Rightarrow> 'w \<Rightarrow> go_error option \<times> 'w) \<Rightarrow> go_error option \<Rightarrow> string list \<Rightarrow> string \<Rightarrow> 'w st \<Rightarrow>
     string list \<times> rpc_error option \<times> 'w st" where
  "source_loop send err [] final s =
     (case send_chunk send final s of
        (sent, Some e, s1) \<Rightarrow> (sent, Some e, s1)
      | (sent, None, s1) \<Rightarrow>
          (sent, map_option (\<lambda>e. NewError CodeInternal (Some (ge_msg e))) err, s1))"
| "source_loop send err (chunk # chunks) final s =
     (case send_chunk send chunk s of
        (sent, Some e, s1) \<Rightarrow> (sent, Some e, s1)
      | (sent, None, s1) \<Rightarrow>
          (case source_loop send err chunks final s1 of
             (sent_later, res, s2) \<Rightarrow> (sent @ sent_later, res, s2)))"

definition GetDocumentSource ::
  "'w deps \<Rightarrow> (nat \<Rightarrow> blob \<Rightarrow> reads) \<Rightarrow> (string \<Rightarrow> 'w \<Rightarrow> go_error option \<times> 'w) \<Rightarrow>
     ctx \<Rightarrow> DocumentIdRequest rpc_request \<Rightarrow> 'w st \<Rightarrow> string list \<times> rpc_error option \<times> 'w st" where
  "GetDocumentSource d reads send c req s =
     (case orgIDFromConnect req of
        Inl err \<Rightarrow> ([], Some err, s)
      | Inr org \<Rightarrow>
          (case call (db_get (dp_db d) c (dq_document (rq_msg req)) org (storeIDFromConnect req)) s of
             (Inl err, s1) \<Rightarrow> ([], Some (rpc_lookup_err err), s1)
           | (Inr doc, s1) \<Rightarrow>
               if d_source_ref doc = []
               then ([], Some (NewError CodeNotFound (Some ''document source not available'')), s1)
               else
                 (case call (sto_get (dp_storage d) c (d_source_ref doc)) s1 of
                    (Inl err, s2) \<Rightarrow>
                      ([], Some (NewError CodeInternal (Some (''read source: '' @ ge_msg err))), s2)
                  | (Inr b, s2) \<Rightarrow>
                      (case reads chunk_size b of
                         (chunks, final) \<Rightarrow> source_loop send (bl_error b) chunks final s2))))"

subsection \<open>Health\<close>

definition HealthCheck :: "('w, string) unary" where
  "HealthCheck s = (Inr ''ok'', s)"

definition HealthVersion :: "string \<Rightarrow> ('w, string) unary" where
  "HealthVersion version s = (Inr version, s)"

end
