(* ===== verification/Rpc_Query.thy ===== *)
theory Rpc_Query
  imports Rpc_Documents Rest_Stream
begin

text \<open>
  The query service of the RPC transport (\<open>internal/connecthandler/query.go\<close>,
  \<open>query_stream.go\<close>) and its messages. Numbers of the engine are narrowed to 32 bits.
\<close>

record QueryRequest =
  pq_document :: string
  pq_query :: string
  pq_model :: string
  pq_max_tokens :: int
  pq_reserved :: int
  pq_parallel :: int
  pq_max_sections :: int

record QueryMultiRequest =
  pqm_documents :: "string list"
  pqm_query :: string
  pqm_model :: string
  pqm_max_tokens :: int
  pqm_reserved :: int
  pqm_parallel :: int
  pqm_max_sections :: int

record QuerySection =
  pqs_id :: string
  pqs_parent :: string
  pqs_title :: string
  pqs_summary :: string
  pqs_token_count :: int
  pqs_content :: string

record QueryResponse =
  pr_document :: string
  pr_query :: string
  pr_strategy :: string
  pr_model :: string
  pr_sections :: "QuerySection list"
  pr_elapsed :: int

record QueryUsage =
  pu_input :: int
  pu_output :: int
  pu_total :: int
  pu_cost :: rat
  pu_calls :: int

record DocumentQueryResult =
  dqr_document :: string
  dqr_sections :: "QuerySection list"
  dqr_usage :: QueryUsage

record QueryMultiResponse =
  pmr_query :: string
  pmr_strategy :: string
  pmr_model :: string
  pmr_documents :: "DocumentQueryResult list"
  pmr_errors :: "(string \<times> string) list"
  pmr_elapsed :: int
  pmr_total :: QueryUsage

record QueryStreamEvent =
  pse_type :: string
  pse_section :: "QuerySection option"
  pse_slice :: int
  pse_total :: int
  pse_message :: string
  pse_strategy :: string
  pse_document :: string
  pse_query :: string
  pse_elapsed :: int

record QueryMultiStreamEvent =
  pme_document :: string
  pme_index :: int
  pme_type :: string
  pme_section :: "QuerySection option"
  pme_slice :: int
  pme_total :: int
  pme_message :: string
  pme_query :: string
  pme_elapsed :: int

definition sectionToProto :: "doc_section \<times> string \<Rightarrow> QuerySection" where
  "sectionToProto p =
     (case p of (sec, content) \<Rightarrow>
        \<lparr>pqs_id = s_id sec, pqs_parent = s_parent sec, pqs_title = s_title sec, pqs_summary = s_summary sec,
         pqs_token_count = wrap32 (s_token_count sec), pqs_content = content\<rparr>)"

definition usageToProto :: "usage \<Rightarrow> QueryUsage" where
  "usageToProto u =
     \<lparr>pu_input = wrap32 (us_input u), pu_output = wrap32 (us_output u), pu_total = wrap32 (us_total u),
      pu_cost = us_cost u, pu_calls = wrap32 (us_calls u)\<rparr>"

text \<open>
  The transport has its own copies of the budget and of the loops over the selected sections;
  they are compared with those of the REST handlers at the end of this theory.
\<close>

definition rpc_budget :: "string \<Rightarrow> int \<Rightarrow> int \<Rightarrow> int \<Rightarrow> budget" where
  "rpc_budget model max_tokens reserved parallel =
     (let b = \<lparr>bu_model = model, bu_max_tokens = max_tokens, bu_reserved = reserved, bu_parallel = parallel\<rparr>;
          b1 = (if bu_max_tokens b = 0 then b\<lparr>bu_max_tokens := 100000\<rparr> else b);
          b2 = (if bu_reserved b1 = 0 then b1\<lparr>bu_reserved := 4000\<rparr> else b1)
      in if bu_parallel b2 = 0 then b2\<lparr>bu_parallel := 8\<rparr> else b2)"

definition rpc_cap_ids :: "int \<Rightarrow> string list \<Rightarrow> string list" where
  "rpc_cap_ids cap ids = (if cap > 0 \<and> int (length ids) > cap then take (nat cap) ids else ids)"

fun rpc_sections ::
  "'w storage \<Rightarrow> ctx \<Rightarrow> tree \<Rightarrow> string list \<Rightarrow> 'w st \<Rightarrow> QuerySection list \<times> 'w st" where
  "rpc_sections sto c t [] s = ([], s)"
| "rpc_sections sto c t (i # ids) s =
     (case tr_find t i of
        None \<Rightarrow> rpc_sections sto c t ids s
      | Some sec \<Rightarrow>
          (case fetchContent sto c (s_content_ref sec) s of
             (content, s1) \<Rightarrow>
               (case rpc_sections sto c t ids s1 of
                  (secs, s2) \<Rightarrow> (sectionToProto (sec, content) # secs, s2))))"

text \<open>\<open>n\<close> sections have been appended so far; the loop ends when there are \<open>cap\<close>.\<close>

fun rpc_capped_sections ::
  "'w storage \<Rightarrow> ctx \<Rightarrow> tree \<Rightarrow> int \<Rightarrow> int \<Rightarrow> string list \<Rightarrow> 'w st \<Rightarrow> QuerySection list \<times> 'w st" where
  "rpc_capped_sections sto c t cap n [] s = ([], s)"
| "rpc_capped_sections sto c t cap n (i # ids) s =
     (case tr_find t i of
        None \<Rightarrow> rpc_capped_sections sto c t cap n ids s
      | Some sec \<Rightarrow>
          (case fetchContent sto c (s_content_ref sec) s of
             (content, s1) \<Rightarrow>
               if cap > 0 \<and> n + 1 \<ge> cap then ([sectionToProto (sec, content)], s1)
               else (case rpc_capped_sections sto c t cap (n + 1) ids s1 of
                       (secs, s2) \<Rightarrow> (sectionToProto (sec, content) # secs, s2))))"

fun rpc_documents ::
  "'w deps \<Rightarrow> ctx \<Rightarrow> int \<Rightarrow> (string \<times> doc_result) list \<Rightarrow> 'w st \<Rightarrow> DocumentQueryResult list \<times> 'w st" where
  "rpc_documents d c cap [] s = ([], s)"
| "rpc_documents d c cap ((docID, dr) # drs) s =
     (case rpc_capped_sections (dp_storage d) c (dr_tree dr) cap 0 (dr_selected dr) s of
        (secs, s1) \<Rightarrow>
          (case rpc_documents d c cap drs s1 of
             (docs, s2) \<Rightarrow>
               (\<lparr>dqr_document = docID, dqr_sections = secs, dqr_usage = usageToProto (dr_usage dr)\<rparr> # docs, s2)))"

subsection \<open>One document\<close>

definition Query :: "'w env \<Rightarrow> 'w deps \<Rightarrow> ctx \<Rightarrow> QueryRequest rpc_request \<Rightarrow> ('w, QueryResponse) unary" where
  "Query e d c req s =
     (case orgIDFromConnect req of
        Inl err \<Rightarrow> (Inl err, s)
      | Inr org \<Rightarrow>
     (let msg = rq_msg req in
      if pq_document msg = [] \<or> pq_query msg = [] then (Inl (NewError CodeInvalidArgument None), s)
      else
     (case dp_strategy d of
        None \<Rightarrow> (Inl (NewError CodeUnavailable None), s)
      | Some sg \<Rightarrow>
     (case call (db_tree (dp_db d) c (pq_document msg) org (storeIDFromConnect req)) s of
        (Inl err, s1) \<Rightarrow> (Inl (rpc_lookup_err err), s1)
      | (Inr t, s1) \<Rightarrow>
     (let b = rpc_budget (pq_model msg) (pq_max_tokens msg) (pq_reserved msg) (pq_parallel msg);
          (started, s2) = read_clock e s1
      in case call (sg_select sg c t (pq_query msg) b) s2 of
           (Inl err, s3) \<Rightarrow> (Inl (NewError CodeInternal (Some (ge_msg err))), s3)
         | (Inr ids, s3) \<Rightarrow>
             (case rpc_sections (dp_storage d) c t (rpc_cap_ids (pq_max_sections msg) ids) s3 of
                (secs, s4) \<Rightarrow>
                  (case read_clock e s4 of
                     (now, s5) \<Rightarrow>
                       (Inr \<lparr>pr_document = pq_document msg, pr_query = pq_query msg, pr_strategy = sg_name sg,
                         pr_model = pq_model msg, pr_sections = secs,
                         pr_elapsed = elapsed_ms started now\<rparr>, s5))))))))"

subsection \<open>Many documents\<close>

definition QueryMulti :: "'w env \<Rightarrow> 'w deps \<Rightarrow> ctx \<Rightarrow> QueryMultiRequest rpc_request \<Rightarrow>
    'w st \<Rightarrow> (rpc_error, QueryMultiResponse) result option \<times> 'w st" where
  "QueryMulti e d c req s =
     (case orgIDFromConnect req of
        Inl err \<Rightarrow> (Some (Inl err), s)
      | Inr org \<Rightarrow>
     (let msg = rq_msg req in
      if pqm_documents msg = [] \<or> pqm_query msg = [] then
        (Some (Inl (NewError CodeInvalidArgument (Some ''document_ids (non-empty) and query are required''))), s)
      else
     (case dp_multi d of
        None \<Rightarrow>
          (Some (Inl (NewError CodeUnimplemented (Some ''multi-document queries not configured''))), s)
      | Some md \<Rightarrow>
     (let b = rpc_budget (pqm_model msg) (pqm_max_tokens msg) (pqm_reserved msg) (pqm_parallel msg);
          (started, s1) = read_clock e s
      in case call (md_query md c org (storeIDFromConnect req) (pqm_documents msg) (pqm_query msg) b) s1 of
           (Inl err, s2) \<Rightarrow> (Some (Inl (NewError CodeInternal (Some (ge_msg err)))), s2)
         | (Inr res, s2) \<Rightarrow>
             (case rpc_documents d c (pqm_max_sections msg) (mr_documents res) s2 of
                (docs, s3) \<Rightarrow>
                  (case dp_strategy d of
                     None \<Rightarrow> (None, s3)
                   | Some sg \<Rightarrow>
                       (case read_clock e s3 of
                          (now, s4) \<Rightarrow>
                            (Some (Inr \<lparr>pmr_query = pqm_query msg, pmr_strategy = sg_name sg,
                               pmr_model = pqm_model msg,
                               pmr_documents = docs,
                               pmr_errors = map (\<lambda>(i, err). (i, ge_msg err)) (mr_errors res),
                               pmr_elapsed = elapsed_ms started now,
                               pmr_total = usageToProto (mr_total res)\<rparr>), s4))))))))"

subsection \<open>Streams\<close>

definition rpc_build_event ::
  "'w env \<Rightarrow> 'w deps \<Rightarrow> ctx \<Rightarrow> tree \<Rightarrow> QueryRequest \<Rightarrow> string \<Rightarrow> int \<Rightarrow> stream_event \<Rightarrow> 'w st \<Rightarrow>
     QueryStreamEvent \<times> 'w st" where
  "rpc_build_event e d c t msg name started ev s =
     (let pe = \<lparr>pse_type = dp_event_name d (ev_type ev), pse_section = None, pse_slice = wrap32 (ev_slice ev),
            pse_total = wrap32 (ev_total ev), pse_message = ev_message ev, pse_strategy = [],
            pse_document = [], pse_query = [], pse_elapsed = 0\<rparr>
      in case ev_type ev of
           EventStarted \<Rightarrow>
             (pe\<lparr>pse_strategy := name, pse_document := pq_document msg, pse_query := pq_query msg\<rparr>, s)
         | EventSectionSelected \<Rightarrow>
             (case tr_find t (ev_section ev) of
                None \<Rightarrow> (pe, s)
              | Some sec \<Rightarrow>
                  (case fetchContent (dp_storage d) c (s_content_ref sec) s of
                     (content, s1) \<Rightarrow> (pe\<lparr>pse_section := Some (sectionToProto (sec, content))\<rparr>, s1)))
         | EventCompleted \<Rightarrow>
             (case read_clock e s of (now, s1) \<Rightarrow> (pe\<lparr>pse_elapsed := elapsed_ms started now\<rparr>, s1))
         | EventError \<Rightarrow> (pe\<lparr>pse_message := error_message ev\<rparr>, s)
         | EventOther x \<Rightarrow> (pe, s))"

text \<open>The loop over the channel; it stops at the first message that cannot be sent.\<close>

fun send_loop ::
  "('e \<Rightarrow> 'w st \<Rightarrow> 'm \<times> 'w st) \<Rightarrow> ('m \<Rightarrow> 'w \<Rightarrow> go_error option \<times> 'w) \<Rightarrow> 'e list \<Rightarrow> 'w st \<Rightarrow>
     'm list \<times> go_error option \<times> 'w st" where
  "send_loop build send [] s = ([], None, s)"
| "send_loop build send (ev # evs) s =
     (case build ev s of
        (m, s1) \<Rightarrow>
          (case call (send m) s1 of
             (Some err, s2) \<Rightarrow> ([m], Some err, s2)
           | (None, s2) \<Rightarrow>
               (case send_loop build send evs s2 of (ms, res, s3) \<Rightarrow> (m # ms, res, s3))))"

text \<open>An error a streaming method returns: with a code, or the one \<open>Send\<close> gave.\<close>

datatype stream_error = Coded rpc_error | Raw go_error

definition QueryStream ::
  "'w env \<Rightarrow> 'w deps \<Rightarrow> (QueryStreamEvent \<Rightarrow> 'w \<Rightarrow> go_error option \<times> 'w) \<Rightarrow> ctx \<Rightarrow> QueryRequest rpc_request \<Rightarrow>
     'w st \<Rightarrow> QueryStreamEvent list \<times> stream_error option \<times> 'w st" where
  "QueryStream e d send c req s =
     (case orgIDFromConnect req of
        Inl err \<Rightarrow> ([], Some (Coded err), s)
      | Inr org \<Rightarrow>
     (let msg = rq_msg req in
      if pq_document msg = [] \<or> pq_query msg = []
      then ([], Some (Coded (NewError CodeInvalidArgument None)), s)
      else
     (case (case dp_strategy d of None \<Rightarrow> None
            | Some sg \<Rightarrow> map_option (\<lambda>f. (sg_name sg, f)) (sg_stream sg)) of
        None \<Rightarrow> ([], Some (Coded (NewError CodeUnimplemented None)), s)
      | Some (name, select_stream) \<Rightarrow>
     (case call (db_tree (dp_db d) c (pq_document msg) org (storeIDFromConnect req)) s of
        (Inl err, s1) \<Rightarrow> ([], Some (Coded (rpc_lookup_err err)), s1)
      | (Inr t, s1) \<Rightarrow>
     (let b = rpc_budget (pq_model msg) (pq_max_tokens msg) (pq_reserved msg) (pq_parallel msg);
          (started, s2) = read_clock e s1;
          (evs, s3) = call (select_stream c t (pq_query msg) b) s2
      in case send_loop (rpc_build_event e d c t msg name started) send evs s3 of
           (ms, res, s4) \<Rightarrow> (ms, map_option Raw res, s4))))))"

text \<open>The clock is not read and the section of a selection is not put into the message.\<close>

definition rpc_multi_event ::
  "'w deps \<Rightarrow> QueryMultiRequest \<Rightarrow> multi_event \<Rightarrow> 'w st \<Rightarrow> QueryMultiStreamEvent \<times> 'w st" where
  "rpc_multi_event d msg mev s =
     (let ev = me_event mev;
          pe = \<lparr>pme_document = me_document mev, pme_index = wrap32 (me_index mev),
            pme_type = dp_event_name d (ev_type ev), pme_section = None, pme_slice = wrap32 (ev_slice ev),
            pme_total = wrap32 (ev_total ev), pme_message = ev_message ev, pme_query = [], pme_elapsed = 0\<rparr>;
          pe1 = (if ev_type ev = EventStarted then pe\<lparr>pme_query := pqm_query msg\<rparr> else pe);
          pe2 = (case ev_error ev of
              Some err \<Rightarrow> if ev_type ev = EventError then pe1\<lparr>pme_message := ge_msg err\<rparr> else pe1
            | None \<Rightarrow> pe1)
      in (pe2, s))"

definition QueryMultiStream ::
  "'w deps \<Rightarrow> (QueryMultiStreamEvent \<Rightarrow> 'w \<Rightarrow> go_error option \<times> 'w) \<Rightarrow> ctx \<Rightarrow> QueryMultiRequest rpc_request \<Rightarrow>
     'w st \<Rightarrow> QueryMultiStreamEvent list \<times> rpc_error option \<times> 'w st" where
  "QueryMultiStream d send c req s =
     (case orgIDFromConnect req of
        Inl err \<Rightarrow> ([], Some err, s)
      | Inr org \<Rightarrow>
     (let msg = rq_msg req in
      if pqm_documents msg = [] \<or> pqm_query msg = [] then
        ([], Some (NewError CodeInvalidArgument (Some ''document_ids (non-empty) and query are required'')), s)
      else
     (case dp_multi d of
        None \<Rightarrow> ([], Some (NewError CodeUnimplemented (Some ''multi-document queries not configured'')), s)
      | Some md \<Rightarrow>
     (let b = rpc_budget (pqm_model msg) (pqm_max_tokens msg) (pqm_reserved msg) (pqm_parallel msg);
          (mevs, s1) = call (md_stream md c org (storeIDFromConnect req) (pqm_documents msg) (pqm_query msg) b) s
      in case send_loop (rpc_multi_event d msg) send mevs s1 of
           (ms, res, s2) \<Rightarrow>
             (ms, map_option (\<lambda>err. NewError CodeInternal (Some (ge_msg err))) res, s2)))))"

subsection \<open>The copies agree with those of the REST handlers\<close>

lemma rpc_budget_eq: "rpc_budget model m r p = make_budget model m r p"
  by (simp add: rpc_budget_def make_budget_def default_to_def Let_def)

lemma rpc_cap_ids_eq: "rpc_cap_ids cap ids = truncate_ids cap ids"
  by (simp add: rpc_cap_ids_def truncate_ids_def)

lemma rpc_sections_eq:
  "rpc_sections sto c t ids s = (case collect_sections sto c t ids s of (secs, s1) \<Rightarrow> (map sectionToProto secs, s1))"
  by (induction ids arbitrary: s) (auto split: option.splits prod.splits)

lemma rpc_capped_sections_eq:
  "rpc_capped_sections sto c t cap n ids s =
     (case collect_capped sto c t cap n ids s of (secs, s1) \<Rightarrow> (map sectionToProto secs, s1))"
  by (induction ids arbitrary: n s) (auto split: option.splits prod.splits)

lemma rpc_documents_eq:
  "rpc_documents d c cap drs s =
     (case collect_documents d c cap drs s of
        (docs, s1) \<Rightarrow> (map (\<lambda>(i, secs, u). \<lparr>dqr_document = i, dqr_sections = map sectionToProto secs,
                            dqr_usage = usageToProto u\<rparr>) docs, s1))"
  by (induction d c cap drs s rule: rpc_documents.induct) (auto simp: rpc_capped_sections_eq split: prod.splits)

lemmas rpc_copies = rpc_budget_eq rpc_cap_ids_eq rpc_sections_eq rpc_documents_eq

end
