(* ===== verification/Rest_Props.thy ===== *)
theory Rest_Props
  imports Handler_Facts Sample_Services
begin

text \<open>
  What the REST handlers guarantee: tenant isolation, the ingest pipeline, pagination, the cap on
  sections, the event stream and the webhook.
\<close>

subsection \<open>Tenants\<close>

text \<open>Two databases that agree on what they do for one organisation and store.\<close>

definition same_tenant_db :: "string \<Rightarrow> string \<Rightarrow> 'w database \<Rightarrow> 'w database \<Rightarrow> bool" where
  "same_tenant_db org store a b \<longleftrightarrow>
     (\<forall>c opts. lo_org opts = org \<and> lo_store opts = store \<longrightarrow> db_list a c opts = db_list b c opts)
     \<and> (\<forall>c doc. d_org doc = org \<and> d_store doc = store \<longrightarrow> db_new a c doc = db_new b c doc)
     \<and> (\<forall>c i. db_get a c i org store = db_get b c i org store
           \<and> db_delete a c i org store = db_delete b c i org store
           \<and> db_count a c i org store = db_count b c i org store
           \<and> db_tree a c i org store = db_tree b c i org store
           \<and> db_section a c i org store = db_section b c i org store)"

definition same_tenant_multi :: "string \<Rightarrow> string \<Rightarrow> 'w multi_doc \<Rightarrow> 'w multi_doc \<Rightarrow> bool" where
  "same_tenant_multi org store a b \<longleftrightarrow>
     (\<forall>c ids q bu. md_query a c org store ids q bu = md_query b c org store ids q bu
        \<and> md_stream a c org store ids q bu = md_stream b c org store ids q bu)"

definition other_tenants :: "'w deps \<Rightarrow> 'w database \<Rightarrow> 'w multi_doc option \<Rightarrow> 'w deps" where
  "other_tenants d db md = d\<lparr>dp_db := db, dp_multi := md\<rparr>"

lemma other_tenants_fields [simp]:
  "dp_db (other_tenants d db md) = db" "dp_multi (other_tenants d db md) = md"
  "dp_storage (other_tenants d db md) = dp_storage d" "dp_queue (other_tenants d db md) = dp_queue d"
  "dp_strategy (other_tenants d db md) = dp_strategy d"
  "dp_document_id (other_tenants d db md) = dp_document_id d"
  "dp_source_key (other_tenants d db md) = dp_source_key d"
  "dp_multipart (other_tenants d db md) = dp_multipart d"
  "dp_json_error (other_tenants d db md) = dp_json_error d"
  "dp_float_text (other_tenants d db md) = dp_float_text d"
  "dp_pending (other_tenants d db md) = dp_pending d"
  "dp_ingest_kind (other_tenants d db md) = dp_ingest_kind d"
  "dp_event_name (other_tenants d db md) = dp_event_name d"
  "dp_payload (other_tenants d db md) = dp_payload d"
  "dp_view_json (other_tenants d db md) = dp_view_json d"
  by (simp_all add: other_tenants_def)

lemma other_tenants_helpers [simp]:
  "read_upload (other_tenants d db md) = read_upload d"
  "query_body (other_tenants d db md) = query_body d"
  "multi_body (other_tenants d db md) = multi_body d"
  "usage_json (other_tenants d db md) = usage_json d"
  "query_response (other_tenants d db md) = query_response d"
  "doc_result_json (other_tenants d db md) = doc_result_json d"
  "multi_response (other_tenants d db md) = multi_response d"
  "ingest_job (other_tenants d db md) = ingest_job d"
  "new_document (other_tenants d db md) = new_document d"
  by (auto simp: fun_eq_iff read_upload_def read_multipart_def read_json_upload_def query_body_def
      multi_body_def usage_json_def query_response_def doc_result_json_def multi_response_def
      ingest_job_def new_document_def Let_def split: option.splits sum.splits)

lemma other_tenants_loops [simp]:
  "collect_documents (other_tenants d db md) c cap drs s = collect_documents d c cap drs s"
  "build_event e (other_tenants d db md) c t q name started ev s = build_event e d c t q name started ev s"
  "stream_loop e (other_tenants d db md) w c t q name started evs s = stream_loop e d w c t q name started evs s"
  "multi_stream_loop e (other_tenants d db md) w mq started mevs s = multi_stream_loop e d w mq started mevs s"
proof -
  show "collect_documents (other_tenants d db md) c cap drs s = collect_documents d c cap drs s"
    by (induction drs arbitrary: s) (auto split: prod.splits)
  show ev: "build_event e (other_tenants d db md) c t q name started ev s
      = build_event e d c t q name started ev s" for ev s
    unfolding build_event_def base_event_def other_tenants_fields by (rule refl)
  show "stream_loop e (other_tenants d db md) w c t q name started evs s
      = stream_loop e d w c t q name started evs s"
    by (induction evs arbitrary: s) (auto simp: ev split: prod.splits)
  show "multi_stream_loop e (other_tenants d db md) w mq started mevs s
      = multi_stream_loop e d w mq started mevs s"
    by (induction mevs arbitrary: s) (auto simp: build_multi_event_def split: prod.splits)
qed

lemma new_document_tenant [simp]:
  "d_org (new_document d i org store f ct key n) = org" "d_store (new_document d i org store f ct key n) = store"
  by (simp_all add: new_document_def)

lemma list_opts_tenant [simp]:
  "lo_org (list_opts_of r org) = org" "lo_store (list_opts_of r org) = storeID r"
  by (simp_all add: list_opts_of_def)

lemma ingest_same_tenant:
  "same_tenant_db org store (dp_db d) db \<Longrightarrow>
     ingest_steps (other_tenants d db md) c org store i u s = ingest_steps d c org store i u s"
  by (auto simp: ingest_steps_def same_tenant_db_def Let_def split: prod.splits option.splits)

text \<open>Without an organisation every handler gives the same answer.\<close>

lemma missing_org:
  assumes "requireOrgID r = Inl ops"
  shows "HandleListDocuments d w r s = reply ops s" "HandleIngestDocument d w r s = reply ops s"
    "HandleGetDocument d w r s = reply ops s" "HandleDeleteDocument d w r s = reply ops s"
    "HandleGetDocumentSource d w r s = reply ops s" "HandleGetTree d w r s = reply ops s"
    "HandleGetSection d w r s = reply ops s" "HandleQuery e d w r s = reply ops s"
    "HandleQueryMulti e d w r s = reply ops s" "HandleQueryStream e d w r s = reply ops s"
    "HandleQueryStreamMulti e d w r s = reply ops s"
  by (simp_all add: assms HandleListDocuments_def HandleIngestDocument_def HandleGetDocument_def
      HandleDeleteDocument_def HandleGetDocumentSource_def HandleGetTree_def HandleGetSection_def
      HandleQuery_def HandleQueryMulti_def HandleQueryStream_def HandleQueryStreamMulti_def)



end
