(* ===== verification/Pipeline.thy ===== *)
theory Pipeline
  imports Handler_Facts Sample_Services
begin

text \<open>
  The ingest pipeline against an abstract view of the stores behind the engine: the blobs, the
  document rows and the queued jobs. \<open>backend_ok\<close> is the documented behaviour of the three
  services the handler calls: a call that reports success has had its one effect, a call that
  reports an error may have had no effect beyond its own key, and new identifiers are fresh.
  The locale states the contract of an ingest routine on this view; the routine of the
  REST endpoint is interpreted in it, and that of the RPC method in \<open>Rpc_Props\<close>.
\<close>

record 'w view =
  vw_blobs :: "'w \<Rightarrow> string \<Rightarrow> string option"
  vw_docs :: "'w \<Rightarrow> string \<Rightarrow> document option"
  vw_jobs :: "'w \<Rightarrow> job list"

definition put_ok :: "'w deps \<Rightarrow> 'w view \<Rightarrow> bool" where
  "put_ok d v \<longleftrightarrow>
     (\<forall>c key data meta w res w'. sto_put (dp_storage d) c key data meta w = (res, w') \<longrightarrow>
        vw_docs v w' = vw_docs v w \<and> vw_jobs v w' = vw_jobs v w
        \<and> (\<forall>k. k \<noteq> key \<longrightarrow> vw_blobs v w' k = vw_blobs v w k)
        \<and> (res = None \<longrightarrow> vw_blobs v w' key = Some data))"

definition new_ok :: "'w deps \<Rightarrow> 'w view \<Rightarrow> bool" where
  "new_ok d v \<longleftrightarrow>
     (\<forall>c doc w res w'. db_new (dp_db d) c doc w = (res, w') \<longrightarrow>
        vw_blobs v w' = vw_blobs v w \<and> vw_jobs v w' = vw_jobs v w
        \<and> vw_docs v w' = (if res = None then (vw_docs v w)(d_id doc \<mapsto> doc) else vw_docs v w))"

definition enqueue_ok :: "'w deps \<Rightarrow> 'w view \<Rightarrow> bool" where
  "enqueue_ok d v \<longleftrightarrow>
     (\<forall>c j w res w'. q_enqueue (dp_queue d) c j w = (res, w') \<longrightarrow>
        vw_blobs v w' = vw_blobs v w \<and> vw_docs v w' = vw_docs v w
        \<and> vw_jobs v w' = (if res = None then vw_jobs v w @ [j] else vw_jobs v w))"

text \<open>No row and no blob of another document has the fresh identifier.\<close>

definition fresh_ok :: "'w deps \<Rightarrow> 'w view \<Rightarrow> bool" where
  "fresh_ok d v \<longleftrightarrow>
     (\<forall>w i w'. dp_document_id d w = (i, w') \<longrightarrow>
        vw_blobs v w' = vw_blobs v w \<and> vw_docs v w' = vw_docs v w \<and> vw_jobs v w' = vw_jobs v w
        \<and> vw_docs v w i = None
        \<and> (\<forall>k doc f. vw_docs v w k = Some doc \<longrightarrow> d_source_ref doc \<noteq> dp_source_key d i f))"

definition backend_ok :: "'w deps \<Rightarrow> 'w view \<Rightarrow> bool" where
  "backend_ok d v \<longleftrightarrow> put_ok d v \<and> new_ok d v \<and> enqueue_ok d v \<and> fresh_ok d v"

text \<open>Every row's source is stored, and every job is for a row.\<close>

definition pipeline_inv :: "'w view \<Rightarrow> 'w \<Rightarrow> bool" where
  "pipeline_inv v w \<longleftrightarrow>
     (\<forall>i doc. vw_docs v w i = Some doc \<longrightarrow> vw_blobs v w (d_source_ref doc) \<noteq> None)
     \<and> (\<forall>j \<in> set (vw_jobs v w). vw_docs v w (j_dedupe j) \<noteq> None)"

definition unused_id :: "'w deps \<Rightarrow> 'w view \<Rightarrow> string \<Rightarrow> 'w \<Rightarrow> bool" where
  "unused_id d v i w \<longleftrightarrow> vw_docs v w i = None
     \<and> (\<forall>k doc f. vw_docs v w k = Some doc \<longrightarrow> d_source_ref doc \<noteq> dp_source_key d i f)"

text \<open>What a completed ingest leaves behind.\<close>

definition ingested ::
  "'w deps \<Rightarrow> 'w view \<Rightarrow> string \<Rightarrow> string \<Rightarrow> string \<Rightarrow> upload \<Rightarrow> 'w \<Rightarrow> 'w \<Rightarrow> bool" where
  "ingested d v i org store u w w' \<longleftrightarrow>
     (\<exists>doc. vw_docs v w' i = Some doc \<and> d_org doc = org \<and> d_store doc = store
        \<and> d_status doc = dp_pending d
        \<and> d_content_type doc = up_content_type u
        \<and> vw_blobs v w' (d_source_ref doc) = Some (up_data u)
        \<and> vw_jobs v w' = vw_jobs v w @ [ingest_job d i (up_content_type u) (up_filename u) (d_source_ref doc)])"

locale ingest_routine =
  fixes run :: "string \<Rightarrow> string \<Rightarrow> string \<Rightarrow> upload \<Rightarrow> 'w st \<Rightarrow> string option \<times> 'w st"
    and d :: "'w deps" and v :: "'w view"
  assumes run_inv: "backend_ok d v \<Longrightarrow> run org store i u s = (res, s') \<Longrightarrow>
      unused_id d v i (st_world s) \<Longrightarrow> pipeline_inv v (st_world s) \<Longrightarrow> pipeline_inv v (st_world s')"
    and run_done: "backend_ok d v \<Longrightarrow> run org store i u s = (None, s') \<Longrightarrow>
      ingested d v i org store u (st_world s) (st_world s')"
    and run_failed: "backend_ok d v \<Longrightarrow> run org store i u s = (Some msg, s') \<Longrightarrow>
      vw_jobs v (st_world s') = vw_jobs v (st_world s)"
begin

text \<open>A sequence of ingests with fresh identifiers keeps the invariant, whichever of them fail.\<close>

fun run_all :: "(string \<times> string \<times> string \<times> upload) list \<Rightarrow> 'w st \<Rightarrow> 'w st" where
  "run_all [] s = s"
| "run_all ((org, store, i, u) # xs) s = run_all xs (snd (run org store i u s))"

fun all_fresh :: "(string \<times> string \<times> string \<times> upload) list \<Rightarrow> 'w st \<Rightarrow> bool" where
  "all_fresh [] s \<longleftrightarrow> True"
| "all_fresh ((org, store, i, u) # xs) s \<longleftrightarrow>
     unused_id d v i (st_world s) \<and> all_fresh xs (snd (run org store i u s))"

lemma run_all_inv:
  "backend_ok d v \<Longrightarrow> all_fresh xs s \<Longrightarrow> pipeline_inv v (st_world s) \<Longrightarrow>
     pipeline_inv v (st_world (run_all xs s))"
proof (induction xs s rule: run_all.induct)
  case (2 org store i u xs s)
  then show ?case using run_inv [of org store i u s] by (cases "run org store i u s") auto
qed simp

end

lemma call_world: "call f s = (a, s') \<Longrightarrow> f (st_world s) = (a, st_world s')"
  by (auto simp: call_def split: prod.splits)

lemma ingest_steps_inv:
  assumes "backend_ok d v" "ingest_steps d c org store i u s = (res, s')"
    and "unused_id d v i (st_world s)" "pipeline_inv v (st_world s)"
  shows "pipeline_inv v (st_world s')"
proof -
  let ?key = "dp_source_key d i (up_filename u)"
  let ?doc = "new_document d i org store (up_filename u) (up_content_type u) ?key (up_size u)"
  note ok = assms(1) [unfolded backend_ok_def]
  obtain r1 s1 where p: "call (sto_put (dp_storage d) c ?key (up_data u)
      \<lparr>pm_key = ?key, pm_size = up_size u, pm_content_type = up_content_type u\<rparr>) s = (r1, s1)" by force
  obtain r2 s2 where n: "call (db_new (dp_db d) c ?doc) s1 = (r2, s2)" by force
  obtain r3 s3 where q: "call (q_enqueue (dp_queue d) c
      (ingest_job d i (up_content_type u) (up_filename u) ?key)) s2 = (r3, s3)" by force
  have eq: "s' = (if r1 \<noteq> None then s1 else if r2 \<noteq> None then s2 else s3)"
    using assms(2) by (auto simp: ingest_steps_def Let_def p n q split: option.splits)
  have 1: "vw_docs v (st_world s1) = vw_docs v (st_world s)" "vw_jobs v (st_world s1) = vw_jobs v (st_world s)"
    "\<And>k. k \<noteq> ?key \<Longrightarrow> vw_blobs v (st_world s1) k = vw_blobs v (st_world s) k"
    "r1 = None \<Longrightarrow> vw_blobs v (st_world s1) ?key = Some (up_data u)"
    using ok call_world [OF p] unfolding put_ok_def by blast+
  have 2: "vw_blobs v (st_world s2) = vw_blobs v (st_world s1)" "vw_jobs v (st_world s2) = vw_jobs v (st_world s1)"
    "vw_docs v (st_world s2) = (if r2 = None then (vw_docs v (st_world s1))(i \<mapsto> ?doc) else vw_docs v (st_world s1))"
    using ok call_world [OF n] unfolding new_ok_def by (metis document.select_convs(1) new_document_def)+
  have 3: "vw_blobs v (st_world s3) = vw_blobs v (st_world s2)" "vw_docs v (st_world s3) = vw_docs v (st_world s2)"
    "vw_jobs v (st_world s3) = (if r3 = None
       then vw_jobs v (st_world s2) @ [ingest_job d i (up_content_type u) (up_filename u) ?key]
       else vw_jobs v (st_world s2))"
    using ok call_world [OF q] unfolding enqueue_ok_def by metis+
  have src: "d_source_ref ?doc = ?key" by (simp add: new_document_def)
  have inv1: "pipeline_inv v (st_world s1)"
    using assms(3,4) 1 unfolding pipeline_inv_def unused_id_def by metis
  have inv2: "pipeline_inv v (st_world s2)" if "r1 = None"
    using inv1 2 1(4) [OF that] src unfolding pipeline_inv_def by (auto split: if_splits)
  have inv3: "pipeline_inv v (st_world s3)" if "r1 = None" "r2 = None"
    using inv2 [OF that(1)] 2 3 that(2) unfolding pipeline_inv_def
    by (auto simp: ingest_job_def split: if_splits)
  show ?thesis using eq inv1 inv2 inv3 by auto
qed

lemma ingest_steps_done:
  assumes "backend_ok d v" "ingest_steps d c org store i u s = (None, s')"
  shows "ingested d v i org store u (st_world s) (st_world s')"
proof -
  let ?key = "dp_source_key d i (up_filename u)"
  let ?doc = "new_document d i org store (up_filename u) (up_content_type u) ?key (up_size u)"
  let ?job = "ingest_job d i (up_content_type u) (up_filename u) ?key"
  note ok = assms(1) [unfolded backend_ok_def put_ok_def new_ok_def enqueue_ok_def]
  obtain s1 s2 where p: "call (sto_put (dp_storage d) c ?key (up_data u)
      \<lparr>pm_key = ?key, pm_size = up_size u, pm_content_type = up_content_type u\<rparr>) s = (None, s1)"
    and n: "call (db_new (dp_db d) c ?doc) s1 = (None, s2)"
    and q: "call (q_enqueue (dp_queue d) c ?job) s2 = (None, s')"
    using assms(2) by (auto simp: ingest_steps_def Let_def split: option.splits prod.splits)
  have "vw_blobs v (st_world s1) ?key = Some (up_data u)" "vw_jobs v (st_world s1) = vw_jobs v (st_world s)"
    using ok call_world [OF p] by blast+
  moreover have "vw_blobs v (st_world s2) = vw_blobs v (st_world s1)"
    "vw_jobs v (st_world s2) = vw_jobs v (st_world s1)" "vw_docs v (st_world s2) (d_id ?doc) = Some ?doc"
    using ok call_world [OF n] by (metis fun_upd_same)+
  moreover have "vw_blobs v (st_world s') = vw_blobs v (st_world s2)"
    "vw_docs v (st_world s') = vw_docs v (st_world s2)"
    "vw_jobs v (st_world s') = vw_jobs v (st_world s2) @ [?job]"
    using ok call_world [OF q] by metis+
  ultimately show ?thesis
    by (simp add: ingested_def new_document_def)
qed

lemma ingest_steps_failed:
  assumes "backend_ok d v" "ingest_steps d c org store i u s = (Some msg, s')"
  shows "vw_jobs v (st_world s') = vw_jobs v (st_world s)"
proof -
  note ok = assms(1) [unfolded backend_ok_def put_ok_def new_ok_def enqueue_ok_def]
  from assms(2) show ?thesis
    unfolding ingest_steps_def Let_def using ok
    by (auto split: option.splits prod.splits dest!: call_world; metis option.distinct(1))
qed

interpretation pipeline: ingest_routine "ingest_steps d c" d v for d c v
  by unfold_locales (auto intro: ingest_steps_inv ingest_steps_done ingest_steps_failed)

subsection \<open>The REST endpoint\<close>

lemma fresh_unused:
  assumes "backend_ok d v" "call (dp_document_id d) s = (i, s1)"
  shows "unused_id d v i (st_world s1)" "vw_jobs v (st_world s1) = vw_jobs v (st_world s)"
    "pipeline_inv v (st_world s) \<Longrightarrow> pipeline_inv v (st_world s1)"
  using assms(1) call_world [OF assms(2)] unfolding backend_ok_def fresh_ok_def unused_id_def pipeline_inv_def
  by metis+

text \<open>The three ways the REST ingest handler ends.\<close>

lemma HandleIngestDocument_cases:
  assumes "HandleIngestDocument d w r s = (s', ops, oc)"
  obtains (no_org) "requireOrgID r = Inl ops" "s' = s"
  | (refused) org i where "requireOrgID r = Inr org" "call (dp_document_id d) s = (i, s')" "read_upload d r = Inl ops"
  | (ran) org i s1 u0 u res where "requireOrgID r = Inr org" "call (dp_document_id d) s = (i, s1)"
      "read_upload d r = Inr u0"
      "u = (if up_content_type u0 = [] then u0\<lparr>up_content_type := guessContentType (up_filename u0)\<rparr> else u0)"
      "ingest_steps d (r_ctx r) org (storeID r) i u s1 = (res, s')"
      "ops = (case res of Some msg \<Rightarrow> writeErr 500 msg
         | None \<Rightarrow> writeJSON 202 (Some (JMap [(''document_id'', JStr i), (''status'', JStr (dp_pending d))])))"
  using assms
  by (auto simp: HandleIngestDocument_def Let_def reply_def split: sum.splits prod.splits option.splits)

lemma status_upload_refused: "read_upload d r = Inl ops \<Longrightarrow> rs_status (respond ops) \<noteq> 202"
  by (auto simp: read_upload_def read_multipart_def read_json_upload_def Let_def status_writeErr body_allowed_def
      split: if_splits sum.splits option.splits)

text \<open>C2. The ingest endpoint, against stores that behave as documented: it keeps the invariant that
  every document row has its bytes stored and every job has its row, whichever of its three
  writes fails; when it answers 202, the row of a fresh document exists for the caller's
  organisation and store with the pending status, its source holds exactly the uploaded bytes,
  and one job for it has been queued; when it answers anything else, no job has been queued.\<close>

theorem ingest_is_consistent:
  assumes "backend_ok d v" "pipeline_inv v (st_world s)" "HandleIngestDocument d w r s = (s', ops, oc)"
  shows "pipeline_inv v (st_world s')
    \<and> (if rs_status (respond ops) = 202
       then \<exists>i u. ingested d v i (hget (r_header r) ''X-Vectorless-Org'') (storeID r) u (st_world s) (st_world s')
              \<and> (\<exists>u0. read_upload d r = Inr u0 \<and> up_data u = up_data u0 \<and> up_filename u = up_filename u0)
       else vw_jobs v (st_world s') = vw_jobs v (st_world s))"
  using assms(3)
proof (cases rule: HandleIngestDocument_cases)
  case no_org
  then show ?thesis using assms(2) by (simp add: requireOrgID_Inl status_writeErr body_allowed_def)
next
  case (refused org i)
  then show ?thesis
    using fresh_unused [OF assms(1) refused(2)] assms(2) status_upload_refused [OF refused(3)] by simp
next
  case (ran org i s1 u0 u res)
  note f = fresh_unused [OF assms(1) ran(2)]
  have inv: "pipeline_inv v (st_world s')"
    by (rule pipeline.run_inv [OF assms(1) ran(5) f(1)]) (rule f(3) [OF assms(2)])
  show ?thesis
  proof (cases res)
    case None
    have "ingested d v i org (storeID r) u (st_world s) (st_world s')"
      using pipeline.run_done [OF assms(1) ran(5) [unfolded None]] f(2) by (simp add: ingested_def)
    moreover have "rs_status (respond ops) = 202"
      using respond_writeJSON(1) [of 202] ran(6) None by (simp add: body_allowed_def)
    ultimately show ?thesis
      using inv ran(1,3,4) by (auto simp: requireOrgID_Inr intro!: exI [of _ i] exI [of _ u])
  next
    case (Some msg)
    then show ?thesis
      using inv pipeline.run_failed [OF assms(1) ran(5) [unfolded Some]] f(2) ran(6)
      by (simp add: status_writeErr body_allowed_def)
  qed
qed

subsection \<open>Stores in memory\<close>

record memory =
  me_blobs :: "string \<Rightarrow> string option"
  me_docs :: "(string \<times> document) list"
  me_jobs :: "job list"

text \<open>A fresh identifier is longer than everything that is there.\<close>

definition memory_id :: "memory \<Rightarrow> string" where
  "memory_id w = replicate (Suc (sum_list (map (\<lambda>(k, doc). length k + length (d_source_ref doc)) (me_docs w))))
     (CHR ''d'')"

definition memory_deps :: "memory deps" where
  "memory_deps = sample_deps\<lparr>
     dp_db := sample_db\<lparr>db_new := \<lambda>c doc w. (None, w\<lparr>me_docs := (d_id doc, doc) # me_docs w\<rparr>)\<rparr>,
     dp_storage := sample_storage\<lparr>sto_put := \<lambda>c key data meta w. (None, w\<lparr>me_blobs := (me_blobs w)(key \<mapsto> data)\<rparr>)\<rparr>,
     dp_queue := \<lparr>q_enqueue = (\<lambda>c j w. (None, w\<lparr>me_jobs := me_jobs w @ [j]\<rparr>)), q_qstash = None\<rparr>,
     dp_document_id := \<lambda>w. (memory_id w, w)\<rparr>"

definition memory_view :: "memory view" where
  "memory_view = \<lparr>vw_blobs = me_blobs, vw_docs = (\<lambda>w. map_of (me_docs w)), vw_jobs = me_jobs\<rparr>"

lemma memory_id_longer:
  "(k, doc) \<in> set (me_docs w) \<Longrightarrow> length k < length (memory_id w) \<and> length (d_source_ref doc) < length (memory_id w)"
  using member_le_sum_list [of "length k + length (d_source_ref doc)"
      "map (\<lambda>(k, doc). length k + length (d_source_ref doc)) (me_docs w)"]
  by (force simp: memory_id_def less_Suc_eq_le)

lemma memory_ok: "backend_ok memory_deps memory_view"
proof -
  have "put_ok memory_deps memory_view" "new_ok memory_deps memory_view" "enqueue_ok memory_deps memory_view"
    by (auto simp: put_ok_def new_ok_def enqueue_ok_def memory_deps_def memory_view_def)
  moreover have "map_of (me_docs w) (memory_id w) = None" for w
    using memory_id_longer [of "memory_id w" _ w] by (auto simp: map_of_eq_None_iff)
  moreover have "map_of (me_docs w) k = Some doc \<Longrightarrow> d_source_ref doc \<noteq> memory_id w @ t" for w k doc t
    using memory_id_longer [of k doc w] by (auto dest!: map_of_SomeD)
  ultimately show ?thesis
    by (simp add: backend_ok_def fresh_ok_def)
      (simp add: memory_deps_def memory_view_def sample_deps_def)
qed

definition empty_memory :: memory where
  "empty_memory = \<lparr>me_blobs = (\<lambda>_. None), me_docs = [], me_jobs = []\<rparr>"

definition json_upload_request :: request where
  "json_upload_request = sample_request ''POST'' ''/v1/documents''
     [(''X-Vectorless-Org'', ''org-a''), (''Content-Type'', ''application/json'')]
     (''{'' @ [CHR 0x22] @ ''content'' @ [CHR 0x22] @ '':'' @ [CHR 0x22] @ ''hi'' @ [CHR 0x22] @ ''}'')"

lemma json_upload_decoded:
  "decode_body (r_body json_upload_request) \<bind> decode_ingest =
     Some \<lparr>ir_filename = [], ir_content_type = [], ir_content = ''hi''\<rparr>"
  by code_simp

lemma json_upload_headers:
  "hget (r_header json_upload_request) ''X-Vectorless-Org'' = ''org-a''"
  "hget (r_header json_upload_request) ''Content-Type'' = ''application/json''"
  "requireOrgID json_upload_request = Inr ''org-a''"
proof -
  show "hget (r_header json_upload_request) ''X-Vectorless-Org'' = ''org-a''"
    and "hget (r_header json_upload_request) ''Content-Type'' = ''application/json''"
    by (simp_all add: json_upload_request_def sample_request_def hget_hset) code_simp
  then show "requireOrgID json_upload_request = Inr ''org-a''" by (simp add: requireOrgID_Inr)
qed

lemma json_upload_read:
  "read_upload d json_upload_request =
     Inr \<lparr>up_filename = [], up_content_type = [], up_data = ''hi'', up_size = 2\<rparr>"
  by (simp add: read_upload_def json_upload_headers has_prefix_def read_json_upload_def json_upload_decoded Let_def)

lemma ingest_is_consistent_witness:
  "\<exists>i u w'. ingested memory_deps memory_view i ''org-a'' (storeID json_upload_request) u empty_memory w'
     \<and> up_data u = ''hi'' \<and> pipeline_inv memory_view w'"
proof -
  let ?s = "sample_state_of empty_memory"
  have inv: "pipeline_inv memory_view (st_world ?s)"
    by (simp add: pipeline_inv_def memory_view_def empty_memory_def sample_state_of_def)
  obtain s' i where h: "HandleIngestDocument memory_deps plain_writer json_upload_request ?s =
      (s', writeJSON 202 (Some (JMap [(''document_id'', JStr i), (''status'', JStr ''pending'')])), Done)"
    by (simp add: HandleIngestDocument_def json_upload_headers(3) json_upload_read ingest_steps_def call_def
        memory_deps_def sample_deps_def reply_def Let_def)
  have "rs_status (respond (writeJSON 202 (Some (JMap [(''document_id'', JStr i), (''status'', JStr ''pending'')])))) = 202"
    by (rule respond_writeJSON) (simp_all add: body_allowed_def)
  then show ?thesis
    using ingest_is_consistent [OF memory_ok inv h]
    by (auto simp: json_upload_headers json_upload_read sample_state_of_def)
qed

end
