(* ===== verification/Rpc_Props.thy ===== *)
theory Rpc_Props
  imports Rpc_Query Rest_Props Pipeline
begin

text \<open>
  The RPC transport against the REST transport: the same engine calls, the same outcomes, and
  where the two differ. \<open>http_of_code\<close> is the HTTP status the Connect protocol documents for a
  code.
\<close>

definition http_of_code :: "rpc_code \<Rightarrow> int" where
  "http_of_code c =
     (case c of CodeInvalidArgument \<Rightarrow> 400 | CodeNotFound \<Rightarrow> 404 | CodeInternal \<Rightarrow> 500
      | CodeUnavailable \<Rightarrow> 503 | CodeUnimplemented \<Rightarrow> 501)"

definition http_status :: "int \<Rightarrow> (rpc_error, 'a) result \<Rightarrow> int" where
  "http_status ok res = (case res of Inr _ \<Rightarrow> ok | Inl err \<Rightarrow> http_of_code (rc_code err))"

text \<open>The same call over the two transports: the headers and the context are the same.\<close>

definition same_call :: "request \<Rightarrow> ctx \<Rightarrow> 'm rpc_request \<Rightarrow> bool" where
  "same_call r c req \<longleftrightarrow> r_header r = rq_header req \<and> r_ctx r = c"

named_theorems rpc_simps

lemma http_status_simps [rpc_simps]:
  "http_status ok (Inr x) = ok" "http_status ok (Inl (NewError code m)) = http_of_code code"
  "http_status ok (Inl (rpc_lookup_err err)) = (if ge_kind err = ErrNotFound then 404 else 500)"
  by (simp_all add: http_status_def NewError_def rpc_lookup_err_def isNotFound_def http_of_code_def)

lemma http_of_code_simps [rpc_simps]:
  "http_of_code CodeInvalidArgument = 400" "http_of_code CodeNotFound = 404" "http_of_code CodeInternal = 500"
  "http_of_code CodeUnavailable = 503" "http_of_code CodeUnimplemented = 501"
  by (simp_all add: http_of_code_def)

lemma status_error [rpc_simps]:
  "rs_status (respond (writeErr 400 m)) = 400" "rs_status (respond (writeErr 404 m)) = 404"
  "rs_status (respond (writeErr 500 m)) = 500" "rs_status (respond (writeErr 501 m)) = 501"
  "rs_status (respond (writeErr 503 m)) = 503"
  "rs_status (respond (lookup_err m err)) = (if ge_kind err = ErrNotFound then 404 else 500)"
  by (simp_all add: status_writeErr body_allowed_def lookup_err_def)

lemma status_ok [rpc_simps]:
  "rs_status (respond (writeJSON 200 j)) = 200" "rs_status (respond (writeJSON 202 j)) = 202"
  by (simp_all add: respond_writeJSON(1) body_allowed_def)

lemma status_deleted [rpc_simps]: "rs_status (respond [WriteHeader 204]) = 204"
  by code_simp

lemma same_org:
  "same_call r c req \<Longrightarrow>
     (\<exists>org. org \<noteq> [] \<and> requireOrgID r = Inr org \<and> orgIDFromConnect req = Inr org)
     \<or> (requireOrgID r = Inl (writeErr 400 ''missing X-Vectorless-Org header'')
         \<and> orgIDFromConnect req = Inl (NewError CodeInvalidArgument (Some ''missing X-Vectorless-Org header'')))"
  by (auto simp: same_call_def requireOrgID_def orgIDFromConnect_def Let_def)

lemma same_store: "same_call r c req \<Longrightarrow> storeIDFromConnect req = storeID r"
  by (simp add: same_call_def storeID_def storeIDFromConnect_def)

subsection \<open>Content types\<close>

lemma hasSuffix_eq: "hasSuffix s p = has_suffix s p"
  by (simp add: hasSuffix_def has_suffix_def)

lemma guess_lower: "guessContentType f = rpc_guessContentType (to_lower f)"
proof -
  have "has_suffix [] p \<longleftrightarrow> p = []" for p by (auto simp: has_suffix_def)
  then show ?thesis
    by (simp add: guessContentType_def rpc_guessContentType_def hasSuffix_eq Let_def)
qed

text \<open>The content type guessed for an upload without one: the REST guess is the RPC guess on the
  file name in lower case. The two agree on a name without upper-case letters, and differ on
  names such as README.MD, which only the REST transport recognises.\<close>

theorem content_type_guesses:
  "guessContentType f = rpc_guessContentType (to_lower f)
   \<and> guessContentType ''README.MD'' = ''text/markdown''
   \<and> rpc_guessContentType ''README.MD'' = octet_stream"
proof (intro conjI guess_lower)
  show "guessContentType ''README.MD'' = ''text/markdown''"
    "rpc_guessContentType ''README.MD'' = octet_stream"
    by code_simp+
qed

subsection \<open>Documents and sections\<close>

text \<open>
  The outcome of a REST handler against the outcome of an RPC method: the same state of the
  server, the status that stands for the code, and on success a response that shows the same
  data (\<open>shows\<close> relates the RPC message and the REST response).
\<close>

definition agrees ::
  "int \<Rightarrow> ('a \<Rightarrow> wop list \<Rightarrow> bool) \<Rightarrow> 'w outcome3 \<Rightarrow> (rpc_error, 'a) result \<times> 'w st \<Rightarrow> bool" where
  "agrees ok shows rest rpc \<longleftrightarrow>
     (case (rest, rpc) of ((s1, ops, oc), (res, s2)) \<Rightarrow>
        s1 = s2 \<and> oc = Done \<and> rs_status (respond ops) = http_status ok res
        \<and> (case res of Inl _ \<Rightarrow> True | Inr m \<Rightarrow> shows m ops))"

definition shows_tree :: "'w deps \<Rightarrow> DocumentTree \<Rightarrow> wop list \<Rightarrow> bool" where
  "shows_tree d m ops \<longleftrightarrow>
     (\<exists>v. ops = writeJSON 200 (Some (dp_view_json d v)) \<and> pt_document m = tv_document v
        \<and> pt_title m = tv_title v \<and> pt_sections m = map viewToProto (tv_sections v))"

definition shows_section :: "ProtoSection \<Rightarrow> wop list \<Rightarrow> bool" where
  "shows_section m ops \<longleftrightarrow>
     (\<exists>sec. ops = writeJSON 200 (Some (section_response sec (ps_content m)))
        \<and> ps_id m = s_id sec \<and> ps_document m = s_document sec \<and> ps_parent m = s_parent sec
        \<and> ps_title m = s_title sec \<and> ps_summary m = s_summary sec \<and> ps_metadata m = s_metadata sec
        \<and> ps_ordinal m = wrap32 (s_ordinal sec) \<and> ps_depth m = wrap32 (s_depth sec)
        \<and> ps_token_count m = wrap32 (s_token_count sec))"

definition shows_list :: "ListDocumentsResponse \<Rightarrow> wop list \<Rightarrow> bool" where
  "shows_list m ops \<longleftrightarrow>
     (\<exists>docs t. ops = writeJSON 200 (list_response docs t) \<and> ldp_documents m = map docToProto docs
        \<and> ldp_next_cursor m = (if time_is_zero t then [] else format_time t))"

lemma agrees_error [rpc_simps]:
  "agrees ok shows (s1, ops, oc) (Inl err, s2) \<longleftrightarrow>
     s1 = s2 \<and> oc = Done \<and> rs_status (respond ops) = http_of_code (rc_code err)"
  by (simp add: agrees_def http_status_def)

lemma agrees_ok [rpc_simps]:
  "agrees ok shows (s1, ops, oc) (Inr m, s2) \<longleftrightarrow>
     s1 = s2 \<and> oc = Done \<and> rs_status (respond ops) = ok \<and> shows m ops"
  by (simp add: agrees_def http_status_def)

lemma codes [rpc_simps]:
  "rc_code (NewError code m) = code"
  "rc_code (rpc_lookup_err err) = (if ge_kind err = ErrNotFound then CodeNotFound else CodeInternal)"
  by (simp_all add: NewError_def rpc_lookup_err_def isNotFound_def)

lemma list_opts_agree:
  assumes "same_call r c req" "r_query r ''cursor'' = ldq_cursor (rq_msg req)"
    and "r_query r ''status'' = ldq_status (rq_msg req)"
    and "(case atoi (r_query r ''limit'') of Some n \<Rightarrow> n | None \<Rightarrow> 0) = ldq_limit (rq_msg req)"
  shows "rpc_list_opts req org = list_opts_of r org"
proof -
  have "atoi [] = None" by code_simp
  then show ?thesis
    using assms(2-) same_store [OF assms(1)] by (auto simp: rpc_list_opts_def list_opts_of_def Let_def)
qed

text \<open>C33. The document services of the two transports do the same thing: for the same tenant and
  identifier, deletion, the tree view, a section and the listing make the same engine calls
  (the server is left in the same state), succeed or fail together with the status that stands
  for the RPC code, and show the same data, the numbers of the RPC messages being narrowed to
  32 bits.\<close>

theorem document_services_agree:
  assumes "same_call r c req" "same_call r c reqS" "same_call r c reqL"
    and "r_params r ''id'' = dq_document (rq_msg req)" "r_params r ''id'' = sq_section (rq_msg reqS)"
    and "r_query r ''cursor'' = ldq_cursor (rq_msg reqL)" "r_query r ''status'' = ldq_status (rq_msg reqL)"
    and "(case atoi (r_query r ''limit'') of Some n \<Rightarrow> n | None \<Rightarrow> 0) = ldq_limit (rq_msg reqL)"
  shows "agrees 204 (\<lambda>_ ops. ops = [WriteHeader 204]) (HandleDeleteDocument d w r s) (DeleteDocument d c req s)
    \<and> agrees 200 (shows_tree d) (HandleGetTree d w r s) (GetDocumentTree d c req s)
    \<and> agrees 200 shows_section (HandleGetSection d w r s) (GetSection d c reqS s)
    \<and> agrees 200 shows_list (HandleListDocuments d w r s) (ListDocuments d c reqL s)"
proof -
  note D = same_store [OF assms(1)] same_store [OF assms(2)] same_store [OF assms(3)]
    list_opts_agree [OF assms(3,6-8)]
  have c: "r_ctx r = c" using assms(1) by (simp add: same_call_def)
  show ?thesis
  proof (cases "hget (r_header r) ''X-Vectorless-Org'' = []")
    case True
    with assms(1-3) show ?thesis
      by (simp add: HandleDeleteDocument_def DeleteDocument_def HandleGetTree_def GetDocumentTree_def
          HandleGetSection_def GetSection_def HandleListDocuments_def ListDocuments_def
          requireOrgID_def orgIDFromConnect_def same_call_def reply_def rpc_simps)
  next
    case False
    then obtain org where org: "requireOrgID r = Inr org" "orgIDFromConnect req = Inr org"
      "orgIDFromConnect reqS = Inr org" "orgIDFromConnect reqL = Inr org"
      using assms(1-3) by (simp add: requireOrgID_def orgIDFromConnect_def same_call_def)
    have "agrees 204 (\<lambda>_ ops. ops = [WriteHeader 204]) (HandleDeleteDocument d w r s) (DeleteDocument d c req s)"
      by (auto simp: HandleDeleteDocument_def DeleteDocument_def org D assms(4) c reply_def rpc_simps
          split: prod.splits option.splits)
    moreover have "agrees 200 (shows_tree d) (HandleGetTree d w r s) (GetDocumentTree d c req s)"
      by (auto simp: HandleGetTree_def GetDocumentTree_def org D assms(4) c reply_def rpc_simps Let_def shows_tree_def
          split: prod.splits sum.splits)
    moreover have "agrees 200 shows_section (HandleGetSection d w r s) (GetSection d c reqS s)"
      by (auto simp: HandleGetSection_def GetSection_def org D assms(5) c reply_def rpc_simps shows_section_def
          split: prod.splits sum.splits)
    moreover have "agrees 200 shows_list (HandleListDocuments d w r s) (ListDocuments d c reqL s)"
      by (auto simp: HandleListDocuments_def ListDocuments_def org D c reply_def rpc_simps shows_list_def
          split: prod.splits sum.splits)
    ultimately show ?thesis by blast
  qed
qed


text \<open>A REST request and the RPC requests that ask the same.\<close>

definition get_request :: request where
  "get_request = (sample_request ''GET'' ''/v1/documents/doc-1'' [(''X-Vectorless-Org'', ''org-a'')] [])
     \<lparr>r_params := \<lambda>n. ''doc-1'', r_query := \<lambda>n. []\<rparr>"

definition rpc_get :: "'m \<Rightarrow> 'm rpc_request" where
  "rpc_get m = \<lparr>rq_header = r_header get_request, rq_msg = m\<rparr>"

lemma same_call_get: "same_call get_request (r_ctx get_request) (rpc_get m)"
  by (simp add: same_call_def rpc_get_def)

lemma get_request_fields [simp]:
  "r_params get_request n = ''doc-1''" "r_query get_request n = []" "rq_msg (rpc_get m) = m"
  by (simp_all add: get_request_def rpc_get_def)

lemma document_services_agree_witness:
  "agrees 200 (shows_tree (sample_deps :: int deps)) (HandleGetTree sample_deps plain_writer get_request sample_state)
     (GetDocumentTree sample_deps (r_ctx get_request) (rpc_get \<lparr>dq_document = ''doc-1''\<rparr>) sample_state)"
proof -
  have limit: "(case atoi (r_query get_request ''limit'') of Some n \<Rightarrow> n | None \<Rightarrow> 0)
      = ldq_limit (rq_msg (rpc_get \<lparr>ldq_limit = 0, ldq_cursor = [], ldq_status = []\<rparr>))"
    by simp code_simp
  show ?thesis
    using document_services_agree [OF same_call_get same_call_get same_call_get _ _ _ _ limit,
        of "\<lparr>dq_document = ''doc-1''\<rparr>" "\<lparr>sq_section = ''doc-1''\<rparr>" sample_deps plain_writer sample_state]
    by simp
qed

subsection \<open>Ingest\<close>

text \<open>
  The two transports have a copy each of the three writes. They do the same: the same bytes under
  the same key, the same row, the same job, in the same order, with the same messages.
\<close>

lemma rpc_ingest_steps_agree:
  assumes "up_filename u = cdq_filename (rq_msg req)" "up_data u = cdq_content (rq_msg req)"
    and "up_size u = int (length (cdq_content (rq_msg req)))"
  shows "rpc_ingest_steps d c req org i (up_content_type u) s =
    (case ingest_steps d c org (storeIDFromConnect req) i u s of
       (Some err, s') \<Rightarrow> (Inl (NewError CodeInternal (Some err)), s')
     | (None, s') \<Rightarrow> (Inr \<lparr>cdp_document = i, cdp_status = dp_pending d\<rparr>, s'))"
  using assms
  by (auto simp: rpc_ingest_steps_def ingest_steps_def new_document_def ingest_job_def bytesReader_def Let_def
      split: prod.splits option.splits)

lemma CreateDocument_unfold:
  assumes "orgIDFromConnect req = Inr org" "cdq_content (rq_msg req) \<noteq> []"
    and "call (dp_document_id d) s = (i, s1)"
  shows "CreateDocument d c req s =
    (case ingest_steps d c org (storeIDFromConnect req) i
        \<lparr>up_filename = cdq_filename (rq_msg req),
         up_content_type = (if cdq_content_type (rq_msg req) = [] then rpc_guessContentType (cdq_filename (rq_msg req))
            else cdq_content_type (rq_msg req)),
         up_data = cdq_content (rq_msg req), up_size = int (length (cdq_content (rq_msg req)))\<rparr> s1 of
       (Some err, s2) \<Rightarrow> (Inl (NewError CodeInternal (Some err)), s2)
     | (None, s2) \<Rightarrow> (Inr \<lparr>cdp_document = i, cdp_status = dp_pending d\<rparr>, s2))"
proof -
  let ?u = "\<lparr>up_filename = cdq_filename (rq_msg req),
         up_content_type = (if cdq_content_type (rq_msg req) = [] then rpc_guessContentType (cdq_filename (rq_msg req))
            else cdq_content_type (rq_msg req)),
         up_data = cdq_content (rq_msg req), up_size = int (length (cdq_content (rq_msg req)))\<rparr>"
  have "CreateDocument d c req s = rpc_ingest_steps d c req org i (up_content_type ?u) s1"
    using assms by (simp add: CreateDocument_def Let_def)
  also have "\<dots> = (case ingest_steps d c org (storeIDFromConnect req) i ?u s1 of
       (Some err, s2) \<Rightarrow> (Inl (NewError CodeInternal (Some err)), s2)
     | (None, s2) \<Rightarrow> (Inr \<lparr>cdp_document = i, cdp_status = dp_pending d\<rparr>, s2))"
    by (rule rpc_ingest_steps_agree) simp_all
  finally show ?thesis .
qed



definition upload_call :: "CreateDocumentRequest rpc_request" where
  "upload_call = \<lparr>rq_header = r_header json_upload_request,
     rq_msg = \<lparr>cdq_content = ''hi'', cdq_filename = [], cdq_content_type = [], cdq_metadata = None\<rparr>\<rparr>"

lemma upload_call_same: "same_call json_upload_request (r_ctx json_upload_request) upload_call"
  by (simp add: same_call_def upload_call_def)


text \<open>C35. Ingest over RPC against stores that behave as documented: it keeps the invariant that every
  document row has its bytes stored and every job has its row; when it returns a document, its
  row exists for the caller's tenant with the bytes of the request and one job for it is
  queued; when it returns an error, no job has been queued.\<close>

theorem rpc_ingest_is_consistent:
  assumes "backend_ok d v" "pipeline_inv v (st_world s)" "CreateDocument d c req s = (res, s')"
  shows "pipeline_inv v (st_world s')
    \<and> (case res of
         Inr p \<Rightarrow> \<exists>u. ingested d v (cdp_document p) (hget (rq_header req) ''X-Vectorless-Org'')
             (storeIDFromConnect req) u (st_world s) (st_world s')
           \<and> up_data u = cdq_content (rq_msg req) \<and> up_data u \<noteq> [] \<and> up_filename u = cdq_filename (rq_msg req)
       | Inl err \<Rightarrow> vw_jobs v (st_world s') = vw_jobs v (st_world s))"
proof (cases "orgIDFromConnect req")
  case (Inl err)
  then show ?thesis using assms(2,3) by (auto simp: CreateDocument_def)
next
  case (Inr org)
  then have org: "hget (rq_header req) ''X-Vectorless-Org'' = org"
    by (auto simp: orgIDFromConnect_def Let_def split: if_splits)
  show ?thesis
  proof (cases "cdq_content (rq_msg req) = []")
    case True
    then show ?thesis using assms(2,3) Inr by (auto simp: CreateDocument_def Let_def)
  next
    case False
    obtain i s1 where i: "call (dp_document_id d) s = (i, s1)" by force
    note f = fresh_unused [OF assms(1) i]
    define u where "u = \<lparr>up_filename = cdq_filename (rq_msg req),
         up_content_type = (if cdq_content_type (rq_msg req) = [] then rpc_guessContentType (cdq_filename (rq_msg req))
            else cdq_content_type (rq_msg req)),
         up_data = cdq_content (rq_msg req), up_size = int (length (cdq_content (rq_msg req)))\<rparr>"
    obtain r where run: "ingest_steps d c org (storeIDFromConnect req) i u s1 = (r, s')"
      and res: "res = (case r of Some err \<Rightarrow> Inl (NewError CodeInternal (Some err))
         | None \<Rightarrow> Inr \<lparr>cdp_document = i, cdp_status = dp_pending d\<rparr>)"
      using assms(3) CreateDocument_unfold [OF Inr False i, of c]
      by (auto simp: u_def split: prod.splits option.splits)
    have inv: "pipeline_inv v (st_world s')"
      by (rule pipeline.run_inv [OF assms(1) run f(1)]) (rule f(3) [OF assms(2)])
    show ?thesis
    proof (cases r)
      case None
      then show ?thesis
        using inv pipeline.run_done [OF assms(1) run [unfolded None]] f(2) res False
        by (auto simp: ingested_def org u_def intro!: exI [of _ u])
    next
      case (Some err)
      then show ?thesis using inv pipeline.run_failed [OF assms(1) run [unfolded Some]] f(2) res by simp
    qed
  qed
qed

lemma rpc_ingest_is_consistent_witness:
  "\<exists>p s'. CreateDocument memory_deps (r_ctx json_upload_request) upload_call (sample_state_of empty_memory) = (Inr p, s')
     \<and> pipeline_inv memory_view (st_world s') \<and> length (me_jobs (st_world s')) = 1"
proof -
  let ?s = "sample_state_of empty_memory" and ?c = "r_ctx json_upload_request"
  have inv: "pipeline_inv memory_view (st_world ?s)"
    by (simp add: pipeline_inv_def memory_view_def empty_memory_def sample_state_of_def)
  have org: "orgIDFromConnect upload_call = Inr ''org-a''"
    by (simp add: orgIDFromConnect_def upload_call_def json_upload_headers)
  have msg: "rq_msg upload_call = \<lparr>cdq_content = ''hi'', cdq_filename = [], cdq_content_type = [], cdq_metadata = None\<rparr>"
    by (simp add: upload_call_def)
  obtain p s' where run: "CreateDocument memory_deps ?c upload_call ?s = (Inr p, s')"
    by (simp add: CreateDocument_def org msg rpc_ingest_steps_def call_def memory_deps_def sample_deps_def Let_def)
  show ?thesis
    using rpc_ingest_is_consistent [OF memory_ok inv run] run
    by (auto simp: ingested_def memory_view_def sample_state_of_def empty_memory_def)
qed

end
