(* ===== verification/Rpc_Contracts.thy ===== *)
theory Rpc_Contracts
  imports Rpc_Props Rest_Contracts
begin

text \<open>
  The query service and the streams of the RPC transport: agreement with the REST queries, what
  a source stream delivers, the in-memory reader, the order of the messages of a stream, and
  tenant isolation.
\<close>

subsection \<open>Queries\<close>

text \<open>A REST query and an RPC query that ask the same.\<close>

definition same_query :: "query_request \<Rightarrow> QueryRequest \<Rightarrow> bool" where
  "same_query q m \<longleftrightarrow> pq_document m = qr_document q \<and> pq_query m = qr_query q \<and> pq_model m = qr_model q
     \<and> pq_max_tokens m = qr_max_tokens q \<and> pq_reserved m = qr_reserved q \<and> pq_parallel m = qr_parallel q
     \<and> pq_max_sections m = qr_max_sections q"

definition same_multi :: "multi_request \<Rightarrow> QueryMultiRequest \<Rightarrow> bool" where
  "same_multi q m \<longleftrightarrow> pqm_documents m = fst (qm_documents q) \<and> pqm_query m = qm_query q \<and> pqm_model m = qm_model q
     \<and> pqm_max_tokens m = qm_max_tokens q \<and> pqm_reserved m = qm_reserved q \<and> pqm_parallel m = qm_parallel q
     \<and> pqm_max_sections m = qm_max_sections q"

definition shows_query :: "'w deps \<Rightarrow> query_request \<Rightarrow> QueryResponse \<Rightarrow> wop list \<Rightarrow> bool" where
  "shows_query d q m ops \<longleftrightarrow>
     (\<exists>secs. pr_sections m = map sectionToProto secs \<and> pr_document m = qr_document q \<and> pr_query m = qr_query q
        \<and> pr_model m = qr_model q
        \<and> ops = writeJSON 200 (Some (query_response d q (pr_strategy m) secs (pr_elapsed m) None)))"

lemma query_body_Inr: "query_body d r = Inr q \<Longrightarrow> qr_document q \<noteq> [] \<and> qr_query q \<noteq> []"
  by (auto simp: query_body_def split: option.splits if_splits)

lemma multi_body_Inr: "multi_body d r = Inr q \<Longrightarrow> fst (qm_documents q) \<noteq> [] \<and> qm_query q \<noteq> []"
  by (auto simp: multi_body_def split: option.splits if_splits)

text \<open>C14. A query over the two transports: with a strategy that reports no cost, a REST query that
  decodes and the same query over RPC make the same engine calls in the same order, fail
  together with the status that stands for the code, and show the same sections with the
  same contents and the same elapsed time.\<close>

theorem query_agrees:
  assumes "same_call r c req" "query_body d r = Inr q" "same_query q (rq_msg req)"
    and "\<And>sg. dp_strategy d = Some sg \<Longrightarrow> sg_cost sg = None"
  shows "agrees 200 (shows_query d q) (HandleQuery e d w r s) (Query e d c req s)"
proof (cases "hget (r_header r) ''X-Vectorless-Org'' = []")
  case True
  with assms(1) show ?thesis
    by (simp add: HandleQuery_def Query_def requireOrgID_def orgIDFromConnect_def same_call_def reply_def rpc_simps)
next
  case False
  then obtain org where org: "requireOrgID r = Inr org" "orgIDFromConnect req = Inr org"
    using assms(1) by (simp add: requireOrgID_def orgIDFromConnect_def same_call_def)
  note body = query_body_Inr [OF assms(2)]
  note eqs = org assms(2) body same_store [OF assms(1)] assms(3) [unfolded same_query_def]
    assms(1) [unfolded same_call_def]
  show ?thesis
  proof (cases "dp_strategy d")
    case None
    then show ?thesis by (simp add: HandleQuery_def Query_def eqs rpc_copies reply_def rpc_simps Let_def)
  next
    case (Some sg)
    with assms(4) have "sg_cost sg = None" by blast
    with Some show ?thesis
      by (auto simp: HandleQuery_def Query_def eqs rpc_copies reply_def rpc_simps Let_def run_strategy_def shows_query_def
          split: prod.splits sum.splits)
  qed
qed


definition query_call :: "QueryRequest rpc_request" where
  "query_call = \<lparr>rq_header = r_header query_post,
     rq_msg = \<lparr>pq_document = ''doc-1'', pq_query = ''why'', pq_model = [], pq_max_tokens = 0, pq_reserved = 0,
       pq_parallel = 0, pq_max_sections = 0\<rparr>\<rparr>"

lemma query_agrees_witness:
  "agrees 200 (shows_query (sample_deps :: int deps) \<lparr>qr_document = ''doc-1'', qr_query = ''why'', qr_model = [],
       qr_max_tokens = 0, qr_reserved = 0, qr_parallel = 0, qr_max_sections = 0\<rparr>)
     (HandleQuery sample_env sample_deps plain_writer query_post sample_state)
     (Query sample_env sample_deps (r_ctx query_post) query_call sample_state)"
proof (rule query_agrees [of query_post "r_ctx query_post" query_call "sample_deps :: int deps"])
  show "same_call query_post (r_ctx query_post) query_call"
    by (simp add: same_call_def query_call_def)
  show "query_body (sample_deps :: int deps) query_post = Inr \<lparr>qr_document = ''doc-1'', qr_query = ''why'', qr_model = [],
      qr_max_tokens = 0, qr_reserved = 0, qr_parallel = 0, qr_max_sections = 0\<rparr>"
    by (simp add: query_body_def query_post_decoded)
qed (simp_all add: same_query_def query_call_def sample_deps_def sample_strategy_def)

definition shows_multi :: "'w deps \<Rightarrow> multi_request \<Rightarrow> QueryMultiResponse \<Rightarrow> wop list \<Rightarrow> bool" where
  "shows_multi d q m ops \<longleftrightarrow>
     (\<exists>docs res. ops = writeJSON 200 (Some (multi_response d q (pmr_strategy m) res docs (pmr_elapsed m)))
        \<and> pmr_documents m = map (\<lambda>(i, secs, u). \<lparr>dqr_document = i, dqr_sections = map sectionToProto secs,
             dqr_usage = usageToProto u\<rparr>) docs
        \<and> pmr_errors m = map (\<lambda>(i, err). (i, ge_msg err)) (mr_errors res)
        \<and> pmr_total m = usageToProto (mr_total res) \<and> pmr_query m = qm_query q \<and> pmr_model m = qm_model q)"

lemma shows_multiI:
  "shows_multi d q \<lparr>pmr_query = qm_query q, pmr_strategy = name, pmr_model = qm_model q,
      pmr_documents = map (\<lambda>(i, secs, u). \<lparr>dqr_document = i, dqr_sections = map sectionToProto secs,
        dqr_usage = usageToProto u\<rparr>) docs,
      pmr_errors = map (\<lambda>(i, err). (i, ge_msg err)) (mr_errors res),
      pmr_elapsed = ms, pmr_total = usageToProto (mr_total res)\<rparr>
    (writeJSON 200 (Some (multi_response d q name res docs ms)))"
  unfolding shows_multi_def by (intro exI [of _ docs] exI [of _ res]) simp

text \<open>C34. A multi-document query over the two transports makes the same engine calls in the same order,
  fails together with the status that stands for the code, and shows the same sections, errors
  and usage of the same documents; and where one transport crashes for want of a strategy, so
  does the other.\<close>

theorem multi_query_agrees:
  assumes "same_call r c req" "multi_body d r = Inr q" "same_multi q (rq_msg req)"
    and "QueryMulti e d c req s = (res, s2)"
  shows "(case res of
      Some m \<Rightarrow> agrees 200 (shows_multi d q) (HandleQueryMulti e d w r s) (m, s2)
    | None \<Rightarrow> HandleQueryMulti e d w r s = (s2, [], Panicked) \<and> dp_strategy d = None)"
proof (cases "hget (r_header r) ''X-Vectorless-Org'' = []")
  case True
  with assms(1,4) show ?thesis
    by (auto simp: HandleQueryMulti_def QueryMulti_def requireOrgID_def orgIDFromConnect_def same_call_def
        reply_def rpc_simps)
next
  case False
  then obtain org where org: "requireOrgID r = Inr org" "orgIDFromConnect req = Inr org"
    using assms(1) by (simp add: requireOrgID_def orgIDFromConnect_def same_call_def)
  note eqs = org assms(2) multi_body_Inr [OF assms(2)] same_store [OF assms(1)] assms(3) [unfolded same_multi_def]
    assms(1) [unfolded same_call_def]
  show ?thesis
  proof (cases "dp_multi d")
    case None
    with assms(4) show ?thesis by (auto simp: HandleQueryMulti_def QueryMulti_def eqs rpc_copies reply_def rpc_simps Let_def)
  next
    case (Some md)
    with assms(4) show ?thesis
      by (auto simp: HandleQueryMulti_def QueryMulti_def eqs rpc_copies reply_def rpc_simps Let_def shows_multiI
          split: prod.splits sum.splits option.splits)
  qed
qed


definition sample_multi :: "'w multi_doc" where
  "sample_multi = \<lparr>md_query = (\<lambda>c org store ids q b w.
       (Inr \<lparr>mr_documents = map (\<lambda>i. (i, \<lparr>dr_tree = sample_tree, dr_selected = [''s1''], dr_usage = sample_usage\<rparr>)) ids,
             mr_errors = [], mr_total = sample_usage\<rparr>, w)),
     md_stream = (\<lambda>c org store ids q b w. ([], w))\<rparr>"

definition multi_deps :: "'w deps" where
  "multi_deps = sample_deps\<lparr>dp_multi := Some sample_multi\<rparr>"

definition multi_post :: request where
  "multi_post = sample_request ''POST'' ''/v1/query/multi'' [(''X-Vectorless-Org'', ''org-a'')]
     (let q = [CHR 0x22] in ''{'' @ q @ ''document_ids'' @ q @ '':['' @ q @ ''doc-1'' @ q @ ''],'' @
        q @ ''query'' @ q @ '':'' @ q @ ''why'' @ q @ ''}'')"

definition multi_asked :: multi_request where
  "multi_asked = \<lparr>qm_documents = ([''doc-1''], [''doc-1'']), qm_query = ''why'', qm_model = [], qm_max_tokens = 0,
     qm_reserved = 0, qm_parallel = 0, qm_max_sections = 0\<rparr>"

lemma multi_post_decoded: "decode_body (r_body multi_post) \<bind> decode_multi = Some multi_asked"
  by code_simp


definition multi_call :: "QueryMultiRequest rpc_request" where
  "multi_call = \<lparr>rq_header = r_header multi_post,
     rq_msg = \<lparr>pqm_documents = [''doc-1''], pqm_query = ''why'', pqm_model = [], pqm_max_tokens = 0,
       pqm_reserved = 0, pqm_parallel = 0, pqm_max_sections = 0\<rparr>\<rparr>"

lemma multi_query_agrees_witness:
  "agrees 200 (shows_multi (multi_deps :: int deps) multi_asked)
     (HandleQueryMulti sample_env multi_deps plain_writer multi_post sample_state)
     (the (fst (QueryMulti sample_env multi_deps (r_ctx multi_post) multi_call sample_state)),
      snd (QueryMulti sample_env multi_deps (r_ctx multi_post) multi_call sample_state))"
proof -
  obtain res s2 where run: "QueryMulti sample_env multi_deps (r_ctx multi_post) multi_call sample_state = (res, s2)"
    by force
  have same: "same_call multi_post (r_ctx multi_post) multi_call" "same_multi multi_asked (rq_msg multi_call)"
    by (simp_all add: same_call_def multi_call_def same_multi_def multi_asked_def)
  have body: "multi_body multi_deps multi_post = Inr multi_asked"
    by (simp add: multi_body_def multi_post_decoded) (simp add: multi_asked_def)
  have "dp_strategy (multi_deps :: int deps) \<noteq> None" by (simp add: multi_deps_def sample_deps_def)
  then show ?thesis
    using multi_query_agrees [OF same(1) body same(2) run, of plain_writer] run by (auto split: option.splits)
qed

subsection \<open>The source stream\<close>

text \<open>
  The documented contract of a reader on a finite blob: it hands out exactly the bytes of the
  blob, at most as many per read as the buffer holds.
\<close>

definition reader_ok :: "(nat \<Rightarrow> blob \<Rightarrow> reads) \<Rightarrow> bool" where
  "reader_ok reads \<longleftrightarrow>
     (\<forall>n b. 0 < n \<longrightarrow> concat (fst (reads n b)) @ snd (reads n b) = bl_data b
        \<and> (\<forall>x \<in> set (snd (reads n b) # fst (reads n b)). length x \<le> n))"

lemma send_chunk_cases:
  assumes "send_chunk send chunk s = (sent, res, s1)"
  shows "concat sent = chunk \<and> (\<forall>x \<in> set sent. x = chunk \<and> x \<noteq> [])"
  using assms by (auto simp: send_chunk_def split: if_splits prod.splits option.splits)

lemma source_loop_sends:
  assumes "source_loop send err chunks final s = (sent, res, s1)"
  shows "(\<exists>rest. concat sent @ rest = concat chunks @ final)
    \<and> (\<forall>x \<in> set sent. x \<noteq> [] \<and> x \<in> set (final # chunks))
    \<and> (res = None \<longrightarrow> err = None \<and> concat sent = concat chunks @ final)"
  using assms
proof (induction send err chunks final s arbitrary: sent res s1 rule: source_loop.induct)
  case (1 send err final s)
  then show ?case
    by (auto split: prod.splits option.splits dest!: send_chunk_cases)
next
  case (2 send err chunk chunks final s)
  obtain sent1 r1 s' where c: "send_chunk send chunk s = (sent1, r1, s')" by (metis prod_cases3)
  note sc = send_chunk_cases [OF c]
  show ?case
  proof (cases r1)
    case (Some e)
    with 2(2) c sc show ?thesis by auto
  next
    case None
    obtain sent2 r2 s2 where l: "source_loop send err chunks final s' = (sent2, r2, s2)" by (metis prod_cases3)
    with 2(2) c None have "sent = sent1 @ sent2" "res = r2" by auto
    then show ?thesis using 2(1) [OF c [symmetric] refl None l] sc by auto
  qed
qed

text \<open>C15. The source stream over RPC, for a storage reader that behaves as documented and any
  client connection: every message carries between one byte and 32 KiB; together the messages
  are a prefix of the stored source; and a stream that ends without an error has delivered the
  whole source of the caller's document, whose read did not fail.\<close>

theorem source_stream_delivers:
  assumes "reader_ok reads" "GetDocumentSource d reads send c req s = (sent, res, s')"
  shows "list_all (\<lambda>x. 1 \<le> length x \<and> length x \<le> 32768) sent
    \<and> (sent = [] \<and> res \<noteq> None
       \<or> (\<exists>doc b s1 s2. call (db_get (dp_db d) c (dq_document (rq_msg req))
              (hget (rq_header req) ''X-Vectorless-Org'') (storeIDFromConnect req)) s = (Inr doc, s1)
            \<and> call (sto_get (dp_storage d) c (d_source_ref doc)) s1 = (Inr b, s2)
            \<and> (\<exists>rest. concat sent @ rest = bl_data b)
            \<and> (res = None \<longrightarrow> concat sent = bl_data b \<and> bl_error b = None)))"
proof -
  from assms(2) consider (refused) "sent = []" "res \<noteq> None"
    | (ran) doc b s1 s2 chunks final where
        "call (db_get (dp_db d) c (dq_document (rq_msg req))
           (hget (rq_header req) ''X-Vectorless-Org'') (storeIDFromConnect req)) s = (Inr doc, s1)"
        "call (sto_get (dp_storage d) c (d_source_ref doc)) s1 = (Inr b, s2)"
        "reads chunk_size b = (chunks, final)" "source_loop send (bl_error b) chunks final s2 = (sent, res, s')"
    by (auto simp: GetDocumentSource_def orgIDFromConnect_def Let_def split: sum.splits prod.splits if_splits)
  then show ?thesis
  proof cases
    case refused
    then show ?thesis by simp
  next
    case ran
    note l = source_loop_sends [OF ran(4)]
    have r: "concat chunks @ final = bl_data b" "\<forall>x \<in> set (final # chunks). length x \<le> 32768"
      using reader_ok_def [THEN iffD1, OF assms(1), rule_format, of chunk_size b] ran(3)
      by (simp_all add: chunk_size_def)
    have "list_all (\<lambda>x. 1 \<le> length x \<and> length x \<le> 32768) sent"
      using l r(2) by (fastforce simp: list_all_iff Suc_le_eq)
    moreover have "\<exists>rest. concat sent @ rest = bl_data b"
      "res = None \<longrightarrow> concat sent = bl_data b \<and> bl_error b = None"
      using l r(1) by simp_all
    ultimately show ?thesis using ran(1,2) by blast
  qed
qed


text \<open>A reader that hands out one byte per read, and a connection that takes every message.\<close>

definition byte_reads :: "nat \<Rightarrow> blob \<Rightarrow> reads" where
  "byte_reads n b = (map (\<lambda>x. [x]) (bl_data b), [])"

lemma source_stream_delivers_witness:
  "fst (GetDocumentSource sample_deps byte_reads (\<lambda>x w. (None, w)) (r_ctx get_request)
      (rpc_get \<lparr>dq_document = ''doc-1''\<rparr>) sample_state) = [''h'', ''e'', ''l'', ''l'', ''o'']
   \<and> list_all (\<lambda>x. 1 \<le> length x \<and> length x \<le> 32768)
      (fst (GetDocumentSource sample_deps byte_reads (\<lambda>x w. (None, w)) (r_ctx get_request)
      (rpc_get \<lparr>dq_document = ''doc-1''\<rparr>) sample_state))"
proof -
  let ?run = "GetDocumentSource sample_deps byte_reads (\<lambda>x w. (None, w)) (r_ctx get_request)
      (rpc_get \<lparr>dq_document = ''doc-1''\<rparr>) sample_state"
  have ok: "reader_ok byte_reads"
    by (auto simp: reader_ok_def byte_reads_def)
  have org: "orgIDFromConnect (rpc_get m) = Inr ''org-a''" for m :: "DocumentIdRequest"
    by (simp add: orgIDFromConnect_def rpc_get_def get_request_def sample_request_def hget_hset)
  obtain sent res s' where run: "?run = (sent, res, s')" by (metis prod_cases3)
  have "fst ?run = [''h'', ''e'', ''l'', ''l'', ''o'']"
    by (simp add: GetDocumentSource_def org sample_deps_def sample_db_def sample_storage_def call_def
        sample_document_def byte_reads_def send_chunk_def)
  then show ?thesis using source_stream_delivers [OF ok run] run by simp
qed

subsection \<open>The in-memory reader\<close>

text \<open>Reading with a buffer of \<open>n\<close> bytes until the end; \<open>None\<close> when the fuel runs out before it.\<close>

fun drain :: "nat \<Rightarrow> nat \<Rightarrow> bytesReaderImpl \<Rightarrow> (string \<times> bytesReaderImpl) option" where
  "drain n 0 r = None"
| "drain n (Suc k) r =
     (case bytesReader_Read n r of
        (None, r') \<Rightarrow> Some ([], r')
      | (Some chunk, r') \<Rightarrow> map_option (\<lambda>(xs, r2). (chunk @ xs, r2)) (drain n k r'))"

lemma bytesReader_Read_simps:
  "length (br_data r) \<le> br_pos r \<Longrightarrow> bytesReader_Read n r = (None, r)"
  "br_pos r < length (br_data r) \<Longrightarrow> bytesReader_Read n r =
     (Some (take n (drop (br_pos r) (br_data r))), r\<lparr>br_pos := br_pos r + min n (length (br_data r) - br_pos r)\<rparr>)"
  by (simp_all add: bytesReader_Read_def Let_def min.commute)

lemma drain_all:
  "0 < n \<Longrightarrow> br_pos r \<le> length (br_data r) \<Longrightarrow> length (br_data r) - br_pos r < k \<Longrightarrow>
     drain n k r = Some (drop (br_pos r) (br_data r), r\<lparr>br_pos := length (br_data r)\<rparr>)"
proof (induction n k r rule: drain.induct)
  case (2 n k r)
  show ?case
  proof (cases "br_pos r < length (br_data r)")
    case False
    with 2 show ?thesis by (simp add: bytesReader_Read_simps(1))
  next
    case True
    define m where "m = min n (length (br_data r) - br_pos r)"
    have m: "0 < m" "br_pos r + m \<le> length (br_data r)" using True 2(2) by (auto simp: m_def)
    have "drain n k (r\<lparr>br_pos := br_pos r + m\<rparr>)
        = Some (drop (br_pos r + m) (br_data r), r\<lparr>br_pos := length (br_data r)\<rparr>)"
      using 2(1) [OF bytesReader_Read_simps(2) [OF True, symmetric] refl 2(2), folded m_def] m 2(4) by simp
    moreover have "take n (drop (br_pos r) (br_data r)) @ drop (br_pos r + m) (br_data r) = drop (br_pos r) (br_data r)"
    proof (cases "n \<le> length (br_data r) - br_pos r")
      case True
      then have "m = n" by (simp add: m_def)
      then show ?thesis by (metis add.commute append_take_drop_id drop_drop)
    next
      case False
      then show ?thesis by (simp add: m_def)
    qed
    ultimately show ?thesis by (simp add: bytesReader_Read_simps(2) [OF True] m_def [symmetric])
  qed
qed simp

text \<open>The reader the RPC ingest hands to the storage: read with any non-empty buffer, it ends after
  at most one read more than it has bytes, has delivered exactly the content of the request,
  and stays at its end.\<close>

theorem bytesReader_reads_everything:
  assumes "0 < n"
  shows "drain n (length b + 1) (bytesReader b) = Some (b, \<lparr>br_data = b, br_pos = length b\<rparr>)
    \<and> bytesReader_Read n \<lparr>br_data = b, br_pos = length b\<rparr> = (None, \<lparr>br_data = b, br_pos = length b\<rparr>)"
  using drain_all [of n "bytesReader b" "length b + 1"] assms
  by (simp add: bytesReader_def bytesReader_Read_simps(1))

lemma bytesReader_reads_everything_witness:
  "drain 2 6 (bytesReader ''hello'') = Some (''hello'', \<lparr>br_data = ''hello'', br_pos = 5\<rparr>)"
  using bytesReader_reads_everything [of 2 "''hello''"] by (simp add: eval_nat_numeral del: drain.simps)


subsection \<open>The event streams\<close>

lemma send_loop_prefix:
  assumes "\<And>ev s. f (fst (build ev s)) = g ev" "send_loop build send evs s = (ms, res, s')"
  shows "\<exists>k. map f ms = take k (map g evs)" "res = None \<Longrightarrow> map f ms = map g evs"
    "length ms \<le> length evs"
proof -
  have "(\<exists>k. map f ms = take k (map g evs)) \<and> (res = None \<longrightarrow> map f ms = map g evs) \<and> length ms \<le> length evs"
    using assms(2)
  proof (induction evs arbitrary: s ms res s')
    case (Cons ev evs)
    obtain m s1 where b: "build ev s = (m, s1)" by force
    have m: "f m = g ev" using assms(1) [of ev s] b by simp
    obtain r s2 where c: "call (send m) s1 = (r, s2)" by force
    show ?case
    proof (cases r)
      case (Some err)
      with Cons.prems b c m show ?thesis by (auto intro: exI [of _ 1])
    next
      case None
      obtain ms1 r1 s3 where l: "send_loop build send evs s2 = (ms1, r1, s3)" by (metis prod_cases3)
      from Cons.IH [OF l] obtain k where "map f ms1 = take k (map g evs)" "length ms1 \<le> length evs"
        "r1 = None \<longrightarrow> map f ms1 = map g evs" by blast
      with Cons.prems b c None l m show ?thesis by (auto intro: exI [of _ "Suc k"])
    qed
  qed auto
  then show "\<exists>k. map f ms = take k (map g evs)" "res = None \<Longrightarrow> map f ms = map g evs"
    "length ms \<le> length evs" by blast+
qed

lemma send_loop_all:
  assumes "\<And>ev s. P (fst (build ev s))" "send_loop build send evs s = (ms, res, s')"
  shows "list_all P ms"
  using assms(2)
proof (induction evs arbitrary: s ms res s')
  case (Cons ev evs)
  obtain m s1 where b: "build ev s = (m, s1)" by force
  then have "P m" using assms(1) [of ev s] by simp
  with Cons b show ?case by (fastforce split: prod.splits option.splits)
qed simp

lemma rpc_build_event_type: "pse_type (fst (rpc_build_event e d c t msg name started ev s)) = dp_event_name d (ev_type ev)"
  by (auto simp: rpc_build_event_def Let_def split: event_type.splits option.splits prod.splits)

lemma rpc_multi_event_fields:
  "pme_type (fst (rpc_multi_event d msg mev s)) = dp_event_name d (ev_type (me_event mev))"
  "pme_section (fst (rpc_multi_event d msg mev s)) = None"
  "pme_elapsed (fst (rpc_multi_event d msg mev s)) = 0"
  "snd (rpc_multi_event d msg mev s) = s"
  by (auto simp: rpc_multi_event_def Let_def split: option.splits)

text \<open>The query stream over RPC, from the moment the strategy has been asked: the messages sent are
  the events of the strategy, one message each, in order and with their types, up to the first
  message that cannot be sent; the stream ends without an error exactly when every event has
  been sent, and with the connection's own error otherwise.\<close>

theorem query_stream_in_order:
  assumes "QueryStream e d send c req s = (ms, res, s')" "orgIDFromConnect req = Inr org"
    and "pq_document (rq_msg req) \<noteq> []" "pq_query (rq_msg req) \<noteq> []"
    and "dp_strategy d = Some sg" "sg_stream sg = Some f"
    and "call (db_tree (dp_db d) c (pq_document (rq_msg req)) org (storeIDFromConnect req)) s = (Inr t, s1)"
    and "read_clock e s1 = (started, s2)"
    and "call (f c t (pq_query (rq_msg req)) (make_budget (pq_model (rq_msg req)) (pq_max_tokens (rq_msg req))
           (pq_reserved (rq_msg req)) (pq_parallel (rq_msg req)))) s2 = (evs, s3)"
  shows "(\<exists>k. map pse_type ms = take k (map (\<lambda>ev. dp_event_name d (ev_type ev)) evs))
    \<and> (case res of
         None \<Rightarrow> map pse_type ms = map (\<lambda>ev. dp_event_name d (ev_type ev)) evs
       | Some (Raw err) \<Rightarrow> \<exists>m sa sb. last ms = m \<and> ms \<noteq> [] \<and> call (send m) sa = (Some err, sb)
       | Some (Coded _) \<Rightarrow> False)"
proof -
  let ?build = "rpc_build_event e d c t (rq_msg req) (sg_name sg) started"
  obtain r where l: "send_loop ?build send evs s3 = (ms, r, s')" and res: "res = map_option Raw r"
    using assms by (auto simp: QueryStream_def rpc_copies Let_def split: prod.splits)
  have err: "ms \<noteq> [] \<and> (\<exists>sa sb. call (send (last ms)) sa = (Some err, sb))"
    if "send_loop ?build send xs sx = (ms, Some err, s'')" for xs sx ms s'' err
    using that
  proof (induction xs arbitrary: sx ms)
    case (Cons ev xs)
    then show ?case by (fastforce split: prod.splits option.splits)
  qed simp
  note prefix = send_loop_prefix [where f = pse_type and g = "\<lambda>ev. dp_event_name d (ev_type ev)",
        OF rpc_build_event_type l]
  show ?thesis
  proof (cases r)
    case None
    with prefix res show ?thesis by simp
  next
    case (Some x)
    with prefix(1) res err [OF l [unfolded Some]] show ?thesis by simp
  qed
qed

lemma query_stream_in_order_witness:
  "map pse_type (fst (QueryStream sample_env (stream_deps :: int deps) (\<lambda>m w. (None, w)) (r_ctx query_post) query_call
     sample_state)) = [''started'', ''section_selected'']"
proof -
  let ?d = "stream_deps :: int deps" and ?send = "\<lambda>(m :: QueryStreamEvent) (w :: int). (None :: go_error option, w)"
  obtain ms res s' where run: "QueryStream sample_env ?d ?send (r_ctx query_post) query_call sample_state = (ms, res, s')"
    by (metis prod_cases3)
  have org: "orgIDFromConnect query_call = Inr ''org-a''"
    by (simp add: orgIDFromConnect_def query_call_def query_post_def sample_request_def hget_hset)
  have msg: "rq_msg query_call = \<lparr>pq_document = ''doc-1'', pq_query = ''why'', pq_model = [], pq_max_tokens = 0,
      pq_reserved = 0, pq_parallel = 0, pq_max_sections = 0\<rparr>"
    by (simp add: query_call_def)
  have g: "dp_strategy ?d = Some stream_strategy"
    "sg_stream stream_strategy = Some (\<lambda>c t q b (w :: int). (sample_events, w))"
    by (simp_all add: stream_deps_def stream_strategy_def)
  have t: "call (db_tree (dp_db ?d) (r_ctx query_post) (pq_document (rq_msg query_call)) ''org-a''
      (storeIDFromConnect query_call)) sample_state = (Inr sample_tree, sample_state)"
    by (simp add: stream_deps_def sample_deps_def sample_db_def call_def)
  have c: "read_clock sample_env sample_state = (0, sample_state\<lparr>st_world := 1\<rparr>)"
    by (simp add: read_clock_def)
  have e: "call ((\<lambda>c t q b (w :: int). (sample_events, w)) (r_ctx query_post) sample_tree (pq_query (rq_msg query_call))
      (make_budget (pq_model (rq_msg query_call)) (pq_max_tokens (rq_msg query_call))
         (pq_reserved (rq_msg query_call)) (pq_parallel (rq_msg query_call)))) (sample_state\<lparr>st_world := 1\<rparr>)
      = (sample_events, sample_state\<lparr>st_world := 1\<rparr>)"
    by (simp add: call_def)
  have ne: "pq_document (rq_msg query_call) \<noteq> []" "pq_query (rq_msg query_call) \<noteq> []"
    by (simp_all add: msg)
  have "res \<noteq> Some x" for x
    using query_stream_in_order [OF run org ne g t c e] by (cases x) (auto simp: call_def)
  then have "res = None" by (cases res) blast+
  with query_stream_in_order [OF run org ne g t c e] run
  show ?thesis by (simp add: sample_events_def stream_deps_def)
qed

text \<open>The multi-document stream over RPC names events and documents but never carries a section or an
  elapsed time, whatever the engine selects, and its messages read nothing from the storage:
  the server's state changes only through the dispatcher and the connection.\<close>

theorem multi_stream_has_no_sections:
  "list_all (\<lambda>m. pme_section m = None \<and> pme_elapsed m = 0) (fst (QueryMultiStream d send c req s))
   \<and> QueryMultiStream d send c req s = QueryMultiStream (d\<lparr>dp_storage := sto\<rparr>) send c req s"
proof -
  have build: "rpc_multi_event (d\<lparr>dp_storage := sto\<rparr>) msg = rpc_multi_event d msg" for msg
    by (simp add: rpc_multi_event_def fun_eq_iff)
  have "list_all (\<lambda>m. pme_section m = None \<and> pme_elapsed m = 0) ms"
    if "send_loop (rpc_multi_event d msg) send evs sa = (ms, res, sb)" for msg evs sa ms res sb
    by (rule send_loop_all [OF _ that]) (simp add: rpc_multi_event_fields)
  then show ?thesis
    by (auto simp: QueryMultiStream_def rpc_copies build Let_def split: sum.splits prod.splits option.splits)
qed


subsection \<open>Tenants\<close>

lemma other_tenants_rpc [simp]:
  "rpc_build_event e (other_tenants d db md) c t m name started = rpc_build_event e d c t m name started"
  "rpc_multi_event (other_tenants d db md) msg = rpc_multi_event d msg"
  unfolding rpc_build_event_def rpc_multi_event_def other_tenants_fields by (rule refl)+

lemma rpc_headers [simp]:
  "storeIDFromConnect \<lparr>rq_header = h, rq_msg = m\<rparr> = hget h ''X-Vectorless-Store''"
  "orgIDFromConnect \<lparr>rq_header = h, rq_msg = m\<rparr> =
     (if hget h ''X-Vectorless-Org'' = []
      then Inl (NewError CodeInvalidArgument (Some ''missing X-Vectorless-Org header''))
      else Inr (hget h ''X-Vectorless-Org''))"
  by (simp_all add: storeIDFromConnect_def orgIDFromConnect_def Let_def)

lemma rpc_list_opts_tenant [simp]:
  "lo_org (rpc_list_opts \<lparr>rq_header = h, rq_msg = m\<rparr> org) = org"
  "lo_store (rpc_list_opts \<lparr>rq_header = h, rq_msg = m\<rparr> org) = hget h ''X-Vectorless-Store''"
  by (simp_all add: rpc_list_opts_def)

lemma rpc_ingest_same_tenant:
  assumes "same_tenant_db org (storeIDFromConnect req) (dp_db d) db"
  shows "rpc_ingest_steps (other_tenants d db md) c req org i ct s = rpc_ingest_steps d c req org i ct s"
proof -
  have "db_new db c doc = db_new (dp_db d) c doc" if "d_org doc = org" "d_store doc = storeIDFromConnect req" for c doc
    using assms that by (simp add: same_tenant_db_def)
  then show ?thesis by (simp add: rpc_ingest_steps_def Let_def cong: option.case_cong)
qed

text \<open>C16. Tenant isolation over RPC: a method reaches the database and the multi-document dispatcher only
  for the organisation and store of its request's headers, so two engines that agree on this
  one tenant give the same results and the same state, however they differ on all others.\<close>

theorem rpc_tenant_isolation:
  assumes "same_tenant_db (hget h ''X-Vectorless-Org'') (hget h ''X-Vectorless-Store'') (dp_db d) db"
    and "rel_option (same_tenant_multi (hget h ''X-Vectorless-Org'') (hget h ''X-Vectorless-Store'')) (dp_multi d) md"
  shows "CreateDocument (other_tenants d db md) c \<lparr>rq_header = h, rq_msg = create\<rparr> s
      = CreateDocument d c \<lparr>rq_header = h, rq_msg = create\<rparr> s
    \<and> GetDocument (other_tenants d db md) c \<lparr>rq_header = h, rq_msg = doc\<rparr> s
      = GetDocument d c \<lparr>rq_header = h, rq_msg = doc\<rparr> s
    \<and> ListDocuments (other_tenants d db md) c \<lparr>rq_header = h, rq_msg = list\<rparr> s
      = ListDocuments d c \<lparr>rq_header = h, rq_msg = list\<rparr> s
    \<and> DeleteDocument (other_tenants d db md) c \<lparr>rq_header = h, rq_msg = doc\<rparr> s
      = DeleteDocument d c \<lparr>rq_header = h, rq_msg = doc\<rparr> s
    \<and> GetDocumentTree (other_tenants d db md) c \<lparr>rq_header = h, rq_msg = doc\<rparr> s
      = GetDocumentTree d c \<lparr>rq_header = h, rq_msg = doc\<rparr> s
    \<and> GetSection (other_tenants d db md) c \<lparr>rq_header = h, rq_msg = sec\<rparr> s
      = GetSection d c \<lparr>rq_header = h, rq_msg = sec\<rparr> s
    \<and> GetDocumentSource (other_tenants d db md) reads send c \<lparr>rq_header = h, rq_msg = doc\<rparr> s
      = GetDocumentSource d reads send c \<lparr>rq_header = h, rq_msg = doc\<rparr> s
    \<and> Query e (other_tenants d db md) c \<lparr>rq_header = h, rq_msg = query\<rparr> s
      = Query e d c \<lparr>rq_header = h, rq_msg = query\<rparr> s
    \<and> QueryMulti e (other_tenants d db md) c \<lparr>rq_header = h, rq_msg = multi\<rparr> s
      = QueryMulti e d c \<lparr>rq_header = h, rq_msg = multi\<rparr> s
    \<and> QueryStream e (other_tenants d db md) sendq c \<lparr>rq_header = h, rq_msg = query\<rparr> s
      = QueryStream e d sendq c \<lparr>rq_header = h, rq_msg = query\<rparr> s
    \<and> QueryMultiStream (other_tenants d db md) sendm c \<lparr>rq_header = h, rq_msg = multi\<rparr> s
      = QueryMultiStream d sendm c \<lparr>rq_header = h, rq_msg = multi\<rparr> s"
proof -
  let ?org = "hget h ''X-Vectorless-Org''" and ?store = "hget h ''X-Vectorless-Store''"
  have db: "db_list db c (rpc_list_opts \<lparr>rq_header = h, rq_msg = m\<rparr> ?org)
      = db_list (dp_db d) c (rpc_list_opts \<lparr>rq_header = h, rq_msg = m\<rparr> ?org)"
    "db_get db c i ?org ?store = db_get (dp_db d) c i ?org ?store"
    "db_delete db c i ?org ?store = db_delete (dp_db d) c i ?org ?store"
    "db_tree db c i ?org ?store = db_tree (dp_db d) c i ?org ?store"
    "db_section db c i ?org ?store = db_section (dp_db d) c i ?org ?store" for c i m
    using assms(1) by (simp_all add: same_tenant_db_def)
  have tenant: "same_tenant_db ?org (storeIDFromConnect \<lparr>rq_header = h, rq_msg = create\<rparr>) (dp_db d) db"
    using assms(1) by (simp add: storeIDFromConnect_def)
  note eqs = other_tenants_fields other_tenants_loops other_tenants_rpc db rpc_headers
    rpc_ingest_same_tenant [OF tenant] rpc_request.simps
  show ?thesis
  proof (cases "?org = []")
    case True
    then show ?thesis
      by (simp add: CreateDocument_def GetDocument_def ListDocuments_def DeleteDocument_def GetDocumentTree_def
          GetSection_def GetDocumentSource_def Query_def QueryMulti_def QueryStream_def QueryMultiStream_def)
  next
    case False
    note org = if_not_P [OF False] sum.case
    have docs: "CreateDocument (other_tenants d db md) c \<lparr>rq_header = h, rq_msg = create\<rparr> s
        = CreateDocument d c \<lparr>rq_header = h, rq_msg = create\<rparr> s"
      "GetDocument (other_tenants d db md) c \<lparr>rq_header = h, rq_msg = doc\<rparr> s
        = GetDocument d c \<lparr>rq_header = h, rq_msg = doc\<rparr> s"
      "ListDocuments (other_tenants d db md) c \<lparr>rq_header = h, rq_msg = list\<rparr> s
        = ListDocuments d c \<lparr>rq_header = h, rq_msg = list\<rparr> s"
      "DeleteDocument (other_tenants d db md) c \<lparr>rq_header = h, rq_msg = doc\<rparr> s
        = DeleteDocument d c \<lparr>rq_header = h, rq_msg = doc\<rparr> s"
      "GetDocumentTree (other_tenants d db md) c \<lparr>rq_header = h, rq_msg = doc\<rparr> s
        = GetDocumentTree d c \<lparr>rq_header = h, rq_msg = doc\<rparr> s"
      "GetSection (other_tenants d db md) c \<lparr>rq_header = h, rq_msg = sec\<rparr> s
        = GetSection d c \<lparr>rq_header = h, rq_msg = sec\<rparr> s"
      "GetDocumentSource (other_tenants d db md) reads send c \<lparr>rq_header = h, rq_msg = doc\<rparr> s
        = GetDocumentSource d reads send c \<lparr>rq_header = h, rq_msg = doc\<rparr> s"
      unfolding CreateDocument_def GetDocument_def ListDocuments_def DeleteDocument_def GetDocumentTree_def
        GetSection_def GetDocumentSource_def eqs org by (rule refl)+
    have q: "Query e (other_tenants d db md) c \<lparr>rq_header = h, rq_msg = query\<rparr> s
        = Query e d c \<lparr>rq_header = h, rq_msg = query\<rparr> s"
      "QueryStream e (other_tenants d db md) sendq c \<lparr>rq_header = h, rq_msg = query\<rparr> s
        = QueryStream e d sendq c \<lparr>rq_header = h, rq_msg = query\<rparr> s"
      unfolding Query_def QueryStream_def rpc_copies eqs org by (rule refl)+
    have m: "QueryMulti e (other_tenants d db md) c \<lparr>rq_header = h, rq_msg = multi\<rparr> s
        = QueryMulti e d c \<lparr>rq_header = h, rq_msg = multi\<rparr> s"
      "QueryMultiStream (other_tenants d db md) sendm c \<lparr>rq_header = h, rq_msg = multi\<rparr> s
        = QueryMultiStream d sendm c \<lparr>rq_header = h, rq_msg = multi\<rparr> s"
      unfolding QueryMulti_def QueryMultiStream_def rpc_copies eqs org
      using assms(2) by (auto simp: same_tenant_multi_def Let_def option_rel_Some1 option_rel_Some2
          split: option.splits sum.splits prod.splits)
    show ?thesis by (simp add: docs q m)
  qed
qed

lemma rpc_tenant_isolation_witness:
  "GetDocument (other_tenants sample_deps
      (sample_db\<lparr>db_get := \<lambda>c i org store w. if org = ''org-a'' then db_get sample_db c i org store w
         else (Inr sample_document, w)\<rparr>) None) (r_ctx get_request)
      \<lparr>rq_header = r_header get_request, rq_msg = \<lparr>dq_document = ''doc-1''\<rparr>\<rparr> sample_state
   = GetDocument sample_deps (r_ctx get_request)
      \<lparr>rq_header = r_header get_request, rq_msg = \<lparr>dq_document = ''doc-1''\<rparr>\<rparr> sample_state"
proof -
  let ?h = "r_header get_request"
  let ?db = "sample_db\<lparr>db_get := \<lambda>c i org store w. if org = ''org-a'' then db_get sample_db c i org store w
     else (Inr sample_document, w)\<rparr>"
  have org: "hget ?h ''X-Vectorless-Org'' = ''org-a''"
    by (simp add: get_request_def sample_request_def hget_hset)
  have db: "same_tenant_db (hget ?h ''X-Vectorless-Org'') (hget ?h ''X-Vectorless-Store'') (dp_db sample_deps) ?db"
    by (simp add: org same_tenant_db_def sample_deps_def)
  have md: "rel_option (same_tenant_multi (hget ?h ''X-Vectorless-Org'') (hget ?h ''X-Vectorless-Store''))
      (dp_multi sample_deps) None"
    by (simp add: sample_deps_def)
  show ?thesis using rpc_tenant_isolation [OF db md, where s = sample_state] by blast
qed

end
