(* ===== verification/Server_Main.thy ===== *)
theory Server_Main
  imports Server_Config
begin

text \<open>
  The server binary (\<open>cmd/server/main.go\<close>) and the set-up of tracing
  (\<open>internal/telemetry/tracing.go\<close>): the choice of the drivers, the order in which \<open>run\<close> opens the
  parts of the engine and starts to serve, what it waits for, and what it releases on the way
  out: each \<open>defer\<close> pushes an event onto the stack of the process, and \<open>returns\<close> plays it. The
  constructors of the engine and of the SDKs are parameters (\<open>boot\<close>): each is a function of what it
  is given and of the world, and may fail. A run is the trace of what it does, its result and the
  world it leaves; \<open>run\<close> has no call that closes the storage and LLM clients. The call of \<open>stop\<close>
  when a subsystem fails repeats the one deferred, and is no event. The wait of \<open>select\<close> is a
  parameter too: it ends by a signal or by the failure of a subsystem.
\<close>

subsection \<open>Drivers\<close>

datatype storage_driver =
    LocalStorage string
  | S3Storage string string string string string bool
  | GCSStorage string

definition buildStorage :: "engine_config \<Rightarrow> (string, storage_driver) result" where
  "buildStorage c =
     (let o1 = ec_storage c in
      if ec_storage_driver c = ''local'' then Inr (LocalStorage (so_local_root o1))
      else if ec_storage_driver c = ''s3''
      then Inr (S3Storage (so_s3_endpoint o1) (so_s3_region o1) (so_s3_bucket o1) (so_s3_access_key o1)
             (so_s3_secret_key o1) (so_s3_path_style o1))
      else if ec_storage_driver c = ''gcs'' then Inr (GCSStorage (so_gcs_bucket o1))
      else Inl (''unknown storage driver: '' @ ec_storage_driver c))"

datatype queue_driver =
    QStashQueue string string string string
  | RiverQueue string int
  | AsynqQueue string string int int

definition buildQueue :: "engine_config \<Rightarrow> string \<Rightarrow> (string, queue_driver) result" where
  "buildQueue c dbURL =
     (let o1 = ec_queue c in
      if ec_queue_driver c = ''qstash''
      then Inr (QStashQueue (qo_qstash_token o1) (qo_qstash_webhook_url o1) (qo_qstash_current_key o1)
             (qo_qstash_next_key o1))
      else if ec_queue_driver c = ''river'' then Inr (RiverQueue dbURL (qo_river_workers o1))
      else if ec_queue_driver c = ''asynq''
      then Inr (AsynqQueue (qo_asynq_addr o1) (qo_asynq_password o1) (qo_asynq_db o1) (qo_asynq_concurrency o1))
      else Inl (''unknown queue driver: '' @ ec_queue_driver c))"

text \<open>The key, the model and the reasoning model.\<close>

datatype llm_driver =
    Anthropic string string string
  | OpenAI string string string
  | Gemini string string string

definition buildLLM :: "engine_config \<Rightarrow> (string, llm_driver) result" where
  "buildLLM c =
     (let o1 = ec_llm c in
      if ec_llm_driver c = ''anthropic''
      then Inr (Anthropic (ec_anthropic_key c) (fst (lm_anthropic o1)) (snd (lm_anthropic o1)))
      else if ec_llm_driver c = ''openai''
      then Inr (OpenAI (ec_openai_key c) (fst (lm_openai o1)) (snd (lm_openai o1)))
      else if ec_llm_driver c = ''gemini''
      then Inr (Gemini (ec_gemini_key c) (fst (lm_gemini o1)) (snd (lm_gemini o1)))
      else Inl (''unknown llm driver: '' @ ec_llm_driver c))"

text \<open>A strategy, possibly behind a cache of so many entries with a time to live.\<close>

datatype retrieval_strategy =
    SinglePass
  | ChunkedTree
  | Cached retrieval_strategy int int

definition buildStrategy :: "engine_config \<Rightarrow> retrieval_strategy" where
  "buildStrategy c =
     (if ec_retrieval_strategy c = ''single-pass'' then SinglePass
      else if ec_retrieval_strategy c = ''chunked-tree'' then ChunkedTree
      else ChunkedTree)"

definition wrap_cache :: "engine_config \<Rightarrow> retrieval_strategy \<Rightarrow> retrieval_strategy" where
  "wrap_cache c strategy =
     (if ec_cache_enabled c then
        (let ttl = wrap64 (ec_cache_ttl_seconds c * second);
             ttl1 = (if ttl = 0 then 10 * minute else ttl)
         in Cached strategy (ec_cache_max_entries c) ttl1)
      else strategy)"

datatype tls_version = VersionTLS12 | VersionTLS13

definition buildTLSConfig :: "TLSConfig \<Rightarrow> tls_version option" where
  "buildTLSConfig c =
     (if \<not> TLS_Enabled c then None
      else Some (if tls_min_version c = ''1.3'' then VersionTLS13 else VersionTLS12))"

datatype log_level = LevelDebug | LevelInfo | LevelWarn | LevelError
datatype log_handler = TextHandler log_level | JSONHandler log_level

definition newLogger :: "engine_config \<Rightarrow> log_handler" where
  "newLogger c =
     (let level = (if ec_log_level c = ''debug'' then LevelDebug
            else if ec_log_level c = ''warn'' then LevelWarn
            else if ec_log_level c = ''error'' then LevelError else LevelInfo)
      in if ec_log_format c = ''console'' then TextHandler level else JSONHandler level)"

subsection \<open>Tracing\<close>

datatype sampler = NeverSample | AlwaysSample | TraceIDRatioBased rat

definition choose_sampler :: "rat \<Rightarrow> sampler" where
  "choose_sampler rate =
     (if rate \<le> 0 then NeverSample else if rate \<ge> 1 then AlwaysSample else TraceIDRatioBased rate)"

subsection \<open>What the binary calls\<close>

datatype wake = ShutdownSignal | SubsystemFailed string

record 'w boot =
  bo_version :: string
  bo_exporter :: "string \<Rightarrow> bool \<Rightarrow> 'w \<Rightarrow> string option \<times> 'w"
  bo_resource :: "string \<Rightarrow> string \<Rightarrow> 'w \<Rightarrow> string option \<times> 'w"
  bo_open_db :: "string \<Rightarrow> int \<Rightarrow> 'w \<Rightarrow> string option \<times> 'w"
  bo_migrate :: "'w \<Rightarrow> string option \<times> 'w"
  bo_storage :: "storage_driver \<Rightarrow> 'w \<Rightarrow> string option \<times> 'w"
  bo_queue :: "queue_driver \<Rightarrow> 'w \<Rightarrow> string option \<times> 'w"
  bo_llm :: "llm_driver \<Rightarrow> 'w \<Rightarrow> string option \<times> 'w"
  bo_wait :: "'w \<Rightarrow> wake \<times> 'w"
  bo_shutdown :: "int \<Rightarrow> 'w \<Rightarrow> string option \<times> 'w"

datatype listener = Plaintext | DirectTLS string string "tls_version option"

datatype boot_event =
    ExporterOpened string bool
  | TracerSet sampler
  | DbOpened string int
  | Migrated
  | StorageReady storage_driver
  | QueueReady queue_driver
  | LLMReady llm_driver
  | StrategyReady retrieval_strategy
  | IngestRegistered
  | WorkersStarted
  | Listening string int int listener
  | Woken wake
  | ServerShutdown int
  | QueueClosed
  | DbClosed
  | TracerShutdown int
  | SignalsReleased

datatype run_error =
    LoadConfig config_error
  | InitTracing string
  | InitDb string
  | MigrateDb string
  | InitStorage string
  | InitQueue string
  | InitLLM string

type_synonym 'w run_result = "boot_event list \<times> run_error option \<times> 'w"

text \<open>The settings of the tracer, as \<open>run\<close> copies them from the configuration.\<close>

record TelemetryConfig =
  tl_endpoint :: string
  tl_insecure :: bool
  tl_service_name :: string
  tl_version :: string
  tl_sample_rate :: rat

definition telemetry_config :: "string \<Rightarrow> TracingConfig \<Rightarrow> TelemetryConfig" where
  "telemetry_config version c =
     \<lparr>tl_endpoint = tc_endpoint c, tl_insecure = tc_insecure c, tl_service_name = tc_service_name c,
      tl_version = version, tl_sample_rate = tc_sample_rate c\<rparr>"

lemma telemetry_config_rate [simp]: "tl_sample_rate (telemetry_config v c) = tc_sample_rate c"
  by (simp add: telemetry_config_def)

text \<open>
  \<open>InitTracer\<close>: the exporter, the resource, then the global provider and propagator. The events tell
  what has been opened when it returns, also with an error: the exporter is open when the merge
  of the resource fails.
\<close>

definition InitTracer ::
  "'w boot \<Rightarrow> TelemetryConfig \<Rightarrow> 'w \<Rightarrow> (string, sampler) result \<times> boot_event list \<times> 'w" where
  "InitTracer bo cfg w =
     (case bo_exporter bo (tl_endpoint cfg) (tl_insecure cfg) w of
        (Some err, w1) \<Rightarrow> (Inl (''create OTLP exporter: '' @ err), [], w1)
      | (None, w1) \<Rightarrow>
          (case bo_resource bo (tl_service_name cfg) (tl_version cfg) w1 of
             (Some err, w2) \<Rightarrow>
               (Inl (''create resource: '' @ err), [ExporterOpened (tl_endpoint cfg) (tl_insecure cfg)], w2)
           | (None, w2) \<Rightarrow>
               (Inr (choose_sampler (tl_sample_rate cfg)),
                [ExporterOpened (tl_endpoint cfg) (tl_insecure cfg), TracerSet (choose_sampler (tl_sample_rate cfg))],
                w2)))"

subsection \<open>The run\<close>

text \<open>
  The state of the function while it runs: what it has done, what it has deferred to its return
  (latest first, as Go runs them) and the world. A stage is a piece of its body up to the next
  error check; a stage that fails makes \<open>run\<close> return.
\<close>

record 'w process =
  pr_log :: "boot_event list"
  pr_defers :: "boot_event list"
  pr_world :: 'w

definition emits :: "boot_event list \<Rightarrow> 'w process \<Rightarrow> 'w process" where
  "emits evs p = p\<lparr>pr_log := pr_log p @ evs\<rparr>"

definition deferring :: "boot_event \<Rightarrow> 'w process \<Rightarrow> 'w process" where
  "deferring ev p = p\<lparr>pr_defers := ev # pr_defers p\<rparr>"

definition calls :: "('w \<Rightarrow> 'r \<times> 'w) \<Rightarrow> 'w process \<Rightarrow> 'r \<times> 'w process" where
  "calls f p = (case f (pr_world p) of (r, w) \<Rightarrow> (r, p\<lparr>pr_world := w\<rparr>))"

definition and_then ::
  "('w process \<Rightarrow> run_error option \<times> 'w process) \<Rightarrow> ('w process \<Rightarrow> run_error option \<times> 'w process)
   \<Rightarrow> 'w process \<Rightarrow> run_error option \<times> 'w process" where
  "and_then f g p = (case f p of (Some err, p1) \<Rightarrow> (Some err, p1) | (None, p1) \<Rightarrow> g p1)"

text \<open>Tracing, if enabled: the provider is shut down on the way out.\<close>

definition start_tracing :: "'w boot \<Rightarrow> Config \<Rightarrow> 'w process \<Rightarrow> run_error option \<times> 'w process" where
  "start_tracing bo cfg p =
     (if tc_enabled (cf_tracing cfg) then
        (case InitTracer bo (telemetry_config (bo_version bo) (cf_tracing cfg)) (pr_world p) of
           (Inl err, evs, w) \<Rightarrow> (Some (InitTracing err), emits evs (p\<lparr>pr_world := w\<rparr>))
         | (Inr sm, evs, w) \<Rightarrow>
             (None, deferring (TracerShutdown (5 * second)) (emits evs (p\<lparr>pr_world := w\<rparr>))))
      else (None, p))"

text \<open>The pool is closed on the way out, also when the migration fails.\<close>

definition start_db :: "'w boot \<Rightarrow> Config \<Rightarrow> 'w process \<Rightarrow> run_error option \<times> 'w process" where
  "start_db bo cfg p =
     (let url = ec_database_url (cf_engine cfg); conns = wrap32 (ec_database_max_conns (cf_engine cfg)) in
      case calls (bo_open_db bo url conns) p of
        (Some err, p1) \<Rightarrow> (Some (InitDb err), p1)
      | (None, p1) \<Rightarrow>
          (case calls (bo_migrate bo) (deferring DbClosed (emits [DbOpened url conns] p1)) of
             (Some err, p2) \<Rightarrow> (Some (MigrateDb err), p2)
           | (None, p2) \<Rightarrow> (None, emits [Migrated] p2)))"

definition start_storage :: "'w boot \<Rightarrow> Config \<Rightarrow> 'w process \<Rightarrow> run_error option \<times> 'w process" where
  "start_storage bo cfg p =
     (case buildStorage (cf_engine cfg) of
        Inl err \<Rightarrow> (Some (InitStorage err), p)
      | Inr sd \<Rightarrow>
          (case calls (bo_storage bo sd) p of
             (Some err, p1) \<Rightarrow> (Some (InitStorage err), p1)
           | (None, p1) \<Rightarrow> (None, emits [StorageReady sd] p1)))"

text \<open>The driver of the queue is closed on the way out.\<close>

definition start_queue :: "'w boot \<Rightarrow> Config \<Rightarrow> 'w process \<Rightarrow> run_error option \<times> 'w process" where
  "start_queue bo cfg p =
     (case buildQueue (cf_engine cfg) (ec_database_url (cf_engine cfg)) of
        Inl err \<Rightarrow> (Some (InitQueue err), p)
      | Inr qd \<Rightarrow>
          (case calls (bo_queue bo qd) p of
             (Some err, p1) \<Rightarrow> (Some (InitQueue err), p1)
           | (None, p1) \<Rightarrow> (None, deferring QueueClosed (emits [QueueReady qd] p1))))"

text \<open>The LLM client, the strategy and the registration of the ingest job.\<close>

definition start_engine :: "'w boot \<Rightarrow> Config \<Rightarrow> 'w process \<Rightarrow> run_error option \<times> 'w process" where
  "start_engine bo cfg p =
     (case buildLLM (cf_engine cfg) of
        Inl err \<Rightarrow> (Some (InitLLM err), p)
      | Inr ld \<Rightarrow>
          (case calls (bo_llm bo ld) p of
             (Some err, p1) \<Rightarrow> (Some (InitLLM err), p1)
           | (None, p1) \<Rightarrow>
               (None, emits [LLMReady ld, StrategyReady (wrap_cache (cf_engine cfg) (buildStrategy (cf_engine cfg))),
                  IngestRegistered] p1)))"

definition start_up :: "'w boot \<Rightarrow> Config \<Rightarrow> 'w \<Rightarrow> run_error option \<times> 'w process" where
  "start_up bo cfg w =
     and_then (start_tracing bo cfg) (and_then (start_db bo cfg) (and_then (start_storage bo cfg)
       (and_then (start_queue bo cfg) (start_engine bo cfg))))
     (deferring SignalsReleased \<lparr>pr_log = [], pr_defers = [], pr_world = w\<rparr>)"

text \<open>
  The end of \<open>run\<close>, for the two roles. The HTTP server is shut down with the drain timeout (its
  error is logged and ignored); a worker only waits.
\<close>

definition listener_of :: "ServerConfig \<Rightarrow> listener" where
  "listener_of sv =
     (if TLS_Enabled (sv_tls sv)
      then DirectTLS (tls_cert_file (sv_tls sv)) (tls_key_file (sv_tls sv)) (buildTLSConfig (sv_tls sv))
      else Plaintext)"

definition drain_timeout :: "ServerConfig \<Rightarrow> int" where
  "drain_timeout sv = (if sv_drain_timeout sv = 0 then 15 * second else sv_drain_timeout sv)"

definition subsystems :: "Config \<Rightarrow> string \<Rightarrow> boot_event list" where
  "subsystems cfg role =
     WorkersStarted #
       (if role = ''server''
        then [Listening (sv_addr (cf_server cfg)) (sv_read_timeout (cf_server cfg)) (sv_write_timeout (cf_server cfg))
                (listener_of (cf_server cfg))]
        else [])"

definition serve :: "'w boot \<Rightarrow> Config \<Rightarrow> string \<Rightarrow> 'w process \<Rightarrow> 'w process" where
  "serve bo cfg role p =
     (case calls (bo_wait bo) (emits (subsystems cfg role) p) of
        (wk, p1) \<Rightarrow>
          (if role = ''server'' then
             (case calls (bo_shutdown bo (drain_timeout (cf_server cfg))) (emits [Woken wk] p1) of
                (err, p2) \<Rightarrow> emits [ServerShutdown (drain_timeout (cf_server cfg))] p2)
           else emits [Woken wk] p1))"

text \<open>The return of \<open>run\<close>: what was deferred is done, latest first.\<close>

definition returns :: "run_error option \<Rightarrow> 'w process \<Rightarrow> 'w run_result" where
  "returns err p = (pr_log p @ pr_defers p, err, pr_world p)"

definition run :: "'w boot \<Rightarrow> (config_error, Config) result \<Rightarrow> string \<Rightarrow> 'w \<Rightarrow> 'w run_result" where
  "run bo loaded role w =
     (case loaded of
        Inl err \<Rightarrow> ([], Some (LoadConfig err), w)
      | Inr cfg \<Rightarrow>
          (case start_up bo cfg w of
             (Some err, p) \<Rightarrow> returns (Some err) p
           | (None, p) \<Rightarrow> returns None (serve bo cfg role p)))"

text \<open>The exit status of the process.\<close>

definition exit_status :: "'w run_result \<Rightarrow> int" where
  "exit_status res = (case res of (evs, None, w) \<Rightarrow> 0 | (evs, Some err, w) \<Rightarrow> 1)"

subsection \<open>What a run does\<close>

named_theorems process_eqs

lemma process_simps [process_eqs, simp]:
  "pr_log (emits evs p) = pr_log p @ evs" "pr_defers (emits evs p) = pr_defers p" "pr_world (emits evs p) = pr_world p"
  "pr_log (deferring ev p) = pr_log p" "pr_defers (deferring ev p) = ev # pr_defers p"
  "pr_world (deferring ev p) = pr_world p"
  by (simp_all add: emits_def deferring_def)

lemma calls_eq [process_eqs]:
  "calls f p = (fst (f (pr_world p)), p\<lparr>pr_world := snd (f (pr_world p))\<rparr>)"
  by (simp add: calls_def split: prod.splits)

lemma InitTracer_cases:
  obtains (no_exporter) m w1 where "InitTracer bo cfg w = (Inl (''create OTLP exporter: '' @ m), [], w1)"
  | (no_resource) m w1 where "InitTracer bo cfg w =
      (Inl (''create resource: '' @ m), [ExporterOpened (tl_endpoint cfg) (tl_insecure cfg)], w1)"
  | (ready) w1 where "InitTracer bo cfg w =
      (Inr (choose_sampler (tl_sample_rate cfg)),
       [ExporterOpened (tl_endpoint cfg) (tl_insecure cfg), TracerSet (choose_sampler (tl_sample_rate cfg))], w1)"
proof -
  obtain e1 w1 where 1: "bo_exporter bo (tl_endpoint cfg) (tl_insecure cfg) w = (e1, w1)" by fastforce
  obtain e2 w2 where 2: "bo_resource bo (tl_service_name cfg) (tl_version cfg) w1 = (e2, w2)" by fastforce
  show thesis
  proof (cases e1)
    case None
    with 1 2 no_resource ready show thesis by (cases e2) (simp_all add: InitTracer_def)
  next
    case (Some m)
    with 1 no_exporter show thesis by (simp add: InitTracer_def)
  qed
qed

text \<open>
  The stages, by what they add to the log and to what is deferred. A failure inside \<open>InitTracer\<close>
  leaves the exporter open exactly when its message is that of the resource.
\<close>

definition leaks_exporter :: "run_error option \<Rightarrow> bool" where
  "leaks_exporter err \<longleftrightarrow> (\<exists>m. err = Some (InitTracing (''create resource: '' @ m)))"

definition tracing_events :: "Config \<Rightarrow> boot_event list" where
  "tracing_events cfg =
     (if tc_enabled (cf_tracing cfg)
      then [ExporterOpened (tc_endpoint (cf_tracing cfg)) (tc_insecure (cf_tracing cfg)),
            TracerSet (choose_sampler (tc_sample_rate (cf_tracing cfg)))] else [])"

definition tracing_defers :: "Config \<Rightarrow> boot_event list" where
  "tracing_defers cfg = (if tc_enabled (cf_tracing cfg) then [TracerShutdown (5 * second)] else [])"

definition db_opened :: "Config \<Rightarrow> boot_event" where
  "db_opened cfg = DbOpened (ec_database_url (cf_engine cfg)) (wrap32 (ec_database_max_conns (cf_engine cfg)))"

lemma start_tracing_done:
  assumes "start_tracing bo cfg p = (err, p1)"
  shows "(err = None \<longrightarrow> pr_log p1 = pr_log p @ tracing_events cfg \<and> pr_defers p1 = tracing_defers cfg @ pr_defers p)
    \<and> (err \<noteq> None \<longrightarrow> pr_defers p1 = pr_defers p
        \<and> pr_log p1 = pr_log p @ (if leaks_exporter err
            then [ExporterOpened (tc_endpoint (cf_tracing cfg)) (tc_insecure (cf_tracing cfg))] else []))"
proof (cases "tc_enabled (cf_tracing cfg)")
  case True
  let ?c = "telemetry_config (bo_version bo) (cf_tracing cfg)"
  from InitTracer_cases [of bo ?c "pr_world p"] show ?thesis
  proof cases
    case no_exporter
    with True assms show ?thesis by (auto simp: start_tracing_def leaks_exporter_def)
  next
    case no_resource
    with True assms show ?thesis by (auto simp: start_tracing_def leaks_exporter_def telemetry_config_def)
  next
    case ready
    with True assms show ?thesis
      by (auto simp: start_tracing_def tracing_events_def tracing_defers_def telemetry_config_def)
  qed
next
  case False
  with assms show ?thesis by (auto simp: start_tracing_def tracing_events_def tracing_defers_def)
qed

lemma start_db_done:
  assumes "start_db bo cfg p = (err, p1)"
  shows "\<not> leaks_exporter err
    \<and> (err = None \<longrightarrow> pr_log p1 = pr_log p @ [db_opened cfg, Migrated] \<and> pr_defers p1 = DbClosed # pr_defers p)
    \<and> (err \<noteq> None \<longrightarrow> pr_log p1 = pr_log p \<and> pr_defers p1 = pr_defers p
        \<or> pr_log p1 = pr_log p @ [db_opened cfg] \<and> pr_defers p1 = DbClosed # pr_defers p)"
  using assms
  by (auto simp: start_db_def db_opened_def leaks_exporter_def Let_def process_eqs split: prod.splits option.splits)

lemma start_storage_done:
  assumes "start_storage bo cfg p = (err, p1)"
  shows "\<not> leaks_exporter err \<and> pr_defers p1 = pr_defers p
    \<and> (err = None \<longrightarrow> (\<exists>sd. buildStorage (cf_engine cfg) = Inr sd \<and> pr_log p1 = pr_log p @ [StorageReady sd]))
    \<and> (err \<noteq> None \<longrightarrow> pr_log p1 = pr_log p)"
  using assms
  by (auto simp: start_storage_def leaks_exporter_def process_eqs split: sum.splits prod.splits option.splits)

lemma start_queue_done:
  assumes "start_queue bo cfg p = (err, p1)"
  shows "\<not> leaks_exporter err
    \<and> (err = None \<longrightarrow> (\<exists>qd. buildQueue (cf_engine cfg) (ec_database_url (cf_engine cfg)) = Inr qd
        \<and> pr_log p1 = pr_log p @ [QueueReady qd]) \<and> pr_defers p1 = QueueClosed # pr_defers p)
    \<and> (err \<noteq> None \<longrightarrow> pr_log p1 = pr_log p \<and> pr_defers p1 = pr_defers p)"
  using assms
  by (auto simp: start_queue_def leaks_exporter_def process_eqs split: sum.splits prod.splits option.splits)

lemma start_engine_done:
  assumes "start_engine bo cfg p = (err, p1)"
  shows "\<not> leaks_exporter err \<and> pr_defers p1 = pr_defers p
    \<and> (err = None \<longrightarrow> (\<exists>ld. buildLLM (cf_engine cfg) = Inr ld \<and> pr_log p1 = pr_log p @ [LLMReady ld,
          StrategyReady (wrap_cache (cf_engine cfg) (buildStrategy (cf_engine cfg))), IngestRegistered]))
    \<and> (err \<noteq> None \<longrightarrow> pr_log p1 = pr_log p)"
  using assms
  by (auto simp: start_engine_def leaks_exporter_def process_eqs split: sum.splits prod.splits option.splits)

subsection \<open>What a run holds\<close>

text \<open>
  The resources that the events acquire and release, read off the events alone. \<open>TracerShutdown\<close>
  shuts down the provider and with it the exporter it exports to. For the clients of the storage
  and of the LLM \<open>run\<close> has no call that closes them: they are not managed.
\<close>

datatype resource = ExporterRes | DbRes | StorageRes | QueueRes | LLMRes | ServerRes

fun acquires :: "boot_event \<Rightarrow> resource option" where
  "acquires (ExporterOpened e i) = Some ExporterRes"
| "acquires (DbOpened u n) = Some DbRes"
| "acquires (StorageReady sd) = Some StorageRes"
| "acquires (QueueReady qd) = Some QueueRes"
| "acquires (LLMReady ld) = Some LLMRes"
| "acquires (Listening a rt wt l) = Some ServerRes"
| "acquires ev = None"

fun releases :: "boot_event \<Rightarrow> resource option" where
  "releases (TracerShutdown t) = Some ExporterRes"
| "releases DbClosed = Some DbRes"
| "releases QueueClosed = Some QueueRes"
| "releases (ServerShutdown t) = Some ServerRes"
| "releases ev = None"

definition managed :: "resource \<Rightarrow> bool" where
  "managed r \<longleftrightarrow> r \<noteq> StorageRes \<and> r \<noteq> LLMRes"

text \<open>
  A resource is released only while it is held and no managed resource acquired after it is
  still held: \<open>None\<close> marks a release out of order, a second one, or one of what was never acquired.
\<close>

fun release :: "resource \<Rightarrow> resource list \<Rightarrow> resource list option" where
  "release r [] = None"
| "release r (x # xs) =
     (if x = r then Some xs else if managed x then None else map_option ((#) x) (release r xs))"

fun holding :: "boot_event list \<Rightarrow> resource list \<Rightarrow> resource list option" where
  "holding [] st = Some st"
| "holding (ev # evs) st =
     (case acquires ev of
        Some r \<Rightarrow> holding evs (r # st)
      | None \<Rightarrow> (case releases ev of
          None \<Rightarrow> holding evs st
        | Some r \<Rightarrow> (case release r st of None \<Rightarrow> None | Some st1 \<Rightarrow> holding evs st1)))"

lemma holding_append: "holding (xs @ ys) st = (case holding xs st of None \<Rightarrow> None | Some st1 \<Rightarrow> holding ys st1)"
  by (induction xs arbitrary: st) (auto split: option.splits)

text \<open>The events after the workers have been started, up to the return.\<close>

fun at_work :: "boot_event \<Rightarrow> bool" where
  "at_work WorkersStarted = True"
| "at_work (Listening a rt wt l) = True"
| "at_work (Woken wk) = True"
| "at_work (ServerShutdown t) = True"
| "at_work ev = False"

definition unclosed :: "boot_event list \<Rightarrow> run_error option \<Rightarrow> resource list" where
  "unclosed evs err =
     (if \<exists>ld. LLMReady ld \<in> set evs then [LLMRes] else [])
     @ (if \<exists>sd. StorageReady sd \<in> set evs then [StorageRes] else [])
     @ (if leaks_exporter err then [ExporterRes] else [])"

subsection \<open>The trace of a run\<close>

definition startup_events :: "Config \<Rightarrow> storage_driver \<Rightarrow> queue_driver \<Rightarrow> llm_driver \<Rightarrow> boot_event list" where
  "startup_events cfg sd qd ld =
     tracing_events cfg @
     [db_opened cfg, Migrated, StorageReady sd, QueueReady qd, LLMReady ld,
      StrategyReady (wrap_cache (cf_engine cfg) (buildStrategy (cf_engine cfg))), IngestRegistered]"

definition closing_events :: "Config \<Rightarrow> boot_event list" where
  "closing_events cfg = [QueueClosed, DbClosed] @ tracing_defers cfg @ [SignalsReleased]"

definition serving_events :: "Config \<Rightarrow> string \<Rightarrow> wake \<Rightarrow> boot_event list" where
  "serving_events cfg role wk =
     subsystems cfg role @ [Woken wk] @
     (if role = ''server'' then [ServerShutdown (drain_timeout (cf_server cfg))] else [])"

lemma and_then_None:
  "and_then f g p = (None, q) \<longleftrightarrow> (\<exists>p1. f p = (None, p1) \<and> g p1 = (None, q))"
  by (auto simp: and_then_def split: prod.splits option.splits)

lemma and_then_Some:
  "and_then f g p = (Some err, q) \<longleftrightarrow> f p = (Some err, q) \<or> (\<exists>p1. f p = (None, p1) \<and> g p1 = (Some err, q))"
  by (auto simp: and_then_def split: prod.splits option.splits)

text \<open>A start-up that succeeds, by its log and by what it has deferred.\<close>

lemma start_up_done:
  assumes "start_up bo cfg w = (None, p)"
  shows "\<exists>sd qd ld. buildStorage (cf_engine cfg) = Inr sd
    \<and> buildQueue (cf_engine cfg) (ec_database_url (cf_engine cfg)) = Inr qd \<and> buildLLM (cf_engine cfg) = Inr ld
    \<and> pr_log p = startup_events cfg sd qd ld \<and> pr_defers p = closing_events cfg"
proof -
  obtain p1 p2 p3 p4 where s:
    "start_tracing bo cfg (deferring SignalsReleased \<lparr>pr_log = [], pr_defers = [], pr_world = w\<rparr>) = (None, p1)"
    "start_db bo cfg p1 = (None, p2)" "start_storage bo cfg p2 = (None, p3)" "start_queue bo cfg p3 = (None, p4)"
    "start_engine bo cfg p4 = (None, p)"
    using assms by (auto simp: start_up_def and_then_None)
  show ?thesis
    using start_tracing_done [OF s(1)] start_db_done [OF s(2)] start_storage_done [OF s(3)]
      start_queue_done [OF s(4)] start_engine_done [OF s(5)]
    by (auto simp: startup_events_def closing_events_def)
qed

text \<open>What a start-up that fails has done when \<open>run\<close> returns.\<close>

definition settled :: "run_error option \<Rightarrow> boot_event list \<Rightarrow> bool" where
  "settled err evs \<longleftrightarrow> holding evs [] = Some (unclosed evs err) \<and> \<not> list_ex at_work evs"

lemmas trace_defs = settled_def unclosed_def managed_def tracing_events_def tracing_defers_def db_opened_def

lemma start_up_failed:
  assumes "start_up bo cfg w = (Some err, p)"
  shows "settled (Some err) (pr_log p @ pr_defers p)"
proof -
  let ?p = "deferring SignalsReleased \<lparr>pr_log = [], pr_defers = [], pr_world = w\<rparr>"
  consider "start_tracing bo cfg ?p = (Some err, p)"
    | p1 where "start_tracing bo cfg ?p = (None, p1)" "start_db bo cfg p1 = (Some err, p)"
    | p1 p2 where "start_tracing bo cfg ?p = (None, p1)" "start_db bo cfg p1 = (None, p2)"
        "start_storage bo cfg p2 = (Some err, p)"
    | p1 p2 p3 where "start_tracing bo cfg ?p = (None, p1)" "start_db bo cfg p1 = (None, p2)"
        "start_storage bo cfg p2 = (None, p3)" "start_queue bo cfg p3 = (Some err, p)"
    | p1 p2 p3 p4 where "start_tracing bo cfg ?p = (None, p1)" "start_db bo cfg p1 = (None, p2)"
        "start_storage bo cfg p2 = (None, p3)" "start_queue bo cfg p3 = (None, p4)"
        "start_engine bo cfg p4 = (Some err, p)"
    using assms by (auto simp: start_up_def and_then_Some)
  then show ?thesis
  proof cases
    case 1
    from start_tracing_done [OF 1]
    show ?thesis by (auto simp: trace_defs split: if_splits)
  next
    case 2
    from start_tracing_done [OF 2(1)] start_db_done [OF 2(2)]
    show ?thesis by (auto simp: trace_defs split: if_splits)
  next
    case 3
    from start_tracing_done [OF 3(1)] start_db_done [OF 3(2)]
      start_storage_done [OF 3(3)]
    show ?thesis by (auto simp: trace_defs split: if_splits)
  next
    case 4
    from start_tracing_done [OF 4(1)] start_db_done [OF 4(2)]
      start_storage_done [OF 4(3)] start_queue_done [OF 4(4)]
    show ?thesis by (auto simp: trace_defs split: if_splits)
  next
    case 5
    from start_tracing_done [OF 5(1)] start_db_done [OF 5(2)]
      start_storage_done [OF 5(3)] start_queue_done [OF 5(4)] start_engine_done [OF 5(5)]
    show ?thesis by (auto simp: trace_defs split: if_splits)
  qed
qed

lemma serve_log: "\<exists>wk. pr_log (serve bo cfg role p) = pr_log p @ serving_events cfg role wk"
  by (auto simp: serve_def serving_events_def process_eqs)

lemma serve_defers [simp]: "pr_defers (serve bo cfg role p) = pr_defers p"
  by (simp add: serve_def process_eqs)

lemma run_trace:
  assumes "run bo loaded role w = (evs, None, w')"
  shows "\<exists>cfg sd qd ld wk. loaded = Inr cfg \<and> buildStorage (cf_engine cfg) = Inr sd
    \<and> buildQueue (cf_engine cfg) (ec_database_url (cf_engine cfg)) = Inr qd \<and> buildLLM (cf_engine cfg) = Inr ld
    \<and> evs = startup_events cfg sd qd ld @ serving_events cfg role wk @ closing_events cfg"
proof -
  from assms obtain cfg p where c: "loaded = Inr cfg" "start_up bo cfg w = (None, p)"
    "evs = pr_log (serve bo cfg role p) @ pr_defers p"
    by (auto simp: run_def returns_def split: sum.splits prod.splits option.splits)
  obtain wk where "pr_log (serve bo cfg role p) = pr_log p @ serving_events cfg role wk"
    using serve_log by blast
  with c(3) start_up_done [OF c(2)] show ?thesis unfolding c(1) by auto
qed

lemma run_failed:
  assumes "run bo loaded role w = (evs, Some err, w')"
  shows "settled (Some err) evs"
  using assms
  by (auto simp: run_def returns_def dest: start_up_failed split: sum.splits prod.splits option.splits)
    (simp add: settled_def unclosed_def leaks_exporter_def)

lemma whole_trace_holding:
  "holding (startup_events cfg sd qd ld @ serving_events cfg role wk @ closing_events cfg) [] = Some [LLMRes, StorageRes]"
  by (simp add: startup_events_def serving_events_def subsystems_def closing_events_def tracing_events_def
      tracing_defers_def db_opened_def managed_def)

lemma run_serves:
  assumes "run bo loaded role w = (evs, res, w')" "ev \<in> set evs" "at_work ev"
  shows "res = None"
  using run_failed [of bo loaded role w evs _ w'] assms
  by (cases res) (auto simp: settled_def list_ex_iff)

subsection \<open>Properties\<close>

text \<open>C27. Resources: on every path through \<open>run\<close>, whatever fails, the exporter of the traces, the
  database pool, the queue and the HTTP server are released only if they were acquired, once,
  and in the reverse order; at the return nothing is held any more but the clients of the LLM
  and of the storage, if they were built (\<open>run\<close> has no call that closes them), and the exporter
  exactly when \<open>InitTracer\<close> has failed after opening it, at the merge of the resource. And \<open>run\<close>
  returns an error exactly when neither the workers nor the server have been started.\<close>

theorem run_accounts_for_resources:
  "holding (fst (run bo loaded role w)) [] =
     Some ((if \<exists>ld. LLMReady ld \<in> set (fst (run bo loaded role w)) then [LLMRes] else [])
       @ (if \<exists>sd. StorageReady sd \<in> set (fst (run bo loaded role w)) then [StorageRes] else [])
       @ (if \<exists>m. fst (snd (run bo loaded role w)) = Some (InitTracing (''create resource: '' @ m))
          then [ExporterRes] else []))
   \<and> (fst (snd (run bo loaded role w)) = None \<longleftrightarrow> list_ex at_work (fst (run bo loaded role w)))"
proof -
  obtain evs res w' where r: "run bo loaded role w = (evs, res, w')" by (cases "run bo loaded role w")
  show ?thesis
  proof (cases res)
    case None
    obtain cfg sd qd ld wk where e:
      "evs = startup_events cfg sd qd ld @ serving_events cfg role wk @ closing_events cfg"
      using run_trace [OF r [unfolded None]] by blast
    then have "LLMReady ld \<in> set evs" "StorageReady sd \<in> set evs" "list_ex at_work evs"
      by (auto simp: startup_events_def serving_events_def subsystems_def)
    then show ?thesis using whole_trace_holding [of cfg sd qd ld role wk] unfolding r None e by auto
  next
    case (Some err)
    from run_failed [OF r [unfolded Some]] show ?thesis
      unfolding r Some by (auto simp: settled_def unclosed_def leaks_exporter_def)
  qed
qed

text \<open>Order: a run that returns without an error loaded its configuration and did exactly this: set
  up tracing if enabled, opened the database with the configured limit of connections,
  migrated it, opened storage, queue and LLM with the drivers the configuration names, built
  the strategy, registered the ingest job, started the workers; in the role \<open>server\<close>, and in no
  other, listened on the configured address and shut the server down with the drain timeout;
  and closed the queue, the database and the tracer.\<close>

theorem run_serves_when_ready:
  assumes "run bo loaded role w = (evs, None, w')"
  shows "\<exists>cfg sd qd ld wk. loaded = Inr cfg \<and> buildStorage (cf_engine cfg) = Inr sd
    \<and> buildQueue (cf_engine cfg) (ec_database_url (cf_engine cfg)) = Inr qd \<and> buildLLM (cf_engine cfg) = Inr ld
    \<and> evs = startup_events cfg sd qd ld @ serving_events cfg role wk @ closing_events cfg"
  by (rule run_trace [OF assms])

text \<open>A failed server exits with success: whenever the wait was ended by the failure of the HTTP
  server or of the queue workers, the exit status of the process is 0, as for a requested
  shutdown.\<close>

theorem failure_exits_with_success:
  assumes "run bo loaded role w = (evs, res, w')" "Woken (SubsystemFailed err) \<in> set evs"
  shows "exit_status (run bo loaded role w) = 0 \<and> SignalsReleased = last evs"
proof -
  have "res = None" by (rule run_serves [OF assms]) simp
  moreover obtain cfg evs1 where "evs = evs1 @ closing_events cfg"
    using run_trace [OF assms(1) [unfolded \<open>res = None\<close>]] by (metis append_assoc)
  ultimately show ?thesis using assms(1) by (simp add: exit_status_def closing_events_def)
qed

text \<open>C39. No silent downgrade: when the server listens with a configuration that was loaded, it serves
  TLS with exactly the configured certificate and key if either of them is set, at least
  version 1.2, and 1.3 when the configuration asks for it; it serves plaintext only when
  neither is set.\<close>

theorem tls_is_not_downgraded:
  assumes "Load ce path = Inr cfg" "run bo (Load ce path) role w = (evs, res, w')" "Listening a rt wt l \<in> set evs"
  shows "a = sv_addr (cf_server cfg) \<and> rt = sv_read_timeout (cf_server cfg) \<and> wt = sv_write_timeout (cf_server cfg)
    \<and> l = (if tls_cert_file (sv_tls (cf_server cfg)) = [] \<and> tls_key_file (sv_tls (cf_server cfg)) = [] then Plaintext
           else DirectTLS (tls_cert_file (sv_tls (cf_server cfg))) (tls_key_file (sv_tls (cf_server cfg)))
             (Some (if tls_min_version (sv_tls (cf_server cfg)) = ''1.3'' then VersionTLS13 else VersionTLS12)))"
proof -
  have "res = None" by (rule run_serves [OF assms(2,3)]) simp
  then obtain sd qd ld wk where "evs = startup_events cfg sd qd ld @ serving_events cfg role wk @ closing_events cfg"
    using run_trace [OF assms(2) [unfolded \<open>res = None\<close>]] assms(1) by auto
  then have "a = sv_addr (cf_server cfg)" "rt = sv_read_timeout (cf_server cfg)" "wt = sv_write_timeout (cf_server cfg)"
    "l = listener_of (cf_server cfg)"
    using assms(3) by (auto simp: startup_events_def serving_events_def subsystems_def closing_events_def tracing_events_def
        tracing_defers_def db_opened_def split: if_splits)
  moreover from Load_Inr [OF assms(1)]
  have "tls_cert_file (sv_tls (cf_server cfg)) = [] \<longleftrightarrow> tls_key_file (sv_tls (cf_server cfg)) = []"
    by (auto simp: config_ok_def)
  ultimately show ?thesis
    by (auto simp: listener_of_def buildTLSConfig_def TLS_Enabled_def)
qed

subsection \<open>A run\<close>

text \<open>Everything opens, then a subsystem fails.\<close>

definition sample_boot :: "int boot" where
  "sample_boot = \<lparr>bo_version = ''dev'', bo_exporter = (\<lambda>a b w. (None, w)), bo_resource = (\<lambda>a b w. (None, w)),
     bo_open_db = (\<lambda>a b w. (None, w)), bo_migrate = (\<lambda>w. (None, w)), bo_storage = (\<lambda>a w. (None, w)),
     bo_queue = (\<lambda>a w. (None, w)), bo_llm = (\<lambda>a w. (None, w)),
     bo_wait = (\<lambda>w. (SubsystemFailed ''http: address in use'', w)), bo_shutdown = (\<lambda>t w. (None, w))\<rparr>"

definition tls_config_env :: config_env where
  "tls_config_env = sample_config_env\<lparr>ce_getenv := \<lambda>n.
     if n = ''VLS_TLS_CERT_FILE'' then ''cert.pem'' else if n = ''VLS_TLS_KEY_FILE'' then ''key.pem'' else []\<rparr>"

lemma tls_loaded:
  "\<exists>cfg. Load tls_config_env [] = Inr cfg \<and> tls_cert_file (sv_tls (cf_server cfg)) = ''cert.pem''
     \<and> tls_key_file (sv_tls (cf_server cfg)) = ''key.pem'' \<and> tls_min_version (sv_tls (cf_server cfg)) = []
     \<and> cf_engine cfg = sample_engine \<and> sv_addr (cf_server cfg) = '':8080''"
proof -
  let ?c = "applyEnvOverrides (ce_getenv tls_config_env) (Default sample_engine)"
  have f: "load_file tls_config_env [] (Default (ce_engine_default tls_config_env)) = Inr (Default sample_engine)"
    by (simp add: load_file_def tls_config_env_def sample_config_env_def)
  have "Validate (ce_engine_validate tls_config_env) ?c = None"
    by (simp add: Validate_None_iff config_ok_def applyEnvOverrides_def auth_env_fields server_env_fields
        tracing_env_def override_def tls_config_env_def sample_config_env_def Default_def or_else_def)
  then have "Load tls_config_env [] = Inr ?c"
    by (simp only: Load_def f sum.case Let_def option.case)
  then show ?thesis
    by (simp add: applyEnvOverrides_def server_env_fields engine_env_eq tls_config_env_def or_else_def
        Default_def)
qed

lemma sample_run:
  assumes "cf_engine cfg = sample_engine"
  shows "\<exists>evs. run sample_boot (Inr cfg) ''server'' 0 = (evs, None, 0)
    \<and> Listening (sv_addr (cf_server cfg)) (sv_read_timeout (cf_server cfg))
                      (sv_write_timeout (cf_server cfg)) (listener_of (cf_server cfg)) \<in> set evs
    \<and> Woken (SubsystemFailed ''http: address in use'') \<in> set evs"
  using assms
  by (simp add: run_def start_up_def and_then_def start_tracing_def InitTracer_def start_db_def start_storage_def
      start_queue_def start_engine_def serve_def subsystems_def returns_def process_eqs sample_boot_def buildStorage_def buildQueue_def buildLLM_def sample_engine_def Let_def)

text \<open>The resource fails to merge (two schemas in conflict): the exporter stays open.\<close>

lemma exporter_is_leaked:
  assumes "tc_enabled (cf_tracing cfg)"
  shows "holding (fst (run (sample_boot\<lparr>bo_resource := \<lambda>a b w. (Some ''conflicting Schema URL'', w)\<rparr>) (Inr cfg) role 0)) []
    = Some [ExporterRes]"
  using assms
  by (simp add: run_def start_up_def and_then_def start_tracing_def InitTracer_def returns_def process_eqs sample_boot_def)

lemma failure_exits_with_success_witness:
  "exit_status (run sample_boot (Inr (Default sample_engine)) ''server'' 0) = 0"
proof -
  obtain evs where "run sample_boot (Inr (Default sample_engine)) ''server'' 0 = (evs, None, 0)"
    "Woken (SubsystemFailed ''http: address in use'') \<in> set evs"
    using sample_run [of "Default sample_engine"] by (auto simp: Default_def)
  then show ?thesis by (rule conjunct1 [OF failure_exits_with_success])
qed

lemma run_serves_when_ready_witness:
  "\<exists>evs cfg sd qd ld wk. fst (run sample_boot (Inr (Default sample_engine)) ''server'' 0) = evs
     \<and> evs = startup_events cfg sd qd ld @ serving_events cfg ''server'' wk @ closing_events cfg"
proof -
  obtain evs where "run sample_boot (Inr (Default sample_engine)) ''server'' 0 = (evs, None, 0)"
    using sample_run [of "Default sample_engine"] by (auto simp: Default_def)
  then show ?thesis using run_serves_when_ready by fastforce
qed

lemma tls_is_not_downgraded_witness:
  "\<exists>evs rt wt. fst (run sample_boot (Load tls_config_env []) ''server'' 0) = evs
     \<and> Listening '':8080'' rt wt (DirectTLS ''cert.pem'' ''key.pem'' (Some VersionTLS12)) \<in> set evs"
proof -
  obtain cfg where l: "Load tls_config_env [] = Inr cfg" and c: "tls_cert_file (sv_tls (cf_server cfg)) = ''cert.pem''"
    "tls_key_file (sv_tls (cf_server cfg)) = ''key.pem''" "tls_min_version (sv_tls (cf_server cfg)) = []"
    "cf_engine cfg = sample_engine" "sv_addr (cf_server cfg) = '':8080''"
    using tls_loaded by blast
  obtain evs where r: "run sample_boot (Load tls_config_env []) ''server'' 0 = (evs, None, 0)"
    "Listening (sv_addr (cf_server cfg)) (sv_read_timeout (cf_server cfg))
                      (sv_write_timeout (cf_server cfg)) (listener_of (cf_server cfg)) \<in> set evs"
    using sample_run [OF c(4)] l by auto
  show ?thesis using tls_is_not_downgraded [OF l r] r c by auto
qed

end
