(* ===== verification/Server_Threads.thy ===== *)
theory Server_Threads
  imports Server_Main
begin

text \<open>
  The concurrent end of \<open>run\<close> (\<open>cmd/server/main.go\<close>, from the start of the subsystems on): the main
  goroutine, the goroutine of the queue workers, the goroutine of the listener, and the channel
  \<open>errs\<close> of capacity 2 between them. A step is one of one goroutine, or the arrival of a signal.
  \<open>queue.Start\<close> and \<open>ListenAndServe\<close> return when they like and with any error, except that
  \<open>ErrServerClosed\<close> is returned only once \<open>Shutdown\<close> has been called. The threads start from the
  process that \<open>start_up\<close> leaves: its log goes on, and what it has deferred is what the main
  goroutine does at its return. Whether the queue's \<open>Close\<close>
  waits until \<open>Start\<close> has returned is a matter of the engine, and a parameter (\<open>waits\<close>).
\<close>

datatype goroutine = NotStarted | Running | Reporting string | Finished

datatype main_pc = Selecting | Draining | Deferring

record threads =
  th_main :: main_pc
  th_worker :: goroutine
  th_listener :: goroutine
  th_errs :: "string list"
  th_cancelled :: bool
  th_log :: "boot_event list"
  th_defers :: "boot_event list"

definition errs_capacity :: nat where
  "errs_capacity = 2"

definition threads_start :: "Config \<Rightarrow> string \<Rightarrow> 'w process \<Rightarrow> threads" where
  "threads_start cfg role p =
     \<lparr>th_main = Selecting, th_worker = Running, th_listener = (if role = ''server'' then Running else NotStarted),
      th_errs = [], th_cancelled = False, th_log = pr_log p @ subsystems cfg role, th_defers = pr_defers p\<rparr>"

text \<open>What the main goroutine does once the \<open>select\<close> is over.\<close>

definition after_select :: "string \<Rightarrow> main_pc" where
  "after_select role = (if role = ''server'' then Draining else Deferring)"

definition listen_error :: "Config \<Rightarrow> string \<Rightarrow> string" where
  "listen_error cfg err =
     (if TLS_Enabled (sv_tls (cf_server cfg)) then ''https: '' else ''http: '') @ err"

inductive thread_step :: "Config \<Rightarrow> string \<Rightarrow> bool \<Rightarrow> threads \<Rightarrow> threads \<Rightarrow> bool"
  for cfg :: Config and role :: string and waits :: bool where
  worker_ends:
    "th_worker s = Running \<Longrightarrow> thread_step cfg role waits s (s\<lparr>th_worker := Finished\<rparr>)"
| worker_fails:
    "th_worker s = Running \<Longrightarrow>
     thread_step cfg role waits s (s\<lparr>th_worker := Reporting (''queue: '' @ err)\<rparr>)"
| worker_reports:
    "th_worker s = Reporting err \<Longrightarrow> length (th_errs s) < errs_capacity \<Longrightarrow>
     thread_step cfg role waits s (s\<lparr>th_worker := Finished, th_errs := th_errs s @ [err]\<rparr>)"
| listener_closed:
    "th_listener s = Running \<Longrightarrow> th_main s \<noteq> Selecting \<Longrightarrow>
     thread_step cfg role waits s (s\<lparr>th_listener := Finished\<rparr>)"
| listener_fails:
    "th_listener s = Running \<Longrightarrow>
     thread_step cfg role waits s (s\<lparr>th_listener := Reporting (listen_error cfg err)\<rparr>)"
| listener_reports:
    "th_listener s = Reporting err \<Longrightarrow> length (th_errs s) < errs_capacity \<Longrightarrow>
     thread_step cfg role waits s (s\<lparr>th_listener := Finished, th_errs := th_errs s @ [err]\<rparr>)"
| signal:
    "\<not> th_cancelled s \<Longrightarrow> thread_step cfg role waits s (s\<lparr>th_cancelled := True\<rparr>)"
| woken_by_signal:
    "th_main s = Selecting \<Longrightarrow> th_cancelled s \<Longrightarrow>
     thread_step cfg role waits s
       (s\<lparr>th_main := after_select role, th_log := th_log s @ [Woken ShutdownSignal]\<rparr>)"
| woken_by_error:
    "th_main s = Selecting \<Longrightarrow> th_errs s = err # errs \<Longrightarrow>
     thread_step cfg role waits s
       (s\<lparr>th_main := after_select role, th_errs := errs, th_cancelled := True,
          th_log := th_log s @ [Woken (SubsystemFailed err)]\<rparr>)"
| drained:
    "th_main s = Draining \<Longrightarrow>
     thread_step cfg role waits s
       (s\<lparr>th_main := Deferring, th_log := th_log s @ [ServerShutdown (drain_timeout (cf_server cfg))]\<rparr>)"
| deferred:
    "th_main s = Deferring \<Longrightarrow> th_defers s = ev # evs \<Longrightarrow> (ev = QueueClosed \<and> waits \<Longrightarrow> th_worker s = Finished) \<Longrightarrow>
     thread_step cfg role waits s (s\<lparr>th_defers := evs, th_log := th_log s @ [ev]\<rparr>)"

inductive thread_reach :: "'w boot \<Rightarrow> Config \<Rightarrow> string \<Rightarrow> 'w \<Rightarrow> bool \<Rightarrow> nat \<Rightarrow> threads \<Rightarrow> bool"
  for bo :: "'w boot" and cfg :: Config and role :: string and w :: 'w and waits :: bool where
  start: "start_up bo cfg w = (None, p) \<Longrightarrow> thread_reach bo cfg role w waits 0 (threads_start cfg role p)"
| step: "thread_reach bo cfg role w waits n s \<Longrightarrow> thread_step cfg role waits s t \<Longrightarrow>
    thread_reach bo cfg role w waits (Suc n) t"

inductive_cases thread_stepE: "thread_step cfg role waits s t"

lemmas thread_steps = thread_step.intros

definition returned :: "threads \<Rightarrow> bool" where
  "returned s \<longleftrightarrow> th_main s = Deferring \<and> th_defers s = []"

subsection \<open>The channel has room for every report\<close>

text \<open>The reports a goroutine may still make.\<close>

fun reports_left :: "goroutine \<Rightarrow> nat" where
  "reports_left Running = 1"
| "reports_left (Reporting e) = 1"
| "reports_left g = 0"

definition room :: "threads \<Rightarrow> bool" where
  "room s \<longleftrightarrow> length (th_errs s) + reports_left (th_worker s) + reports_left (th_listener s) \<le> errs_capacity"

lemma room_start: "room (threads_start cfg role p)"
  by (simp add: room_def threads_start_def errs_capacity_def)

lemma room_step: "thread_step cfg role waits s t \<Longrightarrow> room s \<Longrightarrow> room t"
  by (erule thread_stepE) (auto simp: room_def)

lemma room_reach: "thread_reach bo cfg role w waits n s \<Longrightarrow> room s"
  by (induction rule: thread_reach.induct) (auto intro: room_start room_step)

lemma room_reports:
  "room s \<Longrightarrow> th_worker s = Reporting e \<or> th_listener s = Reporting e \<Longrightarrow> length (th_errs s) < errs_capacity"
  by (auto simp: room_def)

subsection \<open>Every run is short\<close>

fun goroutine_rank :: "goroutine \<Rightarrow> nat" where
  "goroutine_rank Running = 2"
| "goroutine_rank (Reporting e) = 1"
| "goroutine_rank g = 0"

fun main_rank :: "main_pc \<Rightarrow> nat" where
  "main_rank Selecting = 2"
| "main_rank Draining = 1"
| "main_rank Deferring = 0"

definition rank :: "threads \<Rightarrow> nat" where
  "rank s = main_rank (th_main s) + length (th_defers s) + goroutine_rank (th_worker s)
     + goroutine_rank (th_listener s) + (if th_cancelled s then 0 else 1)"

lemma main_rank_after: "main_rank (after_select role) < main_rank Selecting"
  by (simp add: after_select_def)

lemma rank_step: "thread_step cfg role waits s t \<Longrightarrow> rank t < rank s"
  using main_rank_after [of role] by (erule_tac thread_stepE) (auto simp: rank_def)

lemma rank_start: "start_up bo cfg w = (None, p) \<Longrightarrow> rank (threads_start cfg role p) \<le> 11"
  by (drule start_up_done) (auto simp: rank_def threads_start_def closing_events_def tracing_defers_def)

lemma rank_reach: "thread_reach bo cfg role w waits n s \<Longrightarrow> n + rank s \<le> 11"
proof (induction rule: thread_reach.induct)
  case (start p)
  then show ?case using rank_start [of bo cfg w p role] by simp
qed (auto dest: rank_step)

lemma worker_started: "thread_reach bo cfg role w waits n s \<Longrightarrow> th_worker s \<noteq> NotStarted"
  by (induction rule: thread_reach.induct) (auto simp: threads_start_def elim: thread_stepE)

lemma stuck_returned:
  assumes "thread_reach bo cfg role w waits n s" "\<And>t. \<not> thread_step cfg role waits s t"
  shows "returned s \<and> th_worker s = Finished \<and> th_listener s \<in> {NotStarted, Finished}"
proof -
  note room = room_reports [OF room_reach [OF assms(1)]]
  have w: "th_worker s = Finished"
    using worker_started [OF assms(1)] assms(2) room thread_steps(1,3) by (cases "th_worker s") blast+
  have l: "th_listener s \<in> {NotStarted, Finished}"
    using assms(2) room thread_steps(5,6) by (cases "th_listener s") blast+
  have "th_cancelled s" using assms(2) thread_steps(7) by blast
  then have "returned s"
    using assms(2) thread_steps(8,10,11) w unfolding returned_def
    by (cases "th_main s") (blast, blast, metis list.exhaust)
  with w l show ?thesis by simp
qed

subsection \<open>The log of the main goroutine\<close>

text \<open>The errors that can end the wait: of the workers, and in the role \<open>server\<close> of the listener.\<close>

definition reportable :: "Config \<Rightarrow> string \<Rightarrow> string \<Rightarrow> bool" where
  "reportable cfg role err \<longleftrightarrow>
     (\<exists>x. err = ''queue: '' @ x \<or> role = ''server'' \<and> err = listen_error cfg x)"

definition reports_ok :: "Config \<Rightarrow> string \<Rightarrow> threads \<Rightarrow> bool" where
  "reports_ok cfg role s \<longleftrightarrow> (\<forall>e \<in> set (th_errs s). reportable cfg role e)
     \<and> (\<forall>e. th_worker s = Reporting e \<or> th_listener s = Reporting e \<longrightarrow> reportable cfg role e)
     \<and> (th_listener s \<noteq> NotStarted \<longrightarrow> role = ''server'')"

lemma reports_ok_step: "thread_step cfg role waits s t \<Longrightarrow> reports_ok cfg role s \<Longrightarrow> reports_ok cfg role t"
  by (erule thread_stepE) (auto simp: reports_ok_def reportable_def)

lemma reports_ok_reach: "thread_reach bo cfg role w waits n s \<Longrightarrow> reports_ok cfg role s"
proof (induction rule: thread_reach.induct)
  case (start p)
  show ?case by (simp add: reports_ok_def threads_start_def)
qed (rule reports_ok_step)

definition wake_ok :: "Config \<Rightarrow> string \<Rightarrow> wake \<Rightarrow> bool" where
  "wake_ok cfg role wk \<longleftrightarrow> (\<forall>e. wk = SubsystemFailed e \<longrightarrow> reportable cfg role e)"

definition log_ok :: "'w process \<Rightarrow> Config \<Rightarrow> string \<Rightarrow> threads \<Rightarrow> bool" where
  "log_ok p cfg role s \<longleftrightarrow>
     (case th_main s of
        Selecting \<Rightarrow> th_log s = pr_log p @ subsystems cfg role \<and> th_defers s = pr_defers p
      | Draining \<Rightarrow> role = ''server'' \<and> th_defers s = pr_defers p
          \<and> (\<exists>wk. wake_ok cfg role wk \<and> th_log s = pr_log p @ subsystems cfg role @ [Woken wk])
      | Deferring \<Rightarrow> (\<exists>wk past. wake_ok cfg role wk \<and> pr_defers p = past @ th_defers s
          \<and> th_log s = pr_log p @ serving_events cfg role wk @ past))"

lemma log_ok_cong:
  "log_ok p cfg role s \<Longrightarrow> th_main t = th_main s \<Longrightarrow> th_log t = th_log s \<Longrightarrow> th_defers t = th_defers s \<Longrightarrow>
     log_ok p cfg role t"
  unfolding log_ok_def by (simp only:)

lemma log_ok_woken:
  assumes "th_log s = pr_log p @ subsystems cfg role" "th_defers s = pr_defers p" "wake_ok cfg role wk"
    "th_main t = after_select role" "th_log t = th_log s @ [Woken wk]" "th_defers t = th_defers s"
  shows "log_ok p cfg role t"
  using assms by (auto simp: log_ok_def after_select_def serving_events_def)

lemma log_ok_step:
  assumes "thread_step cfg role waits s t" "log_ok p cfg role s" "reports_ok cfg role s"
  shows "log_ok p cfg role t"
  using assms(1)
proof cases
  case woken_by_signal
  then show ?thesis
    using assms(2) by (intro log_ok_woken [of s p cfg role ShutdownSignal]) (auto simp: log_ok_def wake_ok_def)
next
  case (woken_by_error err errs)
  then have "wake_ok cfg role (SubsystemFailed err)" using assms(3) by (simp add: wake_ok_def reports_ok_def)
  with woken_by_error show ?thesis
    using assms(2) by (intro log_ok_woken [of s p cfg role "SubsystemFailed err"]) (auto simp: log_ok_def)
next
  case drained
  then obtain wk where "role = ''server''" "wake_ok cfg role wk" "th_defers s = pr_defers p"
      "th_log s = pr_log p @ subsystems cfg role @ [Woken wk]"
    using assms(2) by (auto simp: log_ok_def)
  with drained show ?thesis by (auto simp: log_ok_def serving_events_def)
next
  case (deferred ev evs)
  then obtain wk past where "wake_ok cfg role wk" "pr_defers p = past @ ev # evs"
      "th_log s = pr_log p @ serving_events cfg role wk @ past"
    using assms(2) by (auto simp: log_ok_def)
  with deferred show ?thesis by (auto simp: log_ok_def intro!: exI [of _ wk] exI [of _ "past @ [ev]"])
qed (auto intro: log_ok_cong [OF assms(2)])

lemma log_ok_reach:
  "thread_reach bo cfg role w waits n s \<Longrightarrow> \<exists>p. start_up bo cfg w = (None, p) \<and> log_ok p cfg role s"
proof (induction rule: thread_reach.induct)
  case (start p)
  then show ?case by (auto simp: log_ok_def threads_start_def)
next
  case (step n s t)
  then obtain p where "start_up bo cfg w = (None, p)" "log_ok p cfg role s" by blast
  with log_ok_step [OF step.hyps(2) this(2) reports_ok_reach [OF step.hyps(1)]] show ?case by blast
qed

text \<open>The three stages of the main goroutine, by what the whole process has done.\<close>

lemma reach_cases:
  assumes "thread_reach bo cfg role w waits n s"
  obtains (selecting) sd qd ld where "th_main s = Selecting"
      "th_log s = startup_events cfg sd qd ld @ subsystems cfg role"
  | (draining) sd qd ld wk where "th_main s = Draining" "role = ''server''"
      "th_log s = startup_events cfg sd qd ld @ subsystems cfg role @ [Woken wk]"
  | (deferring) sd qd ld wk past where "th_main s = Deferring" "wake_ok cfg role wk"
      "th_log s = startup_events cfg sd qd ld @ serving_events cfg role wk @ past"
      "closing_events cfg = past @ th_defers s"
proof -
  obtain p where p: "start_up bo cfg w = (None, p)" "log_ok p cfg role s" using log_ok_reach [OF assms] by blast
  obtain sd qd ld where "pr_log p = startup_events cfg sd qd ld" "pr_defers p = closing_events cfg"
    using start_up_done [OF p(1)] by blast
  with p(2) that show thesis by (cases "th_main s") (auto simp: log_ok_def)
qed

subsection \<open>What is held, and when\<close>

lemma waited_step:
  assumes "thread_step cfg role True s t" "QueueClosed \<in> set (th_log s) \<longrightarrow> th_worker s = Finished"
  shows "QueueClosed \<in> set (th_log t) \<longrightarrow> th_worker t = Finished"
  using assms by (elim thread_stepE) auto

lemma waited_reach: "thread_reach bo cfg role w True n s \<Longrightarrow> QueueClosed \<in> set (th_log s) \<longrightarrow> th_worker s = Finished"
proof (induction rule: thread_reach.induct)
  case (start p)
  obtain sd qd ld where "pr_log p = startup_events cfg sd qd ld" using start_up_done [OF start] by blast
  then show ?case by (simp add: threads_start_def startup_events_def subsystems_def tracing_events_def db_opened_def)
next
  case (step n s t)
  then show ?case using waited_step by blast
qed

lemmas event_lists =
  startup_events_def subsystems_def serving_events_def tracing_events_def tracing_defers_def db_opened_def managed_def

text \<open>The stack of what is held, at each stage.\<close>

definition held_at_start :: "Config \<Rightarrow> resource list" where
  "held_at_start cfg = [LLMRes, QueueRes, StorageRes, DbRes] @ (if tc_enabled (cf_tracing cfg) then [ExporterRes] else [])"

lemma holding_started: "holding (startup_events cfg sd qd ld) [] = Some (held_at_start cfg)"
  by (simp add: event_lists held_at_start_def)

lemma holding_subsystems:
  "holding (subsystems cfg role) st = Some (if role = ''server'' then ServerRes # st else st)"
  by (simp add: subsystems_def)

lemma holding_serving: "holding (serving_events cfg role wk) st = Some st"
  by (simp add: event_lists)

text \<open>The closing events one by one: the queue before the pool, the pool before the exporter.\<close>

lemma holding_closed:
  assumes "k \<le> 4"
  shows "\<exists>st. holding (take k (closing_events cfg)) (held_at_start cfg) = Some st \<and> ServerRes \<notin> set st
    \<and> (drop k (closing_events cfg) = [] \<longrightarrow> st = [LLMRes, StorageRes]) \<and> (DbRes \<notin> set st \<longrightarrow> QueueRes \<notin> set st)
    \<and> (QueueRes \<notin> set st \<longrightarrow> QueueClosed \<in> set (take k (closing_events cfg)))"
proof -
  from assms consider "k = 0" | "k = 1" | "k = 2" | "k = 3" | "k = 4" by linarith
  then show ?thesis
    by cases (simp_all add: closing_events_def held_at_start_def tracing_defers_def managed_def numeral_eq_Suc)
qed

lemma holding_past:
  assumes "closing_events cfg = past @ left"
  shows "\<exists>st. holding past (held_at_start cfg) = Some st \<and> ServerRes \<notin> set st
    \<and> (left = [] \<longrightarrow> st = [LLMRes, StorageRes]) \<and> (DbRes \<notin> set st \<longrightarrow> QueueRes \<notin> set st)
    \<and> (QueueRes \<notin> set st \<longrightarrow> QueueClosed \<in> set past)"
proof -
  have "length (closing_events cfg) \<le> 4" by (simp add: closing_events_def tracing_defers_def)
  then have "length past \<le> 4" unfolding assms by simp
  from holding_closed [OF this, of cfg] show ?thesis by (simp add: assms)
qed

lemma db_after_queue:
  assumes "thread_reach bo cfg role w waits n s" "DbClosed \<in> set (th_log s)"
  shows "QueueClosed \<in> set (th_log s)"
  using assms(1)
proof (cases rule: reach_cases)
  case (deferring sd qd ld wk past)
  then have "DbClosed \<in> set past" using assms(2) by (auto simp: event_lists split: if_splits)
  with deferring(4) have "QueueClosed \<in> set past" by (cases past) (auto simp: closing_events_def)
  with deferring(3) show ?thesis by simp
qed (use assms(2) in \<open>auto simp: event_lists split: if_splits\<close>)

subsection \<open>Runs that return\<close>

lemma defers_run:
  "thread_reach bo cfg role w waits n s \<Longrightarrow> th_main s = Deferring \<Longrightarrow> th_defers s = evs \<Longrightarrow>
     (waits \<Longrightarrow> th_worker s = Finished) \<Longrightarrow>
     \<exists>n' t. thread_reach bo cfg role w waits n' t \<and> returned t \<and> th_log t = th_log s @ evs \<and> th_worker t = th_worker s"
proof (induction evs arbitrary: n s)
  case Nil
  then show ?case by (auto simp: returned_def)
next
  case (Cons ev evs)
  let ?t = "s\<lparr>th_defers := evs, th_log := th_log s @ [ev]\<rparr>"
  have "thread_reach bo cfg role w waits (Suc n) ?t"
    by (rule thread_reach.step [OF Cons.prems(1) deferred]) (use Cons.prems in auto)
  from Cons.IH [OF this] Cons.prems(2,4) show ?case by auto
qed

lemma awake_run:
  assumes "thread_reach bo cfg role w waits n s" "th_main s = after_select role" "waits \<longrightarrow> th_worker s = Finished"
    "th_log s = pr_log p @ subsystems cfg role @ [Woken wk]" "th_defers s = pr_defers p"
  shows "\<exists>n' t. thread_reach bo cfg role w waits n' t \<and> returned t \<and> th_worker t = th_worker s
    \<and> th_log t = pr_log p @ serving_events cfg role wk @ pr_defers p"
proof (cases "role = ''server''")
  case True
  let ?t = "s\<lparr>th_main := Deferring, th_log := th_log s @ [ServerShutdown (drain_timeout (cf_server cfg))]\<rparr>"
  have "thread_reach bo cfg role w waits (Suc n) ?t"
    by (rule thread_reach.step [OF assms(1) drained]) (simp add: assms(2) after_select_def True)
  from defers_run [OF this] assms(3,4,5) True show ?thesis by (auto simp: serving_events_def)
next
  case False
  with assms(2) have "th_main s = Deferring" by (simp add: after_select_def)
  from defers_run [OF assms(1) this] assms(3,4,5) False show ?thesis by (auto simp: serving_events_def)
qed

lemma start_simps [simp]:
  "th_main (threads_start cfg role p) = Selecting" "th_worker (threads_start cfg role p) = Running"
  "th_errs (threads_start cfg role p) = []" "\<not> th_cancelled (threads_start cfg role p)"
  "th_listener (threads_start cfg role p) = (if role = ''server'' then Running else NotStarted)"
  "th_log (threads_start cfg role p) = pr_log p @ subsystems cfg role"
  "th_defers (threads_start cfg role p) = pr_defers p"
  by (simp_all add: threads_start_def)

text \<open>A signal arrives; the worker ends if it is waited for, else it does not notice.\<close>

lemma signal_run:
  assumes "start_up bo cfg w = (None, p)"
  shows "\<exists>n t. thread_reach bo cfg role w waits n t \<and> returned t \<and> th_worker t = (if waits then Finished else Running)
    \<and> th_log t = pr_log p @ serving_events cfg role ShutdownSignal @ pr_defers p"
proof -
  let ?s0 = "threads_start cfg role p"
  let ?s1 = "?s0\<lparr>th_cancelled := True\<rparr>"
  let ?s2 = "?s1\<lparr>th_main := after_select role, th_log := th_log ?s1 @ [Woken ShutdownSignal]\<rparr>"
  have 1: "thread_reach bo cfg role w waits (Suc 0) ?s1"
    by (rule thread_reach.step [OF thread_reach.start signal]) (simp_all add: assms)
  have 2: "thread_reach bo cfg role w waits (Suc (Suc 0)) ?s2"
    by (rule thread_reach.step [OF 1 woken_by_signal]) simp_all
  show ?thesis
  proof (cases waits)
    case True
    have "thread_reach bo cfg role w waits (Suc (Suc (Suc 0))) (?s2\<lparr>th_worker := Finished\<rparr>)"
      by (rule thread_reach.step [OF 2 worker_ends]) simp
    from awake_run [OF this, of p ShutdownSignal] True show ?thesis by auto
  next
    case False
    from awake_run [OF 2, of p ShutdownSignal] False show ?thesis by auto
  qed
qed

text \<open>A subsystem fails.\<close>

lemma failure_run:
  assumes "start_up bo cfg w = (None, p)" "reportable cfg role err"
  shows "\<exists>n t. thread_reach bo cfg role w waits n t \<and> returned t
    \<and> th_log t = pr_log p @ serving_events cfg role (SubsystemFailed err) @ pr_defers p"
proof -
  let ?s0 = "threads_start cfg role p"
  note start = thread_reach.start [OF assms(1), of role waits]
  obtain n s where s: "thread_reach bo cfg role w waits n s" "th_main s = Selecting" "th_errs s = [err]"
    "th_worker s = Finished" "th_log s = th_log ?s0" "th_defers s = th_defers ?s0"
  proof -
    from assms(2) consider x where "err = ''queue: '' @ x" | x where "role = ''server''" "err = listen_error cfg x"
      by (auto simp: reportable_def)
    then show thesis
    proof cases
      case 1
      let ?s1 = "?s0\<lparr>th_worker := Reporting err\<rparr>"
      have "thread_reach bo cfg role w waits (Suc 0) ?s1"
        unfolding 1 by (rule thread_reach.step [OF start worker_fails]) simp
      then have "thread_reach bo cfg role w waits (Suc (Suc 0)) (?s1\<lparr>th_worker := Finished, th_errs := th_errs ?s1 @ [err]\<rparr>)"
        by (rule thread_reach.step [OF _ worker_reports]) (simp_all add: errs_capacity_def)
      then show thesis by (rule that) simp_all
    next
      case 2
      let ?s1 = "?s0\<lparr>th_worker := Finished\<rparr>"
      let ?s2 = "?s1\<lparr>th_listener := Reporting err\<rparr>"
      have "thread_reach bo cfg role w waits (Suc 0) ?s1"
        by (rule thread_reach.step [OF start worker_ends]) simp
      then have "thread_reach bo cfg role w waits (Suc (Suc 0)) ?s2"
        unfolding 2(2) by (rule thread_reach.step [OF _ listener_fails]) (simp add: 2(1))
      then have "thread_reach bo cfg role w waits (Suc (Suc (Suc 0)))
          (?s2\<lparr>th_listener := Finished, th_errs := th_errs ?s2 @ [err]\<rparr>)"
        by (rule thread_reach.step [OF _ listener_reports]) (simp_all add: errs_capacity_def)
      then show thesis by (rule that) simp_all
    qed
  qed
  let ?t = "s\<lparr>th_main := after_select role, th_errs := [], th_cancelled := True,
      th_log := th_log s @ [Woken (SubsystemFailed err)]\<rparr>"
  have "thread_reach bo cfg role w waits (Suc n) ?t"
    by (rule thread_reach.step [OF s(1) woken_by_error]) (simp_all add: s)
  from awake_run [OF this, of p "SubsystemFailed err"] s show ?thesis by auto
qed

text \<open>The sequential run with its wait ended by \<open>wk\<close>: the wait plays no part in the start-up.\<close>

abbreviation waking :: "wake \<Rightarrow> 'w boot \<Rightarrow> 'w boot" where
  "waking wk bo \<equiv> bo\<lparr>bo_wait := \<lambda>w. (wk, w)\<rparr>"

lemma waking_fields:
  "bo_version (waking wk bo) = bo_version bo" "bo_exporter (waking wk bo) = bo_exporter bo"
  "bo_resource (waking wk bo) = bo_resource bo" "bo_open_db (waking wk bo) = bo_open_db bo"
  "bo_migrate (waking wk bo) = bo_migrate bo" "bo_storage (waking wk bo) = bo_storage bo"
  "bo_queue (waking wk bo) = bo_queue bo" "bo_llm (waking wk bo) = bo_llm bo"
  by simp_all

lemma start_up_waking: "start_up (waking wk bo) cfg w = start_up bo cfg w"
  unfolding start_up_def start_tracing_def [abs_def] InitTracer_def start_db_def [abs_def]
      start_storage_def [abs_def] start_queue_def [abs_def] start_engine_def [abs_def] waking_fields
  by (rule refl)

lemma run_waking:
  assumes "start_up bo cfg w = (None, p)"
  shows "fst (run (waking wk bo) (Inr cfg) role w) = pr_log p @ serving_events cfg role wk @ pr_defers p"
  using assms by (simp add: run_def start_up_waking returns_def serve_def serving_events_def process_eqs)

text \<open>The logs of the processes that have returned are the traces of the runs that start up.\<close>

lemma threads_refine_run:
  assumes "start_up bo cfg w = (None, p)"
  shows "{th_log s | n s. thread_reach bo cfg role w waits n s \<and> returned s}
   = {fst (run (waking wk bo) (Inr cfg) role w) | wk. wake_ok cfg role wk}"
proof -
  have "\<exists>wk. wake_ok cfg role wk \<and> th_log s = pr_log p @ serving_events cfg role wk @ pr_defers p"
    if "thread_reach bo cfg role w waits n s" "returned s" for n s
    using log_ok_reach [OF that(1)] that(2) assms by (auto simp: log_ok_def returned_def)
  moreover have "\<exists>n s. thread_reach bo cfg role w waits n s \<and> returned s
      \<and> th_log s = pr_log p @ serving_events cfg role wk @ pr_defers p" if "wake_ok cfg role wk" for wk
  proof (cases wk)
    case ShutdownSignal
    then show ?thesis using signal_run [OF assms, of role waits] by blast
  next
    case (SubsystemFailed err)
    with that show ?thesis using failure_run [OF assms, of role err waits] by (simp add: wake_ok_def)
  qed
  ultimately show ?thesis
    unfolding run_waking [OF assms] by (intro set_eqI) (simp only: mem_Collect_eq, metis)
qed

lemma returned_is_run:
  assumes "thread_reach bo cfg role w waits n s" "returned s"
  shows "\<exists>wk. wake_ok cfg role wk \<and> th_log s = fst (run (waking wk bo) (Inr cfg) role w)"
proof -
  obtain p where "start_up bo cfg w = (None, p)" using log_ok_reach [OF assms(1)] by blast
  from threads_refine_run [OF this, of role waits] assms show ?thesis by blast
qed

subsection \<open>Properties\<close>

text \<open>C12. The concurrent end of the process: however the goroutines, the signal and the \<open>select\<close> are
  interleaved, a goroutine that has an error to report never blocks on the channel; every run
  ends after at most 11 steps; and a run that cannot go on has returned from \<open>run\<close> with everything
  deferred done and no goroutine left behind.\<close>

theorem process_terminates:
  assumes "thread_reach bo cfg role w waits n s"
  shows "n \<le> 11
    \<and> (\<forall>e. th_worker s = Reporting e \<or> th_listener s = Reporting e \<longrightarrow> length (th_errs s) < errs_capacity)
    \<and> ((\<forall>t. \<not> thread_step cfg role waits s t) \<longrightarrow>
        returned s \<and> th_worker s = Finished \<and> th_listener s \<in> {NotStarted, Finished})"
proof (intro conjI allI impI)
  show "n \<le> 11" using rank_reach [OF assms] by simp
qed (use room_reports [OF room_reach [OF assms]] stuck_returned [OF assms] in blast)+

text \<open>C13. An orderly shutdown, in every interleaving: at every moment of the concurrent process what
  it has done releases nothing out of order, twice, or without having acquired it; the HTTP
  server is only ever up while the queue and the database are open, and all of them are up until
  the wait is over; the pool is not closed before the queue, and a queue whose \<open>Close\<close> waits is
  closed only after the workers have ended; the server is shut down with the configured drain
  timeout, 15 seconds by default; and a process that has returned holds nothing but the clients
  \<open>run\<close> never closes, and has done exactly what the sequential \<open>run\<close> does when its wait is ended
  by a signal or by an error that a subsystem of its role can report.\<close>

theorem shutdown_is_orderly:
  assumes "thread_reach bo cfg role w waits n s"
  shows "(\<exists>st. holding (th_log s) [] = Some st
      \<and> (ServerRes \<in> set st \<longrightarrow> QueueRes \<in> set st \<and> DbRes \<in> set st)
      \<and> (th_main s = Selecting \<longrightarrow> QueueRes \<in> set st \<and> DbRes \<in> set st \<and> (role = ''server'' \<longrightarrow> ServerRes \<in> set st))
      \<and> (DbRes \<notin> set st \<longrightarrow> QueueRes \<notin> set st)
      \<and> (waits \<and> QueueRes \<notin> set st \<longrightarrow> th_worker s = Finished)
      \<and> (returned s \<longrightarrow> st = [LLMRes, StorageRes]))
    \<and> (\<forall>t. ServerShutdown t \<in> set (th_log s) \<longrightarrow>
        t = (if sv_drain_timeout (cf_server cfg) = 0 then 15 * second else sv_drain_timeout (cf_server cfg)))
    \<and> (returned s \<longrightarrow> (\<exists>wk. wake_ok cfg role wk
        \<and> th_log s = fst (run (bo\<lparr>bo_wait := \<lambda>w. (wk, w)\<rparr>) (Inr cfg) role w)))"
proof (intro conjI)
  show "returned s \<longrightarrow> (\<exists>wk. wake_ok cfg role wk
        \<and> th_log s = fst (run (bo\<lparr>bo_wait := \<lambda>w. (wk, w)\<rparr>) (Inr cfg) role w))"
    using returned_is_run [OF assms] by blast
  show "\<forall>t. ServerShutdown t \<in> set (th_log s) \<longrightarrow>
        t = (if sv_drain_timeout (cf_server cfg) = 0 then 15 * second else sv_drain_timeout (cf_server cfg))"
    by (rule reach_cases [OF assms]) (auto simp: event_lists drain_timeout_def closing_events_def
        append_eq_Cons_conv Cons_eq_append_conv split: if_splits)
  from assms show "\<exists>st. holding (th_log s) [] = Some st
      \<and> (ServerRes \<in> set st \<longrightarrow> QueueRes \<in> set st \<and> DbRes \<in> set st)
      \<and> (th_main s = Selecting \<longrightarrow> QueueRes \<in> set st \<and> DbRes \<in> set st \<and> (role = ''server'' \<longrightarrow> ServerRes \<in> set st))
      \<and> (DbRes \<notin> set st \<longrightarrow> QueueRes \<notin> set st)
      \<and> (waits \<and> QueueRes \<notin> set st \<longrightarrow> th_worker s = Finished)
      \<and> (returned s \<longrightarrow> st = [LLMRes, StorageRes])"
  proof (cases rule: reach_cases)
    case (deferring sd qd ld wk past)
    obtain st where st: "holding past (held_at_start cfg) = Some st" "ServerRes \<notin> set st"
      "th_defers s = [] \<longrightarrow> st = [LLMRes, StorageRes]" "DbRes \<notin> set st \<longrightarrow> QueueRes \<notin> set st"
      "QueueRes \<notin> set st \<longrightarrow> QueueClosed \<in> set past"
      using holding_past [OF deferring(4)] by blast
    have "holding (th_log s) [] = Some st"
      unfolding deferring(3) by (simp add: holding_append holding_started holding_serving st(1))
    moreover have "waits \<and> QueueRes \<notin> set st \<longrightarrow> th_worker s = Finished"
      using waited_reach assms st(5) deferring(3) by fastforce
    ultimately show ?thesis using st deferring(1) by (auto simp: returned_def)
  qed (auto simp: holding_append holding_started holding_subsystems held_at_start_def returned_def)
qed

text \<open>The database may be closed under the workers: \<open>run\<close> itself never waits for the worker
  goroutine, so the pool is closed only after the workers have stopped if, and only if, the
  engine's \<open>Close\<close> of the queue waits for its \<open>Start\<close> to return.\<close>

theorem db_outlives_workers_iff:
  assumes "start_up bo cfg w = (None, p)"
  shows "(\<forall>n s. thread_reach bo cfg role w waits n s \<longrightarrow> DbClosed \<in> set (th_log s) \<longrightarrow> th_worker s = Finished)
    \<longleftrightarrow> waits"
proof
  assume safe: "\<forall>n s. thread_reach bo cfg role w waits n s \<longrightarrow> DbClosed \<in> set (th_log s) \<longrightarrow> th_worker s = Finished"
  have "DbClosed \<in> set (pr_defers p)" using start_up_done [OF assms] by (auto simp: closing_events_def)
  with safe signal_run [OF assms, of role waits] show waits by (cases waits) auto
next
  assume w: waits
  show "\<forall>n s. thread_reach bo cfg role w waits n s \<longrightarrow> DbClosed \<in> set (th_log s) \<longrightarrow> th_worker s = Finished"
  proof (intro allI impI)
    fix n s
    assume r: "thread_reach bo cfg role w waits n s" "DbClosed \<in> set (th_log s)"
    from waited_reach [of bo cfg role w n s] db_after_queue [OF r] r(1) w show "th_worker s = Finished" by simp
  qed
qed

subsection \<open>A process\<close>

lemma sample_start_up: "\<exists>p. start_up sample_boot (Default sample_engine) 0 = (None, p)"
  by (simp add: start_up_def and_then_def start_tracing_def start_db_def start_storage_def start_queue_def
      start_engine_def process_eqs sample_boot_def buildStorage_def buildQueue_def buildLLM_def sample_engine_def
      Default_def Let_def)

lemma sample_process:
  "\<exists>n s. thread_reach sample_boot (Default sample_engine) ''server'' 0 False n s \<and> returned s
    \<and> th_worker s = Running"
proof -
  obtain p where "start_up sample_boot (Default sample_engine) 0 = (None, p)" using sample_start_up by blast
  from signal_run [OF this, of "''server''" False] show ?thesis by auto
qed

lemma process_terminates_witness:
  "\<exists>n s. thread_reach sample_boot (Default sample_engine) ''server'' 0 False n s \<and> returned s \<and> n \<le> 11
    \<and> th_worker s = Running"
proof -
  obtain n s where s: "thread_reach sample_boot (Default sample_engine) ''server'' 0 False n s" "returned s"
      "th_worker s = Running"
    using sample_process by blast
  with process_terminates [OF s(1)] show ?thesis by blast
qed

lemma shutdown_is_orderly_witness:
  "\<exists>n s. thread_reach sample_boot (Default sample_engine) ''server'' 0 False n s \<and> returned s
    \<and> holding (th_log s) [] = Some [LLMRes, StorageRes]"
proof -
  obtain n s where s: "thread_reach sample_boot (Default sample_engine) ''server'' 0 False n s" "returned s"
    using sample_process by blast
  with shutdown_is_orderly [OF s(1)] show ?thesis by blast
qed

end
