(* ===== verification/Connect_Services.thy ===== *)
theory Connect_Services
  imports Rpc_Query Router
begin

text \<open>
  The generated service code (\<open>gen/vectorless/v1/vectorlessv1connect\<close>) and the mounting of the RPC
  services in the router. For each service: the names of its procedures, the interface its
  implementation satisfies, the implementation that refuses every method, the handler that
  dispatches on the path, and the client with the URLs it posts to. The runtime that turns a
  method into an HTTP handler is a parameter (\<open>connect_lib\<close>, one field for each instance of the
  generic \<open>NewUnaryHandler\<close> and \<open>NewServerStreamHandler\<close>); a \<open>connect.Client\<close> is the URL it is made with.
\<close>

subsection \<open>Methods\<close>

text \<open>A unary method; no result is a panic. A streaming method is given the stream's \<open>Send\<close>.\<close>

type_synonym ('w, 'q, 'a) unary_method =
  "ctx \<Rightarrow> 'q rpc_request \<Rightarrow> 'w st \<Rightarrow> (rpc_error, 'a) result option \<times> 'w st"

type_synonym ('w, 'q, 'm) server_stream =
  "ctx \<Rightarrow> 'q rpc_request \<Rightarrow> ('m \<Rightarrow> 'w \<Rightarrow> go_error option \<times> 'w) \<Rightarrow> 'w st \<Rightarrow> stream_error option \<times> 'w st"

definition returns :: "('w, 'a) unary \<Rightarrow> 'w st \<Rightarrow> (rpc_error, 'a) result option \<times> 'w st" where
  "returns m s = (case m s of (res, s1) \<Rightarrow> (Some res, s1))"

definition unimplemented :: "string \<Rightarrow> ('w, 'q, 'a) unary_method" where
  "unimplemented name c req s =
     (Some (Inl (NewError CodeUnimplemented (Some (name @ '' is not implemented'')))), s)"

definition unimplemented_stream :: "string \<Rightarrow> ('w, 'q, 'm) server_stream" where
  "unimplemented_stream name c req send s =
     (Some (Coded (NewError CodeUnimplemented (Some (name @ '' is not implemented'')))), s)"

definition NotFound :: "'w handler" where
  "NotFound w r s = reply (http_error ''404 page not found'' 404) s"

record 'w connect_lib =
  cl_create :: "string \<Rightarrow> ('w, CreateDocumentRequest, CreateDocumentResponse) unary_method \<Rightarrow> 'w handler"
  cl_get :: "string \<Rightarrow> ('w, DocumentIdRequest, ProtoDocument) unary_method \<Rightarrow> 'w handler"
  cl_list :: "string \<Rightarrow> ('w, ListDocumentsRequest, ListDocumentsResponse) unary_method \<Rightarrow> 'w handler"
  cl_delete :: "string \<Rightarrow> ('w, DocumentIdRequest, unit) unary_method \<Rightarrow> 'w handler"
  cl_tree :: "string \<Rightarrow> ('w, DocumentIdRequest, DocumentTree) unary_method \<Rightarrow> 'w handler"
  cl_source :: "string \<Rightarrow> ('w, DocumentIdRequest, string) server_stream \<Rightarrow> 'w handler"
  cl_section :: "string \<Rightarrow> ('w, GetSectionRequest, ProtoSection) unary_method \<Rightarrow> 'w handler"
  cl_query :: "string \<Rightarrow> ('w, QueryRequest, QueryResponse) unary_method \<Rightarrow> 'w handler"
  cl_stream :: "string \<Rightarrow> ('w, QueryRequest, QueryStreamEvent) server_stream \<Rightarrow> 'w handler"
  cl_multi :: "string \<Rightarrow> ('w, QueryMultiRequest, QueryMultiResponse) unary_method \<Rightarrow> 'w handler"
  cl_multi_stream :: "string \<Rightarrow> ('w, QueryMultiRequest, QueryMultiStreamEvent) server_stream \<Rightarrow> 'w handler"
  cl_check :: "string \<Rightarrow> ('w, unit, string) unary_method \<Rightarrow> 'w handler"
  cl_version :: "string \<Rightarrow> ('w, unit, string) unary_method \<Rightarrow> 'w handler"

subsection \<open>DocumentsService\<close>

definition DocumentsServiceCreateDocumentProcedure :: string where
  "DocumentsServiceCreateDocumentProcedure = ''/vectorless.v1.DocumentsService/CreateDocument''"

definition DocumentsServiceGetDocumentProcedure :: string where
  "DocumentsServiceGetDocumentProcedure = ''/vectorless.v1.DocumentsService/GetDocument''"

definition DocumentsServiceListDocumentsProcedure :: string where
  "DocumentsServiceListDocumentsProcedure = ''/vectorless.v1.DocumentsService/ListDocuments''"

definition DocumentsServiceDeleteDocumentProcedure :: string where
  "DocumentsServiceDeleteDocumentProcedure = ''/vectorless.v1.DocumentsService/DeleteDocument''"

definition DocumentsServiceGetDocumentTreeProcedure :: string where
  "DocumentsServiceGetDocumentTreeProcedure = ''/vectorless.v1.DocumentsService/GetDocumentTree''"

definition DocumentsServiceGetDocumentSourceProcedure :: string where
  "DocumentsServiceGetDocumentSourceProcedure = ''/vectorless.v1.DocumentsService/GetDocumentSource''"

definition DocumentsServiceGetSectionProcedure :: string where
  "DocumentsServiceGetSectionProcedure = ''/vectorless.v1.DocumentsService/GetSection''"

record 'w DocumentsServiceHandler =
  ds_create :: "('w, CreateDocumentRequest, CreateDocumentResponse) unary_method"
  ds_get :: "('w, DocumentIdRequest, ProtoDocument) unary_method"
  ds_list :: "('w, ListDocumentsRequest, ListDocumentsResponse) unary_method"
  ds_delete :: "('w, DocumentIdRequest, unit) unary_method"
  ds_tree :: "('w, DocumentIdRequest, DocumentTree) unary_method"
  ds_source :: "('w, DocumentIdRequest, string) server_stream"
  ds_section :: "('w, GetSectionRequest, ProtoSection) unary_method"

definition UnimplementedDocumentsServiceHandler :: "'w DocumentsServiceHandler" where
  "UnimplementedDocumentsServiceHandler =
     \<lparr>ds_create = unimplemented ''vectorless.v1.DocumentsService.CreateDocument'',
      ds_get = unimplemented ''vectorless.v1.DocumentsService.GetDocument'',
      ds_list = unimplemented ''vectorless.v1.DocumentsService.ListDocuments'',
      ds_delete = unimplemented ''vectorless.v1.DocumentsService.DeleteDocument'',
      ds_tree = unimplemented ''vectorless.v1.DocumentsService.GetDocumentTree'',
      ds_source = unimplemented_stream ''vectorless.v1.DocumentsService.GetDocumentSource'',
      ds_section = unimplemented ''vectorless.v1.DocumentsService.GetSection''\<rparr>"

definition NewDocumentsServiceHandler :: "'w connect_lib \<Rightarrow> 'w DocumentsServiceHandler \<Rightarrow> string \<times> 'w handler" where
  "NewDocumentsServiceHandler cl svc =
     (''/vectorless.v1.DocumentsService/'',
      \<lambda>w r s.
        if r_path r = DocumentsServiceCreateDocumentProcedure
        then cl_create cl DocumentsServiceCreateDocumentProcedure (ds_create svc) w r s
        else if r_path r = DocumentsServiceGetDocumentProcedure
        then cl_get cl DocumentsServiceGetDocumentProcedure (ds_get svc) w r s
        else if r_path r = DocumentsServiceListDocumentsProcedure
        then cl_list cl DocumentsServiceListDocumentsProcedure (ds_list svc) w r s
        else if r_path r = DocumentsServiceDeleteDocumentProcedure
        then cl_delete cl DocumentsServiceDeleteDocumentProcedure (ds_delete svc) w r s
        else if r_path r = DocumentsServiceGetDocumentTreeProcedure
        then cl_tree cl DocumentsServiceGetDocumentTreeProcedure (ds_tree svc) w r s
        else if r_path r = DocumentsServiceGetDocumentSourceProcedure
        then cl_source cl DocumentsServiceGetDocumentSourceProcedure (ds_source svc) w r s
        else if r_path r = DocumentsServiceGetSectionProcedure
        then cl_section cl DocumentsServiceGetSectionProcedure (ds_section svc) w r s
        else NotFound w r s)"

record DocumentsServiceClient =
  dc_create :: string
  dc_get :: string
  dc_list :: string
  dc_delete :: string
  dc_tree :: string
  dc_source :: string
  dc_section :: string

definition NewDocumentsServiceClient :: "string \<Rightarrow> DocumentsServiceClient" where
  "NewDocumentsServiceClient baseURL =
     (let base = trim_right_byte baseURL (CHR ''/'') in
      \<lparr>dc_create = base @ DocumentsServiceCreateDocumentProcedure,
       dc_get = base @ DocumentsServiceGetDocumentProcedure,
       dc_list = base @ DocumentsServiceListDocumentsProcedure,
       dc_delete = base @ DocumentsServiceDeleteDocumentProcedure,
       dc_tree = base @ DocumentsServiceGetDocumentTreeProcedure,
       dc_source = base @ DocumentsServiceGetDocumentSourceProcedure,
       dc_section = base @ DocumentsServiceGetSectionProcedure\<rparr>)"

subsection \<open>QueryService\<close>

definition QueryServiceQueryProcedure :: string where
  "QueryServiceQueryProcedure = ''/vectorless.v1.QueryService/Query''"

definition QueryServiceQueryStreamProcedure :: string where
  "QueryServiceQueryStreamProcedure = ''/vectorless.v1.QueryService/QueryStream''"

definition QueryServiceQueryMultiProcedure :: string where
  "QueryServiceQueryMultiProcedure = ''/vectorless.v1.QueryService/QueryMulti''"

definition QueryServiceQueryMultiStreamProcedure :: string where
  "QueryServiceQueryMultiStreamProcedure = ''/vectorless.v1.QueryService/QueryMultiStream''"

record 'w QueryServiceHandler =
  qs_query :: "('w, QueryRequest, QueryResponse) unary_method"
  qs_stream :: "('w, QueryRequest, QueryStreamEvent) server_stream"
  qs_multi :: "('w, QueryMultiRequest, QueryMultiResponse) unary_method"
  qs_multi_stream :: "('w, QueryMultiRequest, QueryMultiStreamEvent) server_stream"

definition UnimplementedQueryServiceHandler :: "'w QueryServiceHandler" where
  "UnimplementedQueryServiceHandler =
     \<lparr>qs_query = unimplemented ''vectorless.v1.QueryService.Query'',
      qs_stream = unimplemented_stream ''vectorless.v1.QueryService.QueryStream'',
      qs_multi = unimplemented ''vectorless.v1.QueryService.QueryMulti'',
      qs_multi_stream = unimplemented_stream ''vectorless.v1.QueryService.QueryMultiStream''\<rparr>"

definition NewQueryServiceHandler :: "'w connect_lib \<Rightarrow> 'w QueryServiceHandler \<Rightarrow> string \<times> 'w handler" where
  "NewQueryServiceHandler cl svc =
     (''/vectorless.v1.QueryService/'',
      \<lambda>w r s.
        if r_path r = QueryServiceQueryProcedure
        then cl_query cl QueryServiceQueryProcedure (qs_query svc) w r s
        else if r_path r = QueryServiceQueryStreamProcedure
        then cl_stream cl QueryServiceQueryStreamProcedure (qs_stream svc) w r s
        else if r_path r = QueryServiceQueryMultiProcedure
        then cl_multi cl QueryServiceQueryMultiProcedure (qs_multi svc) w r s
        else if r_path r = QueryServiceQueryMultiStreamProcedure
        then cl_multi_stream cl QueryServiceQueryMultiStreamProcedure (qs_multi_stream svc) w r s
        else NotFound w r s)"

record QueryServiceClient =
  qc_query :: string
  qc_stream :: string
  qc_multi :: string
  qc_multi_stream :: string

definition NewQueryServiceClient :: "string \<Rightarrow> QueryServiceClient" where
  "NewQueryServiceClient baseURL =
     (let base = trim_right_byte baseURL (CHR ''/'') in
      \<lparr>qc_query = base @ QueryServiceQueryProcedure,
       qc_stream = base @ QueryServiceQueryStreamProcedure,
       qc_multi = base @ QueryServiceQueryMultiProcedure,
       qc_multi_stream = base @ QueryServiceQueryMultiStreamProcedure\<rparr>)"

subsection \<open>HealthService\<close>

definition HealthServiceCheckProcedure :: string where
  "HealthServiceCheckProcedure = ''/vectorless.v1.HealthService/Check''"

definition HealthServiceVersionProcedure :: string where
  "HealthServiceVersionProcedure = ''/vectorless.v1.HealthService/Version''"

record 'w HealthServiceHandler =
  hs_check :: "('w, unit, string) unary_method"
  hs_version :: "('w, unit, string) unary_method"

definition UnimplementedHealthServiceHandler :: "'w HealthServiceHandler" where
  "UnimplementedHealthServiceHandler =
     \<lparr>hs_check = unimplemented ''vectorless.v1.HealthService.Check'',
      hs_version = unimplemented ''vectorless.v1.HealthService.Version''\<rparr>"

definition NewHealthServiceHandler :: "'w connect_lib \<Rightarrow> 'w HealthServiceHandler \<Rightarrow> string \<times> 'w handler" where
  "NewHealthServiceHandler cl svc =
     (''/vectorless.v1.HealthService/'',
      \<lambda>w r s.
        if r_path r = HealthServiceCheckProcedure
        then cl_check cl HealthServiceCheckProcedure (hs_check svc) w r s
        else if r_path r = HealthServiceVersionProcedure
        then cl_version cl HealthServiceVersionProcedure (hs_version svc) w r s
        else NotFound w r s)"

record HealthServiceClient =
  hc_check :: string
  hc_version :: string

definition NewHealthServiceClient :: "string \<Rightarrow> HealthServiceClient" where
  "NewHealthServiceClient baseURL =
     (let base = trim_right_byte baseURL (CHR ''/'') in
      \<lparr>hc_check = base @ HealthServiceCheckProcedure,
       hc_version = base @ HealthServiceVersionProcedure\<rparr>)"

subsection \<open>The implementations\<close>

text \<open>
  The structs of \<open>internal/connecthandler\<close>: they embed the refusing implementation and override
  its methods. \<open>reads\<close> is how a storage reader hands out a blob.
\<close>

definition NewDocumentsService :: "'w deps \<Rightarrow> (nat \<Rightarrow> blob \<Rightarrow> reads) \<Rightarrow> 'w DocumentsServiceHandler" where
  "NewDocumentsService d reads =
     UnimplementedDocumentsServiceHandler
       \<lparr>ds_create := (\<lambda>c req. returns (CreateDocument d c req)),
        ds_get := (\<lambda>c req. returns (GetDocument d c req)),
        ds_list := (\<lambda>c req. returns (ListDocuments d c req)),
        ds_delete := (\<lambda>c req. returns (DeleteDocument d c req)),
        ds_tree := (\<lambda>c req. returns (GetDocumentTree d c req)),
        ds_source := (\<lambda>c req send s. case GetDocumentSource d reads send c req s of
           (sent, res, s1) \<Rightarrow> (map_option Coded res, s1)),
        ds_section := (\<lambda>c req. returns (GetSection d c req))\<rparr>"

definition NewQueryService :: "'w env \<Rightarrow> 'w deps \<Rightarrow> 'w QueryServiceHandler" where
  "NewQueryService e d =
     UnimplementedQueryServiceHandler
       \<lparr>qs_query := (\<lambda>c req. returns (Query e d c req)),
        qs_stream := (\<lambda>c req send s. case QueryStream e d send c req s of (sent, res, s1) \<Rightarrow> (res, s1)),
        qs_multi := QueryMulti e d,
        qs_multi_stream := (\<lambda>c req send s. case QueryMultiStream d send c req s of
           (sent, res, s1) \<Rightarrow> (map_option Coded res, s1))\<rparr>"

definition NewHealthService :: "string \<Rightarrow> 'w HealthServiceHandler" where
  "NewHealthService version =
     UnimplementedHealthServiceHandler
       \<lparr>hs_check := (\<lambda>c req. returns HealthCheck), hs_version := (\<lambda>c req. returns (HealthVersion version))\<rparr>"

text \<open>What the router mounts.\<close>

definition connect_mounts ::
  "'w connect_lib \<Rightarrow> 'w env \<Rightarrow> 'w deps \<Rightarrow> (nat \<Rightarrow> blob \<Rightarrow> reads) \<Rightarrow> 'w handler \<Rightarrow> 'w mounts" where
  "connect_mounts cl e d reads prometheus =
     \<lparr>mn_health = NewHealthServiceHandler cl (NewHealthService (dp_version d)),
      mn_documents = NewDocumentsServiceHandler cl (NewDocumentsService d reads),
      mn_query = NewQueryServiceHandler cl (NewQueryService e d),
      mn_prometheus = prometheus\<rparr>"

lemmas procedures = DocumentsServiceCreateDocumentProcedure_def DocumentsServiceGetDocumentProcedure_def DocumentsServiceListDocumentsProcedure_def DocumentsServiceDeleteDocumentProcedure_def DocumentsServiceGetDocumentTreeProcedure_def DocumentsServiceGetDocumentSourceProcedure_def DocumentsServiceGetSectionProcedure_def QueryServiceQueryProcedure_def QueryServiceQueryStreamProcedure_def QueryServiceQueryMultiProcedure_def QueryServiceQueryMultiStreamProcedure_def HealthServiceCheckProcedure_def HealthServiceVersionProcedure_def

subsection \<open>From a client to a method\<close>

text \<open>The procedures, each with the URL a client with this base posts to and the method it is for.\<close>

definition rpc_methods ::
  "'w connect_lib \<Rightarrow> 'w env \<Rightarrow> 'w deps \<Rightarrow> (nat \<Rightarrow> blob \<Rightarrow> reads) \<Rightarrow> string \<Rightarrow>
     ((string \<times> 'w handler) \<times> string \<times> string \<times> 'w handler) list" where
  "rpc_methods cl e d reads base =
     (let m = connect_mounts cl e d reads (\<lambda>w r s. reply [] s); docs = mn_documents m; query = mn_query m;
          health = mn_health m; dc = NewDocumentsServiceClient base; qc = NewQueryServiceClient base;
          hc = NewHealthServiceClient base in
        [(docs, dc_create dc, ''/vectorless.v1.DocumentsService/CreateDocument'',
          cl_create cl ''/vectorless.v1.DocumentsService/CreateDocument'' (\<lambda>c req. returns (CreateDocument d c req))),
         (docs, dc_get dc, ''/vectorless.v1.DocumentsService/GetDocument'',
          cl_get cl ''/vectorless.v1.DocumentsService/GetDocument'' (\<lambda>c req. returns (GetDocument d c req))),
         (docs, dc_list dc, ''/vectorless.v1.DocumentsService/ListDocuments'',
          cl_list cl ''/vectorless.v1.DocumentsService/ListDocuments'' (\<lambda>c req. returns (ListDocuments d c req))),
         (docs, dc_delete dc, ''/vectorless.v1.DocumentsService/DeleteDocument'',
          cl_delete cl ''/vectorless.v1.DocumentsService/DeleteDocument'' (\<lambda>c req. returns (DeleteDocument d c req))),
         (docs, dc_tree dc, ''/vectorless.v1.DocumentsService/GetDocumentTree'',
          cl_tree cl ''/vectorless.v1.DocumentsService/GetDocumentTree'' (\<lambda>c req. returns (GetDocumentTree d c req))),
         (docs, dc_source dc, ''/vectorless.v1.DocumentsService/GetDocumentSource'',
          cl_source cl ''/vectorless.v1.DocumentsService/GetDocumentSource'' (\<lambda>c req send s. case GetDocumentSource d reads send c req s of
             (sent, res, s1) \<Rightarrow> (map_option Coded res, s1))),
         (docs, dc_section dc, ''/vectorless.v1.DocumentsService/GetSection'',
          cl_section cl ''/vectorless.v1.DocumentsService/GetSection'' (\<lambda>c req. returns (GetSection d c req))),
         (query, qc_query qc, ''/vectorless.v1.QueryService/Query'',
          cl_query cl ''/vectorless.v1.QueryService/Query'' (\<lambda>c req. returns (Query e d c req))),
         (query, qc_stream qc, ''/vectorless.v1.QueryService/QueryStream'',
          cl_stream cl ''/vectorless.v1.QueryService/QueryStream'' (\<lambda>c req send s. case QueryStream e d send c req s of (sent, res, s1) \<Rightarrow> (res, s1))),
         (query, qc_multi qc, ''/vectorless.v1.QueryService/QueryMulti'',
          cl_multi cl ''/vectorless.v1.QueryService/QueryMulti'' (QueryMulti e d)),
         (query, qc_multi_stream qc, ''/vectorless.v1.QueryService/QueryMultiStream'',
          cl_multi_stream cl ''/vectorless.v1.QueryService/QueryMultiStream'' (\<lambda>c req send s. case QueryMultiStream d send c req s of
             (sent, res, s1) \<Rightarrow> (map_option Coded res, s1))),
         (health, hc_check hc, ''/vectorless.v1.HealthService/Check'',
          cl_check cl ''/vectorless.v1.HealthService/Check'' (\<lambda>c req. returns HealthCheck)),
         (health, hc_version hc, ''/vectorless.v1.HealthService/Version'',
          cl_version cl ''/vectorless.v1.HealthService/Version'' (\<lambda>c req. returns (HealthVersion (dp_version d))))])"

text \<open>What the middleware makes of a procedure's path.\<close>

definition rpc_path_ok :: "string \<Rightarrow> string \<Rightarrow> bool" where
  "rpc_path_ok mount proc \<longleftrightarrow>
     has_prefix proc mount \<and> (isQueryPath proc \<longleftrightarrow> mount = ''/vectorless.v1.QueryService/'')
     \<and> \<not> isInternalPath proc \<and> \<not> excluded proc \<and> \<not> matchesAnyPrefix proc [''/v1/documents'']"

lemma rpc_paths_ok:
  "rpc_path_ok ''/vectorless.v1.DocumentsService/'' ''/vectorless.v1.DocumentsService/CreateDocument''"
  "rpc_path_ok ''/vectorless.v1.DocumentsService/'' ''/vectorless.v1.DocumentsService/GetDocument''"
  "rpc_path_ok ''/vectorless.v1.DocumentsService/'' ''/vectorless.v1.DocumentsService/ListDocuments''"
  "rpc_path_ok ''/vectorless.v1.DocumentsService/'' ''/vectorless.v1.DocumentsService/DeleteDocument''"
  "rpc_path_ok ''/vectorless.v1.DocumentsService/'' ''/vectorless.v1.DocumentsService/GetDocumentTree''"
  "rpc_path_ok ''/vectorless.v1.DocumentsService/'' ''/vectorless.v1.DocumentsService/GetDocumentSource''"
  "rpc_path_ok ''/vectorless.v1.DocumentsService/'' ''/vectorless.v1.DocumentsService/GetSection''"
  "rpc_path_ok ''/vectorless.v1.QueryService/'' ''/vectorless.v1.QueryService/Query''"
  "rpc_path_ok ''/vectorless.v1.QueryService/'' ''/vectorless.v1.QueryService/QueryStream''"
  "rpc_path_ok ''/vectorless.v1.QueryService/'' ''/vectorless.v1.QueryService/QueryMulti''"
  "rpc_path_ok ''/vectorless.v1.QueryService/'' ''/vectorless.v1.QueryService/QueryMultiStream''"
  "rpc_path_ok ''/vectorless.v1.HealthService/'' ''/vectorless.v1.HealthService/Check''"
  "rpc_path_ok ''/vectorless.v1.HealthService/'' ''/vectorless.v1.HealthService/Version''"
  by code_simp+

text \<open>C28. The RPC routes, for all thirteen methods: the URL a generated client posts to is its base URL
  without trailing slashes followed by the procedure's path; that path is under the path its
  service is mounted on; the mounted handler runs on it exactly the method of the same name of
  the server's own implementation, never the refusing one; and for the middleware it is behind
  authentication, gets the deadline of queries exactly when it is a method of the query
  service, and is not subject to the idempotency cache.\<close>

theorem rpc_client_reaches_method:
  assumes "((mount, h), url, proc, method) \<in> set (rpc_methods cl e d reads base)" "r_path r = proc"
  shows "url = trim_right_byte base (CHR ''/'') @ proc \<and> h w r s = method w r s \<and> rpc_path_ok mount proc"
  using assms
  by (auto simp: rpc_methods_def connect_mounts_def NewDocumentsServiceHandler_def NewQueryServiceHandler_def
      NewHealthServiceHandler_def NewDocumentsServiceClient_def NewQueryServiceClient_def
      NewHealthServiceClient_def NewDocumentsService_def NewQueryService_def NewHealthService_def
      procedures Let_def rpc_paths_ok)

text \<open>A runtime that answers every call with the name of the procedure.\<close>

definition sample_connect_lib :: "'w connect_lib" where
  "sample_connect_lib = \<lparr>cl_create = (\<lambda>p m w r s. reply [WriteBytes p] s),
     cl_get = (\<lambda>p m w r s. reply [WriteBytes p] s),
     cl_list = (\<lambda>p m w r s. reply [WriteBytes p] s),
     cl_delete = (\<lambda>p m w r s. reply [WriteBytes p] s),
     cl_tree = (\<lambda>p m w r s. reply [WriteBytes p] s),
     cl_source = (\<lambda>p m w r s. reply [WriteBytes p] s),
     cl_section = (\<lambda>p m w r s. reply [WriteBytes p] s),
     cl_query = (\<lambda>p m w r s. reply [WriteBytes p] s),
     cl_stream = (\<lambda>p m w r s. reply [WriteBytes p] s),
     cl_multi = (\<lambda>p m w r s. reply [WriteBytes p] s),
     cl_multi_stream = (\<lambda>p m w r s. reply [WriteBytes p] s),
     cl_check = (\<lambda>p m w r s. reply [WriteBytes p] s),
     cl_version = (\<lambda>p m w r s. reply [WriteBytes p] s)\<rparr>"

lemma rpc_client_reaches_method_witness:
  "response (snd (NewDocumentsServiceHandler sample_connect_lib (NewDocumentsService sample_deps (\<lambda>n b. ([], bl_data b))))
     plain_writer (sample_request ''POST'' ''/vectorless.v1.DocumentsService/CreateDocument'' [] []) sample_state)
   = respond [WriteBytes ''/vectorless.v1.DocumentsService/CreateDocument'']
   \<and> dc_create (NewDocumentsServiceClient ''http://h/'') = ''http://h/vectorless.v1.DocumentsService/CreateDocument''"
proof -
  let ?reads = "\<lambda>(n :: nat) b. ([] :: string list, bl_data b)"
  let ?D = "mn_documents (connect_mounts sample_connect_lib sample_env sample_deps ?reads (\<lambda>w r s. reply [] s))"
  let ?p = "''/vectorless.v1.DocumentsService/CreateDocument''"
  let ?r = "sample_request ''POST'' ?p [] []"
  have m: "((fst ?D, snd ?D), dc_create (NewDocumentsServiceClient ''http://h/''), ?p,
      cl_create sample_connect_lib ?p (\<lambda>c req. returns (CreateDocument sample_deps c req)))
      \<in> set (rpc_methods sample_connect_lib sample_env sample_deps ?reads ''http://h/'')"
    by (simp add: rpc_methods_def Let_def)
  have r: "r_path ?r = ?p" by (simp add: sample_request_def)
  have t: "trim_right_byte ''http://h/'' (CHR ''/'') = ''http://h''" by code_simp
  show ?thesis
    using rpc_client_reaches_method [OF m r, of plain_writer sample_state] t
    by (simp add: connect_mounts_def) (simp add: sample_connect_lib_def reply_def response_def)
qed

end
