(* ===== verification/Rpc_Clients.thy ===== *)
theory Rpc_Clients
  imports Connect_Services
begin

text \<open>
  The generated clients (\<open>gen/vectorless/v1/vectorlessv1connect\<close>): the interface a caller sees and
  the methods that implement it, each of which hands its request to the \<open>connect.Client\<close> of its
  own procedure. \<open>CallUnary\<close> and \<open>CallServerStream\<close> are the Connect library's (\<open>connect_calls\<close>, one
  field for each instance), given the URL of the client they are called on.
\<close>

text \<open>A call gives an error or an answer; a stream gives an error or the messages it delivers
  before it ends, and the error it ends with.\<close>

type_synonym ('w, 'q, 'a) call_unary =
  "ctx \<Rightarrow> 'q rpc_request \<Rightarrow> 'w \<Rightarrow> (rpc_error, 'a) result \<times> 'w"

type_synonym ('w, 'q, 'm) call_server_stream =
  "ctx \<Rightarrow> 'q rpc_request \<Rightarrow> 'w \<Rightarrow> (rpc_error, 'm list \<times> rpc_error option) result \<times> 'w"

record 'w connect_calls =
  ca_create :: "string \<Rightarrow> ('w, CreateDocumentRequest, CreateDocumentResponse) call_unary"
  ca_get :: "string \<Rightarrow> ('w, DocumentIdRequest, ProtoDocument) call_unary"
  ca_list :: "string \<Rightarrow> ('w, ListDocumentsRequest, ListDocumentsResponse) call_unary"
  ca_delete :: "string \<Rightarrow> ('w, DocumentIdRequest, unit) call_unary"
  ca_tree :: "string \<Rightarrow> ('w, DocumentIdRequest, DocumentTree) call_unary"
  ca_source :: "string \<Rightarrow> ('w, DocumentIdRequest, string) call_server_stream"
  ca_section :: "string \<Rightarrow> ('w, GetSectionRequest, ProtoSection) call_unary"
  ca_query :: "string \<Rightarrow> ('w, QueryRequest, QueryResponse) call_unary"
  ca_stream :: "string \<Rightarrow> ('w, QueryRequest, QueryStreamEvent) call_server_stream"
  ca_multi :: "string \<Rightarrow> ('w, QueryMultiRequest, QueryMultiResponse) call_unary"
  ca_multi_stream :: "string \<Rightarrow> ('w, QueryMultiRequest, QueryMultiStreamEvent) call_server_stream"
  ca_check :: "string \<Rightarrow> ('w, unit, string) call_unary"
  ca_version :: "string \<Rightarrow> ('w, unit, string) call_unary"

subsection \<open>DocumentsService\<close>

record 'w DocumentsServiceAPI =
  da_create :: "('w, CreateDocumentRequest, CreateDocumentResponse) call_unary"
  da_get :: "('w, DocumentIdRequest, ProtoDocument) call_unary"
  da_list :: "('w, ListDocumentsRequest, ListDocumentsResponse) call_unary"
  da_delete :: "('w, DocumentIdRequest, unit) call_unary"
  da_tree :: "('w, DocumentIdRequest, DocumentTree) call_unary"
  da_source :: "('w, DocumentIdRequest, string) call_server_stream"
  da_section :: "('w, GetSectionRequest, ProtoSection) call_unary"

definition documentsServiceClient_CreateDocument ::
  "'w connect_calls \<Rightarrow> DocumentsServiceClient \<Rightarrow> ('w, CreateDocumentRequest, CreateDocumentResponse) call_unary" where
  "documentsServiceClient_CreateDocument ca c = ca_create ca (dc_create c)"

definition documentsServiceClient_GetDocument ::
  "'w connect_calls \<Rightarrow> DocumentsServiceClient \<Rightarrow> ('w, DocumentIdRequest, ProtoDocument) call_unary" where
  "documentsServiceClient_GetDocument ca c = ca_get ca (dc_get c)"

definition documentsServiceClient_ListDocuments ::
  "'w connect_calls \<Rightarrow> DocumentsServiceClient \<Rightarrow> ('w, ListDocumentsRequest, ListDocumentsResponse) call_unary" where
  "documentsServiceClient_ListDocuments ca c = ca_list ca (dc_list c)"

definition documentsServiceClient_DeleteDocument ::
  "'w connect_calls \<Rightarrow> DocumentsServiceClient \<Rightarrow> ('w, DocumentIdRequest, unit) call_unary" where
  "documentsServiceClient_DeleteDocument ca c = ca_delete ca (dc_delete c)"

definition documentsServiceClient_GetDocumentTree ::
  "'w connect_calls \<Rightarrow> DocumentsServiceClient \<Rightarrow> ('w, DocumentIdRequest, DocumentTree) call_unary" where
  "documentsServiceClient_GetDocumentTree ca c = ca_tree ca (dc_tree c)"

definition documentsServiceClient_GetDocumentSource ::
  "'w connect_calls \<Rightarrow> DocumentsServiceClient \<Rightarrow> ('w, DocumentIdRequest, string) call_server_stream" where
  "documentsServiceClient_GetDocumentSource ca c = ca_source ca (dc_source c)"

definition documentsServiceClient_GetSection ::
  "'w connect_calls \<Rightarrow> DocumentsServiceClient \<Rightarrow> ('w, GetSectionRequest, ProtoSection) call_unary" where
  "documentsServiceClient_GetSection ca c = ca_section ca (dc_section c)"

text \<open>The struct as a value of the interface.\<close>

definition documentsServiceClient ::
  "'w connect_calls \<Rightarrow> DocumentsServiceClient \<Rightarrow> 'w DocumentsServiceAPI" where
  "documentsServiceClient ca c =
     \<lparr>da_create = documentsServiceClient_CreateDocument ca c,
      da_get = documentsServiceClient_GetDocument ca c,
      da_list = documentsServiceClient_ListDocuments ca c,
      da_delete = documentsServiceClient_DeleteDocument ca c,
      da_tree = documentsServiceClient_GetDocumentTree ca c,
      da_source = documentsServiceClient_GetDocumentSource ca c,
      da_section = documentsServiceClient_GetSection ca c\<rparr>"

subsection \<open>QueryService\<close>

record 'w QueryServiceAPI =
  qa_query :: "('w, QueryRequest, QueryResponse) call_unary"
  qa_stream :: "('w, QueryRequest, QueryStreamEvent) call_server_stream"
  qa_multi :: "('w, QueryMultiRequest, QueryMultiResponse) call_unary"
  qa_multi_stream :: "('w, QueryMultiRequest, QueryMultiStreamEvent) call_server_stream"

definition queryServiceClient_Query ::
  "'w connect_calls \<Rightarrow> QueryServiceClient \<Rightarrow> ('w, QueryRequest, QueryResponse) call_unary" where
  "queryServiceClient_Query ca c = ca_query ca (qc_query c)"

definition queryServiceClient_QueryStream ::
  "'w connect_calls \<Rightarrow> QueryServiceClient \<Rightarrow> ('w, QueryRequest, QueryStreamEvent) call_server_stream" where
  "queryServiceClient_QueryStream ca c = ca_stream ca (qc_stream c)"

definition queryServiceClient_QueryMulti ::
  "'w connect_calls \<Rightarrow> QueryServiceClient \<Rightarrow> ('w, QueryMultiRequest, QueryMultiResponse) call_unary" where
  "queryServiceClient_QueryMulti ca c = ca_multi ca (qc_multi c)"

definition queryServiceClient_QueryMultiStream ::
  "'w connect_calls \<Rightarrow> QueryServiceClient \<Rightarrow> ('w, QueryMultiRequest, QueryMultiStreamEvent) call_server_stream" where
  "queryServiceClient_QueryMultiStream ca c = ca_multi_stream ca (qc_multi_stream c)"

text \<open>The struct as a value of the interface.\<close>

definition queryServiceClient ::
  "'w connect_calls \<Rightarrow> QueryServiceClient \<Rightarrow> 'w QueryServiceAPI" where
  "queryServiceClient ca c =
     \<lparr>qa_query = queryServiceClient_Query ca c,
      qa_stream = queryServiceClient_QueryStream ca c,
      qa_multi = queryServiceClient_QueryMulti ca c,
      qa_multi_stream = queryServiceClient_QueryMultiStream ca c\<rparr>"

subsection \<open>HealthService\<close>

record 'w HealthServiceAPI =
  ha_check :: "('w, unit, string) call_unary"
  ha_version :: "('w, unit, string) call_unary"

definition healthServiceClient_Check ::
  "'w connect_calls \<Rightarrow> HealthServiceClient \<Rightarrow> ('w, unit, string) call_unary" where
  "healthServiceClient_Check ca c = ca_check ca (hc_check c)"

definition healthServiceClient_Version ::
  "'w connect_calls \<Rightarrow> HealthServiceClient \<Rightarrow> ('w, unit, string) call_unary" where
  "healthServiceClient_Version ca c = ca_version ca (hc_version c)"

text \<open>The struct as a value of the interface.\<close>

definition healthServiceClient ::
  "'w connect_calls \<Rightarrow> HealthServiceClient \<Rightarrow> 'w HealthServiceAPI" where
  "healthServiceClient ca c =
     \<lparr>ha_check = healthServiceClient_Check ca c,
      ha_version = healthServiceClient_Version ca c\<rparr>"

text \<open>What a caller of a new client runs: the library's call, at the URL of the procedure.\<close>

lemma client_calls [simp]:
  "da_create (documentsServiceClient ca (NewDocumentsServiceClient base)) = ca_create ca (trim_right_byte base (CHR ''/'') @ DocumentsServiceCreateDocumentProcedure)"
  "da_get (documentsServiceClient ca (NewDocumentsServiceClient base)) = ca_get ca (trim_right_byte base (CHR ''/'') @ DocumentsServiceGetDocumentProcedure)"
  "da_list (documentsServiceClient ca (NewDocumentsServiceClient base)) = ca_list ca (trim_right_byte base (CHR ''/'') @ DocumentsServiceListDocumentsProcedure)"
  "da_delete (documentsServiceClient ca (NewDocumentsServiceClient base)) = ca_delete ca (trim_right_byte base (CHR ''/'') @ DocumentsServiceDeleteDocumentProcedure)"
  "da_tree (documentsServiceClient ca (NewDocumentsServiceClient base)) = ca_tree ca (trim_right_byte base (CHR ''/'') @ DocumentsServiceGetDocumentTreeProcedure)"
  "da_source (documentsServiceClient ca (NewDocumentsServiceClient base)) = ca_source ca (trim_right_byte base (CHR ''/'') @ DocumentsServiceGetDocumentSourceProcedure)"
  "da_section (documentsServiceClient ca (NewDocumentsServiceClient base)) = ca_section ca (trim_right_byte base (CHR ''/'') @ DocumentsServiceGetSectionProcedure)"
  "qa_query (queryServiceClient ca (NewQueryServiceClient base)) = ca_query ca (trim_right_byte base (CHR ''/'') @ QueryServiceQueryProcedure)"
  "qa_stream (queryServiceClient ca (NewQueryServiceClient base)) = ca_stream ca (trim_right_byte base (CHR ''/'') @ QueryServiceQueryStreamProcedure)"
  "qa_multi (queryServiceClient ca (NewQueryServiceClient base)) = ca_multi ca (trim_right_byte base (CHR ''/'') @ QueryServiceQueryMultiProcedure)"
  "qa_multi_stream (queryServiceClient ca (NewQueryServiceClient base)) = ca_multi_stream ca (trim_right_byte base (CHR ''/'') @ QueryServiceQueryMultiStreamProcedure)"
  "ha_check (healthServiceClient ca (NewHealthServiceClient base)) = ca_check ca (trim_right_byte base (CHR ''/'') @ HealthServiceCheckProcedure)"
  "ha_version (healthServiceClient ca (NewHealthServiceClient base)) = ca_version ca (trim_right_byte base (CHR ''/'') @ HealthServiceVersionProcedure)"
  by (simp_all add: documentsServiceClient_def NewDocumentsServiceClient_def
      documentsServiceClient_CreateDocument_def documentsServiceClient_GetDocument_def
      documentsServiceClient_ListDocuments_def documentsServiceClient_DeleteDocument_def
      documentsServiceClient_GetDocumentTree_def documentsServiceClient_GetDocumentSource_def
      documentsServiceClient_GetSection_def queryServiceClient_def NewQueryServiceClient_def
      queryServiceClient_Query_def queryServiceClient_QueryStream_def
      queryServiceClient_QueryMulti_def queryServiceClient_QueryMultiStream_def
      healthServiceClient_def NewHealthServiceClient_def healthServiceClient_Check_def
      healthServiceClient_Version_def Let_def)

end
