(* ===== verification/Benchmark.thy ===== *)
theory Benchmark
  imports Rpc_Clients Rest_Props Transparency "HOL-Library.Multiset"
begin

text \<open>
  The benchmark client (\<open>cmd/benchmark/main.go\<close>): its HTTP helpers, the plan of calls it times, the
  statistics it makes of the times and the texts of its table; and what it measures of the router
  of \<open>Router\<close>, to which the network delivers its calls (\<open>connected\<close>). The network, the clock and the
  formatting of floats are parameters. The banner, the dots of progress and the parsing of the
  command line are left out.
\<close>

subsection \<open>The network\<close>

text \<open>An HTTP call fails, or gives the bytes of the body that can be read and the error the reading
  ends with, if any.\<close>

type_synonym 'w http_call = "'w \<Rightarrow> (string, string \<times> string option) result \<times> 'w"

record 'w bench_net =
  bn_get :: "string \<Rightarrow> 'w http_call"
  bn_post :: "string \<Rightarrow> string \<Rightarrow> string \<Rightarrow> 'w http_call"
  bn_calls :: "'w connect_calls"
  bn_now :: "'w \<Rightarrow> int \<times> 'w"

definition restGET :: "'w bench_net \<Rightarrow> string \<Rightarrow> 'w \<Rightarrow> (string \<times> string option) \<times> 'w" where
  "restGET net url w =
     (case bn_get net url w of (Inl err, w1) \<Rightarrow> (([], Some err), w1) | (Inr answer, w1) \<Rightarrow> (answer, w1))"

definition restPOST :: "'w bench_net \<Rightarrow> string \<Rightarrow> string \<Rightarrow> 'w \<Rightarrow> (string \<times> string option) \<times> 'w" where
  "restPOST net url data w =
     (case bn_post net url ''application/json'' data w of
        (Inl err, w1) \<Rightarrow> (([], Some err), w1)
      | (Inr answer, w1) \<Rightarrow> (answer, w1))"

text \<open>\<open>connect.NewRequest\<close>: no headers are set.\<close>

definition NewRequest :: "'q \<Rightarrow> 'q rpc_request" where
  "NewRequest m = \<lparr>rq_header = (\<lambda>_. None), rq_msg = m\<rparr>"

subsection \<open>The section to ask for\<close>

text \<open>\<open>json.Unmarshal\<close> into the struct of sections, with its error ignored: what has the wrong type is
  left as it is, and the decoding goes on.\<close>

definition section_id :: "json \<Rightarrow> string \<Rightarrow> string" where
  "section_id j old =
     (case j of
        JObj ms \<Rightarrow>
          foldl (\<lambda>i (k, v). if match_field [''id''] k = None then i
                            else (case v of JStr s \<Rightarrow> s | _ \<Rightarrow> i)) old ms
      | _ \<Rightarrow> old)"

fun section_ids :: "json list \<Rightarrow> string list \<Rightarrow> string list" where
  "section_ids [] back = []"
| "section_ids (j # js) back = section_id j (case back of [] \<Rightarrow> [] | b # _ \<Rightarrow> b) # section_ids js (tl back)"

definition set_sections :: "json \<Rightarrow> slice \<Rightarrow> slice" where
  "set_sections j old =
     (case j of
        JNull \<Rightarrow> ([], [])
      | JArr js \<Rightarrow>
          (let ss = section_ids js (snd old) in (ss, if ss = [] then [] else ss @ drop (length ss) (snd old)))
      | _ \<Rightarrow> old)"

definition tree_sections :: "string \<Rightarrow> string list" where
  "tree_sections data =
     (case unmarshal data of
        Some (JObj ms) \<Rightarrow>
          fst (foldl (\<lambda>ss (k, v). if match_field [''sections''] k = None then ss else set_sections v ss)
            ([], []) ms)
      | _ \<Rightarrow> [])"

definition pick_section :: "string list \<Rightarrow> string" where
  "pick_section ids = (if length ids > 1 then ids ! 1 else if length ids > 0 then ids ! 0 else [])"

subsection \<open>The measurements\<close>

record bench_result =
  br_name :: string
  br_rest :: "int list"
  br_grpc :: "int list"

definition timed :: "'w bench_net \<Rightarrow> ('w \<Rightarrow> 'w) \<Rightarrow> 'w \<Rightarrow> int \<times> 'w" where
  "timed net act w =
     (let (start, w1) = bn_now net w; (stop, w2) = bn_now net (act w1) in (time_sub stop start, w2))"

fun bench_loop :: "'w bench_net \<Rightarrow> ('w \<Rightarrow> 'w) list \<Rightarrow> ('w \<Rightarrow> 'w) list \<Rightarrow> bench_result \<Rightarrow> 'w \<Rightarrow> bench_result \<times> 'w" where
  "bench_loop net (rest # rests) (grpc # grpcs) r w =
     (let (d, w1) = timed net rest w; (d', w2) = timed net grpc w1 in
      bench_loop net rests grpcs (r\<lparr>br_rest := br_rest r @ [d], br_grpc := br_grpc r @ [d']\<rparr>) w2)"
| "bench_loop net _ _ r w = (r, w)"

text \<open>The plan: a name, and the pairs of calls to time.\<close>

definition bench_queries :: "string list" where
  "bench_queries =
     [''What are the ownership rules in Rust?'',
      ''How does memory allocation work with the String type?'',
      ''What is the difference between move and clone?'']"

definition query_json :: "string \<Rightarrow> string \<Rightarrow> string" where
  "query_json doc q = enc_json (JObj [(''document_id'', JStr doc), (''query'', JStr q)])"

definition get_call :: "'w bench_net \<Rightarrow> string \<Rightarrow> 'w \<Rightarrow> 'w" where
  "get_call net url w = snd (restGET net url w)"

definition bench_plan ::
  "'w bench_net \<Rightarrow> string \<Rightarrow> string \<Rightarrow> nat \<Rightarrow> string \<Rightarrow> (string \<times> ('w \<Rightarrow> 'w) list \<times> ('w \<Rightarrow> 'w) list) list" where
  "bench_plan net base doc n section_of =
     (let hc = healthServiceClient (bn_calls net) (NewHealthServiceClient base);
          dc = documentsServiceClient (bn_calls net) (NewDocumentsServiceClient base);
          qc = queryServiceClient (bn_calls net) (NewQueryServiceClient base) in
      [(''Health Check'',
        replicate n (get_call net (base @ ''/v1/health'')),
        replicate n (\<lambda>w. snd (ha_check hc background (NewRequest ()) w))),
       (''List Documents'',
        replicate n (get_call net (base @ ''/v1/documents'')),
        replicate n (\<lambda>w. snd (da_list dc background
          (NewRequest \<lparr>ldq_limit = 10, ldq_cursor = [], ldq_status = []\<rparr>) w))),
       (''Get Tree'',
        replicate n (get_call net (base @ ''/v1/documents/'' @ doc @ ''/tree'')),
        replicate n (\<lambda>w. snd (da_tree dc background (NewRequest \<lparr>dq_document = doc\<rparr>) w)))] @
      (if section_of \<noteq> [] then
        [(''Get Section'',
          replicate n (get_call net (base @ ''/v1/sections/'' @ section_of)),
          replicate n (\<lambda>w. snd (da_section dc background (NewRequest \<lparr>sq_section = section_of\<rparr>) w)))]
       else []) @
      [(''Query (LLM)'',
        map (\<lambda>q w. snd (restPOST net (base @ ''/v1/query'') (query_json doc q) w)) bench_queries,
        map (\<lambda>q w. snd (qa_query qc background (NewRequest \<lparr>pq_document = doc, pq_query = q, pq_model = [],
          pq_max_tokens = 0, pq_reserved = 0, pq_parallel = 0, pq_max_sections = 0\<rparr>) w)) bench_queries)])"

fun run_plan :: "'w bench_net \<Rightarrow> (string \<times> ('w \<Rightarrow> 'w) list \<times> ('w \<Rightarrow> 'w) list) list \<Rightarrow> 'w \<Rightarrow> bench_result list \<times> 'w" where
  "run_plan net [] w = ([], w)"
| "run_plan net ((name, rests, grpcs) # ps) w =
     (let (r, w1) = bench_loop net rests grpcs \<lparr>br_name = name, br_rest = [], br_grpc = []\<rparr> w;
          (rs, w2) = run_plan net ps w1
      in (r # rs, w2))"

datatype bench_end = NoDocument | TreeError string | Measured "bench_result list"

definition benchmark :: "'w bench_net \<Rightarrow> string \<Rightarrow> string \<Rightarrow> int \<Rightarrow> 'w \<Rightarrow> bench_end \<times> 'w" where
  "benchmark net addr doc iterations w =
     (if doc = [] then (NoDocument, w)
      else
        (let base = trim_right_byte addr (CHR ''/'') in
         case restGET net (base @ ''/v1/documents/'' @ doc @ ''/tree'') w of
           ((data, Some err), w1) \<Rightarrow> (TreeError err, w1)
         | ((data, None), w1) \<Rightarrow>
             (let (rs, w2) = run_plan net
                (bench_plan net base doc (nat iterations) (pick_section (tree_sections data))) w1
              in (Measured rs, w2))))"

subsection \<open>Statistics\<close>

text \<open>Durations are \<open>int64\<close> nanoseconds; an index out of range is a panic (\<open>None\<close>).\<close>

definition median :: "int list \<Rightarrow> int" where
  "median ds =
     (if ds = [] then 0
      else
        (let sorted = sort ds; mid = length sorted div 2 in
         if even (length sorted) then go_div (wrap64 (sorted ! (mid - 1) + sorted ! mid)) 2
         else sorted ! mid))"

definition percentile_index :: "int \<Rightarrow> nat \<Rightarrow> int" where
  "percentile_index pct n = int_of_float (fl64 (fl64 (float_of_int pct / 100) * float_of_int (int n - 1)))"

definition percentile :: "int list \<Rightarrow> int \<Rightarrow> int option" where
  "percentile ds pct =
     (if ds = [] then Some 0
      else
        (let sorted = sort ds; idx = percentile_index pct (length sorted) in
         if 0 \<le> idx \<and> idx < int (length sorted) then Some (sorted ! nat idx) else None))"

definition minD :: "int list \<Rightarrow> int" where
  "minD ds = (case ds of [] \<Rightarrow> 0 | d # ds' \<Rightarrow> foldl (\<lambda>m d. if d < m then d else m) d ds')"

definition maxD :: "int list \<Rightarrow> int" where
  "maxD ds = (case ds of [] \<Rightarrow> 0 | d # ds' \<Rightarrow> foldl (\<lambda>m d. if d > m then d else m) d ds')"

text \<open>\<open>fx n x\<close> is \<open>x\<close> with \<open>n\<close> decimals, as \<open>fmt\<close> prints it.\<close>

definition fmtDuration :: "(nat \<Rightarrow> rat \<Rightarrow> string) \<Rightarrow> int \<Rightarrow> string" where
  "fmtDuration fx d =
     (if d < 1000000 then fx 1 (float_of_int (go_div d 1000)) @ [CHR 0xC2, CHR 0xB5, CHR ''s'']
      else if d < 1000000000 then fx 1 (fl64 (float_of_int (go_div d 1000) / 1000)) @ ''ms''
      else fx 2 (seconds d) @ ''s'')"

definition saving :: "int \<Rightarrow> int \<Rightarrow> rat" where
  "saving slow fast = fl64 (fl64 (float_of_int (wrap64 (slow - fast)) / float_of_int slow) * 100)"

definition delta :: "(nat \<Rightarrow> rat \<Rightarrow> string) \<Rightarrow> int \<Rightarrow> int \<Rightarrow> string" where
  "delta fx rest grpc =
     (if rest > 0 \<and> grpc > 0 then
        if grpc < rest then ''gRPC '' @ fx 0 (saving rest grpc) @ ''% faster''
        else if rest < grpc then ''REST '' @ fx 0 (saving grpc rest) @ ''% faster''
        else ''tied''
      else [])"

definition table_row :: "(nat \<Rightarrow> rat \<Rightarrow> string) \<Rightarrow> bench_result \<Rightarrow> string list" where
  "table_row fx r =
     [br_name r, fmtDuration fx (median (br_rest r)), fmtDuration fx (median (br_grpc r)),
      delta fx (median (br_rest r)) (median (br_grpc r))]"

text \<open>One line of the detailed statistics: minimum, median, 95th percentile, maximum and count.\<close>

definition stats_line :: "(nat \<Rightarrow> rat \<Rightarrow> string) \<Rightarrow> int list \<Rightarrow> (string list \<times> int) option" where
  "stats_line fx ds =
     map_option (\<lambda>p. ([fmtDuration fx (minD ds), fmtDuration fx (median ds), fmtDuration fx p,
        fmtDuration fx (maxD ds)], int (length ds))) (percentile ds 95)"

subsection \<open>What the statistics are\<close>

lemma minD_Min: "ds \<noteq> [] \<Longrightarrow> minD ds = Min (set ds)"
proof -
  have "foldl (\<lambda>m d. if d < m then d else m) m ds = fold min ds m" for m and ds :: "int list"
    by (induction ds arbitrary: m) (simp_all add: min_def not_le)
  then show "ds \<noteq> [] \<Longrightarrow> minD ds = Min (set ds)"
    by (cases ds) (simp_all add: minD_def Min.set_eq_fold [symmetric] del: Min_insert)
qed

lemma maxD_Max: "ds \<noteq> [] \<Longrightarrow> maxD ds = Max (set ds)"
proof -
  have "foldl (\<lambda>m d. if d > m then d else m) m ds = fold max ds m" for m and ds :: "int list"
  proof (induction ds arbitrary: m)
    case (Cons d ds)
    have "(if m < d then d else m) = max d m" by (simp add: max_def)
    with Cons show ?case by simp
  qed simp
  then show "ds \<noteq> [] \<Longrightarrow> maxD ds = Max (set ds)"
    by (cases ds) (simp_all add: maxD_def Max.set_eq_fold [symmetric] del: Max_insert)
qed

lemma percentile_index_mono:
  assumes "0 \<le> p" "p \<le> q" "q \<le> 100" "0 < n" "n \<le> 2 ^ 52"
  shows "0 \<le> percentile_index p n" "percentile_index p n \<le> percentile_index q n"
    "percentile_index q n < int n"
proof -
  have n: "float_of_int (int n - 1) = of_int (int n - 1)" "0 \<le> (of_int (int n - 1) :: rat)"
    using assms(4,5) fl64_of_int [of "int n - 1"] by (simp_all add: float_of_int_def)
  have fraction: "0 \<le> fl64 (float_of_int r / 100)" "fl64 (float_of_int r / 100) \<le> 1" if "0 \<le> r" "r \<le> 100" for r
  proof -
    have r: "float_of_int r = of_int r" using that fl64_of_int [of r] by (simp add: float_of_int_def)
    show "0 \<le> fl64 (float_of_int r / 100)" using that r by simp
    have "(of_int r :: rat) \<le> 100" using that by (metis of_int_le_iff of_int_numeral)
    then have "fl64 (float_of_int r / 100) \<le> fl64 (of_int 1)"
      using that unfolding r by (intro fl64_mono_nonneg) simp_all
    then show "fl64 (float_of_int r / 100) \<le> 1" using fl64_of_int [of 1] by simp
  qed
  let ?x = "\<lambda>r. fl64 (fl64 (float_of_int r / 100) * float_of_int (int n - 1))"
  have top: "?x r \<le> of_int (int n - 1)" "0 \<le> ?x r" if "0 \<le> r" "r \<le> 100" for r
  proof -
    show "0 \<le> ?x r" using fraction(1) [OF that] n by simp
    have "?x r \<le> fl64 (of_int (int n - 1))"
      using fraction [OF that] n by (intro fl64_mono_nonneg) (simp_all add: mult_left_le_one_le)
    also have "\<dots> = of_int (int n - 1)" using n by (simp add: float_of_int_def)
    finally show "?x r \<le> of_int (int n - 1)" .
  qed
  have idx: "percentile_index r n = \<lfloor>?x r\<rfloor>" if "0 \<le> r" "r \<le> 100" for r
  proof -
    have "(of_int (int n - 1) :: rat) < of_int (2 ^ 63)" using assms(5) by (simp only: of_int_less_iff) simp
    then have "?x r < 2 ^ 63" using top(1) [OF that] by simp
    with top(2) [OF that] show ?thesis by (simp add: percentile_index_def int_of_float_nonneg)
  qed
  have p: "0 \<le> p" "p \<le> 100" and q: "0 \<le> q" "q \<le> 100" using assms by simp_all
  show "0 \<le> percentile_index p n" using top(2) [OF p] idx [OF p] by simp
  have "(of_int p :: rat) \<le> of_int q" using assms(2) by simp
  then have "float_of_int p / 100 \<le> float_of_int q / 100"
    using fl64_mono_nonneg [of "of_int p" "of_int q"] p by (simp add: float_of_int_def divide_right_mono)
  then have "fl64 (float_of_int p / 100) \<le> fl64 (float_of_int q / 100)"
    using p by (intro fl64_mono_nonneg) (simp_all add: float_of_int_def)
  then have "?x p \<le> ?x q"
    using n fraction(1) [OF p] by (intro fl64_mono_nonneg) (simp_all add: mult_right_mono)
  then show "percentile_index p n \<le> percentile_index q n" using idx [OF p] idx [OF q] by (simp add: floor_mono)
  have "\<lfloor>?x q\<rfloor> \<le> int n - 1" using top(1) [OF q] by (metis floor_mono floor_of_int)
  then show "percentile_index q n < int n" using idx [OF q] by simp
qed

text \<open>Positions of a sorted list.\<close>

lemma sort_nth_bounds:
  assumes "i < length ds"
  shows "Min (set ds) \<le> sort ds ! i" "sort ds ! i \<le> Max (set ds)"
proof -
  have "sort ds ! i \<in> set ds" using assms by (metis length_sort nth_mem set_sort)
  then show "Min (set ds) \<le> sort ds ! i" "sort ds ! i \<le> Max (set ds)" by simp_all
qed

lemma median_bounds:
  assumes "ds \<noteq> []" "\<forall>d \<in> set ds. 0 \<le> d \<and> d < 2 ^ 62"
  shows "Min (set ds) \<le> median ds" "median ds \<le> Max (set ds)"
proof -
  define n where "n = length ds"
  define a where "a = sort ds ! (n div 2 - 1)"
  define b where "b = sort ds ! (n div 2)"
  have n: "n div 2 < length ds" "n div 2 - 1 < length ds" using assms(1) by (cases ds; simp add: n_def)+
  have mem: "a \<in> set ds" "b \<in> set ds"
    using n unfolding a_def b_def by (metis length_sort nth_mem set_sort)+
  then have ab: "0 \<le> a" "a < 2 ^ 62" "0 \<le> b" "b < 2 ^ 62" using assms(2) by auto
  have "wrap64 (a + b) = a + b" using ab by (intro wrap64_id) (simp add: in_int64_def)
  then have m: "median ds = (if even n then (a + b) div 2 else b)"
    using assms(1) ab by (simp add: median_def Let_def n_def a_def b_def go_div_nonneg)
  note bounds = sort_nth_bounds [OF n(1)] sort_nth_bounds [OF n(2)]
  show "Min (set ds) \<le> median ds" "median ds \<le> Max (set ds)"
    using bounds unfolding m a_def [symmetric] b_def [symmetric] by auto
qed

text \<open>The benchmark's statistics of durations below \<open>2\<^sup>6\<^sup>2\<close> nanoseconds: no percentile panics, the
  percentiles grow with their rank, from the minimum to the maximum, which are times that were
  measured; the median lies between them too; and none depends on the order of the samples.\<close>

theorem bench_stats_ordered:
  assumes "ds \<noteq> []" "\<forall>d \<in> set ds. 0 \<le> d \<and> d < 2 ^ 62" "length ds \<le> 2 ^ 52"
    and "0 \<le> p" "p \<le> q" "q \<le> 100" "mset ds' = mset ds"
  shows "\<exists>x y. percentile ds p = Some x \<and> percentile ds q = Some y
      \<and> minD ds \<le> x \<and> x \<le> y \<and> y \<le> maxD ds \<and> {x, y, minD ds, maxD ds} \<subseteq> set ds
      \<and> minD ds \<le> median ds \<and> median ds \<le> maxD ds
      \<and> [minD ds', median ds', maxD ds'] = [minD ds, median ds, maxD ds]
      \<and> percentile ds' p = percentile ds p"
proof -
  have len: "0 < length ds" "length (sort ds) = length ds" using assms(1) by simp_all
  note idx = percentile_index_mono [OF assms(4-6) len(1) assms(3)]
  let ?i = "nat (percentile_index p (length ds))" and ?j = "nat (percentile_index q (length ds))"
  have ij: "?i \<le> ?j" "?j < length ds" "?i < length ds" using idx by linarith+
  have px: "percentile ds p = Some (sort ds ! ?i)" "percentile ds q = Some (sort ds ! ?j)"
    using idx assms(1) by (simp_all add: percentile_def Let_def)
  have same: "set ds' = set ds" "sort ds' = sort ds" "ds' \<noteq> []"
    using assms(1,7) mset_eq_setD properties_for_sort [of "sort ds" ds'] by (auto dest: mset_eq_setD)
  have "length ds' = length ds" using assms(7) by (metis size_mset)
  with same have perm: "minD ds' = minD ds" "maxD ds' = maxD ds" "median ds' = median ds"
    "percentile ds' p = percentile ds p"
    using assms(1) by (simp_all add: minD_Min maxD_Max median_def percentile_def)
  have "sort ds ! ?i \<le> sort ds ! ?j" using ij len by (intro sorted_nth_mono) simp_all
  moreover have "sort ds ! ?i \<in> set ds" "sort ds ! ?j \<in> set ds"
    using ij(2,3) by (metis length_sort nth_mem set_sort)+
  moreover have "minD ds \<in> set ds" "maxD ds \<in> set ds"
    using assms(1) by (simp_all add: minD_Min maxD_Max)
  ultimately show ?thesis
    using px perm assms(1) sort_nth_bounds [OF ij(3)] sort_nth_bounds [OF ij(2)] median_bounds [OF assms(1,2)]
    by (intro exI [of _ "sort ds ! ?i"] exI [of _ "sort ds ! ?j"]) (simp add: minD_Min maxD_Max)
qed

lemma bench_stats_ordered_witness:
  "\<exists>x y. percentile [30, 10, 20] 50 = Some x \<and> percentile [30, 10, 20] 95 = Some y
     \<and> 10 \<le> x \<and> x \<le> y \<and> y \<le> 30"
proof -
  have "mset [10, 20, 30 :: int] = mset [30, 10, 20]" by simp
  from bench_stats_ordered [OF _ _ _ _ _ _ this, of 50 95] show ?thesis
    by (auto simp: minD_def maxD_def)
qed

text \<open>The queries are timed three times; of three samples the 95th percentile is the median.\<close>

lemma percentile_index_95_3: "percentile_index 95 3 = 1"
proof -
  have ints: "float_of_int 95 = 95" "float_of_int 2 = 2"
    using fl64_of_int [of 95] fl64_of_int [of 2] by (simp_all add: float_of_int_def)
  define x where "x = fl64 (95 / 100)"
  have "\<bar>x - 95 / 100\<bar> \<le> 1 / 100"
    using fl64_err [of "95 / 100"] unfolding x_def by simp
  then have x: "94 / 100 \<le> x" "x \<le> 96 / 100" by linarith+
  have "\<bar>fl64 (x * 2) - x * 2\<bar> \<le> 1 / 100"
    using fl64_err [of "x * 2"] x by simp
  with x have "1 \<le> fl64 (x * 2)" "fl64 (x * 2) < 2" by linarith+
  then have "int_of_float (fl64 (x * 2)) = 1" by (subst int_of_float_nonneg) (simp_all add: floor_eq_iff)
  then show ?thesis by (simp add: percentile_index_def ints x_def)
qed

lemma p95_of_three:
  assumes "length ds = 3"
  shows "percentile ds 95 = Some (median ds)"
proof -
  have "ds \<noteq> []" using assms by auto
  then show ?thesis using assms percentile_index_95_3 by (simp add: percentile_def median_def Let_def)
qed

subsection \<open>What is measured\<close>

text \<open>
  The server that is measured is the router. HTTP delivers a request of the benchmark to it with
  the method and the path that were asked for and without an organisation, since no header is
  set; the Connect library gives the answer of the method called, in a context of the server's,
  or an error of its own (of the limiters, say).
\<close>

definition bench_paths :: "string \<Rightarrow> (string \<times> string) list" where
  "bench_paths doc =
     [(''GET'', ''/v1/documents''), (''GET'', ''/v1/documents/'' @ doc @ ''/tree''), (''POST'', ''/v1/query'')]"

definition org_handlers :: "'v env \<Rightarrow> 'v deps \<Rightarrow> 'v handler list" where
  "org_handlers e d =
     [HandleListDocuments d, HandleIngestDocument d, HandleGetDocument d, HandleDeleteDocument d,
      HandleGetDocumentSource d, HandleGetTree d, HandleGetSection d, HandleQuery e d, HandleQueryMulti e d,
      HandleQueryStream e d, HandleQueryStreamMulti e d]"

text \<open>The routing library finds one of the endpoints registered below \<open>/v1\<close> for these paths.\<close>

definition routes_bench :: "'v chi \<Rightarrow> 'v env \<Rightarrow> 'v deps \<Rightarrow> 'v mounts \<Rightarrow> Config \<Rightarrow> string \<Rightarrow> bool" where
  "routes_bench chi e d m cfg doc \<longleftrightarrow>
     (\<forall>w r s. (r_method r, r_path r) \<in> set (bench_paths doc) \<longrightarrow>
        (\<exists>h \<in> set (org_handlers e d). \<exists>q. dispatch chi e d m cfg w r s = h w (r\<lparr>r_params := q\<rparr>) s))"

definition delivers ::
  "'v handler \<Rightarrow> string \<Rightarrow> string \<Rightarrow> ('v st \<Rightarrow> (string, string \<times> string option) result \<times> 'v st) \<Rightarrow> bool" where
  "delivers srv meth path ask \<longleftrightarrow>
     (\<forall>s. \<exists>w r. r_method r = meth \<and> r_path r = path \<and> hget (r_header r) ''X-Vectorless-Org'' = []
        \<and> ask s = (Inr (rs_body (response (srv w r s)), None), res_state (srv w r s)))"

definition runs_method :: "(ctx \<Rightarrow> 'q rpc_request \<Rightarrow> ('v, 'a) unary) \<Rightarrow> ('v st, 'q, 'a) call_unary \<Rightarrow> bool" where
  "runs_method m ask \<longleftrightarrow>
     (\<forall>c req s. (\<exists>c' s'. fst (ask c req s) = fst (m c' req s')) \<or> (\<exists>err. fst (ask c req s) = Inl err))"

definition connected :: "'v env \<Rightarrow> 'v deps \<Rightarrow> 'v handler \<Rightarrow> string \<Rightarrow> 'v st bench_net \<Rightarrow> bool" where
  "connected e d srv base net \<longleftrightarrow>
     (\<forall>p. delivers srv ''GET'' p (bn_get net (base @ p)))
     \<and> (\<forall>p ct data. delivers srv ''POST'' p (bn_post net (base @ p) ct data))
     \<and> (\<forall>url. runs_method (ListDocuments d) (ca_list (bn_calls net) url)
          \<and> runs_method (GetDocumentTree d) (ca_tree (bn_calls net) url)
          \<and> runs_method (Query e d) (ca_query (bn_calls net) url))"

subsubsection \<open>Every call is refused\<close>

lemma org_handlers_refuse:
  assumes "h \<in> set (org_handlers e d)" "hget (r_header r) ''X-Vectorless-Org'' = []"
  shows "h w r s = reply (writeErr 400 ''missing X-Vectorless-Org header'') s"
proof -
  have r: "requireOrgID r = Inl (writeErr 400 ''missing X-Vectorless-Org header'')"
    using assms(2) by (simp add: requireOrgID_Inl)
  from assms(1) show ?thesis by (auto simp: org_handlers_def missing_org [OF r])
qed

definition refusal :: string where
  "refusal = rs_body (respond (writeErr 400 ''missing X-Vectorless-Org header''))"

lemma refused_answer: "answers 400 refusal (reply (writeErr 400 ''missing X-Vectorless-Org header'') s)"
  by (simp add: answers_def reply_def response_def refusal_def status_writeErr body_allowed_def)
    (simp add: writeErr_def writeJSON_def)

lemma no_sections: "tree_sections refusal = []" "tree_sections (rate_limited_body @ nl) = []"
  by code_simp+

text \<open>Through the whole stack: 400, or 429 if a limiter is configured.\<close>

lemma router_refuses:
  assumes "chi_use chi" "routes_bench chi e d m cfg doc" "router_auth cfg = NoAuth"
    and "(r_method r, r_path r) \<in> set (bench_paths doc)" "hget (r_header r) ''X-Vectorless-Org'' = []"
  shows "answers 400 refusal (Router chi e d m cfg w r s) \<or> throttles cfg \<and> throttled (Router chi e d m cfg w r s)"
proof -
  have u: "undisturbed e (\<lambda>k s. True)" by (simp add: undisturbed_def)
  have o: "r_method r \<noteq> ''OPTIONS''" using assms(4) by (auto simp: bench_paths_def)
  obtain p where c: "caller cfg r = Some p"
    using assms(3) by (simp add: caller_def NoAuth_Authenticate_def)
  have "reaches (\<lambda>s. True) (seen_by_endpoint cfg r p)
      (Idempotency e \<lparr>ic_ttl = 0, ic_prefixes = []\<rparr> (dispatch chi e d m cfg)) (Router chi e d m cfg w r s)
    \<or> throttles cfg \<and> throttled (Router chi e d m cfg w r s)"
    by (rule Router_passes [OF assms(1) u _ o c, OF TrueI])
  then show ?thesis
  proof (elim disjE)
    assume "reaches (\<lambda>s. True) (seen_by_endpoint cfg r p)
      (Idempotency e \<lparr>ic_ttl = 0, ic_prefixes = []\<rparr> (dispatch chi e d m cfg)) (Router chi e d m cfg w r s)"
    then obtain w' r' s' where r': "seen_by_endpoint cfg r p r'"
      and out: "\<And>code data. answers code data
          (Idempotency e \<lparr>ic_ttl = 0, ic_prefixes = []\<rparr> (dispatch chi e d m cfg) w' r' s')
        \<Longrightarrow> answers code data (Router chi e d m cfg w r s)"
      unfolding reaches_def by blast
    from r' have same: "r_method r' = r_method r" "r_path r' = r_path r" "r_header r' = r_header r"
      by (simp_all add: seen_by_endpoint_def seen_as_def)
    with assms(4) have "(r_method r', r_path r') \<in> set (bench_paths doc)" by simp
    then obtain h q where h: "h \<in> set (org_handlers e d)"
      "dispatch chi e d m cfg w' r' s' = h w' (r'\<lparr>r_params := q\<rparr>) s'"
      using assms(2) unfolding routes_bench_def by blast
    have "hget (r_header (r'\<lparr>r_params := q\<rparr>)) ''X-Vectorless-Org'' = []" using same assms(5) by simp
    with h refused_answer have "answers 400 refusal (dispatch chi e d m cfg w' r' s')"
      by (simp add: org_handlers_refuse)
    moreover have "\<not> idem_applies \<lparr>ic_ttl = 0, ic_prefixes = []\<rparr> r'"
      using same assms(4)
      by (auto simp: idem_applies_def bench_paths_def with_defaults_def has_prefix_def)
    ultimately show ?thesis using out by (simp add: Idempotency_passes)
  qed simp_all
qed

lemma methods_refuse:
  "\<exists>err. fst (ListDocuments d c (NewRequest m1) s) = Inl err"
  "\<exists>err. fst (GetDocumentTree d c (NewRequest m2) s) = Inl err" "\<exists>err. fst (Query e d c (NewRequest m3) s) = Inl err"
  by (simp_all add: NewRequest_def orgIDFromConnect_def hget_def ListDocuments_def GetDocumentTree_def Query_def Let_def)

lemma run_method_fails:
  "runs_method m ask \<Longrightarrow> (\<And>c s. \<exists>err. fst (m c req s) = Inl err) \<Longrightarrow> \<exists>err. fst (ask c req s) = Inl err"
  unfolding runs_method_def by metis

lemma bench_loop_name: "br_name (fst (bench_loop net rests grpcs r w)) = br_name r"
  by (induction net rests grpcs r w rule: bench_loop.induct) (auto split: prod.splits)

lemma run_plan_names: "map br_name (fst (run_plan net ps w)) = map fst ps"
proof (induction ps arbitrary: w)
  case (Cons p ps)
  obtain name rests grpcs where p: "p = (name, rests, grpcs)" by (cases p) auto
  obtain r w1 where l: "bench_loop net rests grpcs \<lparr>br_name = name, br_rest = [], br_grpc = []\<rparr> w = (r, w1)" by force
  then have "br_name r = name"
    using bench_loop_name [of net rests grpcs _ w] by (metis bench_result.simps(1) fst_conv)
  with Cons.IH [of w1] p l show ?case by (auto split: prod.splits)
qed simp

lemma benchmark_rows:
  assumes "doc \<noteq> []" "bn_get net (trim_right_byte addr (CHR ''/'') @ ''/v1/documents/'' @ doc @ ''/tree'') s = (Inr (data, None), s1)"
    and "tree_sections data = []"
  shows "\<exists>rs s'. benchmark net addr doc n s = (Measured rs, s')
    \<and> map br_name rs = [''Health Check'', ''List Documents'', ''Get Tree'', ''Query (LLM)'']"
proof -
  let ?ps = "bench_plan net (trim_right_byte addr (CHR ''/'')) doc (nat n) []"
  have "restGET net (trim_right_byte addr (CHR ''/'') @ ''/v1/documents/'' @ doc @ ''/tree'') s = ((data, None), s1)"
    unfolding restGET_def assms(2) by simp
  with assms(1,3) have "benchmark net addr doc n s = (case run_plan net ?ps s1 of (rs, w2) \<Rightarrow> (Measured rs, w2))"
    unfolding benchmark_def Let_def by (simp only: prod.case option.case if_False pick_section_def if_True) simp
  moreover have "map fst ?ps = [''Health Check'', ''List Documents'', ''Get Tree'', ''Query (LLM)'']"
    by (simp add: bench_plan_def Let_def)
  ultimately show ?thesis
    using run_plan_names [of net ?ps s1] by (cases "run_plan net ?ps s1") simp
qed


text \<open>
  The router with the sample routing library, whose patterns are literal: a document named after
  the pattern is found.
\<close>

definition bench_router :: "int handler" where
  "bench_router = Router sample_chi sample_env sample_deps sample_mounts (Default sample_engine)"

definition sample_bench_net :: "int st bench_net" where
  "sample_bench_net =
     (let deliver = (\<lambda>meth url data s.
            let res = bench_router plain_writer (sample_request meth (trim_prefix url ''http://h'') [] data) s
            in (Inr (rs_body (response res), None), res_state res)) in
      \<lparr>bn_get = (\<lambda>url. deliver ''GET'' url []), bn_post = (\<lambda>url ct. deliver ''POST'' url),
       bn_calls =
         \<lparr>ca_create = (\<lambda>u. CreateDocument sample_deps), ca_get = (\<lambda>u. GetDocument sample_deps),
          ca_list = (\<lambda>u. ListDocuments sample_deps), ca_delete = (\<lambda>u. DeleteDocument sample_deps),
          ca_tree = (\<lambda>u. GetDocumentTree sample_deps),
          ca_source = (\<lambda>u c req s. (Inr ([], None), s)), ca_section = (\<lambda>u. GetSection sample_deps),
          ca_query = (\<lambda>u. Query sample_env sample_deps), ca_stream = (\<lambda>u c req s. (Inr ([], None), s)),
          ca_multi = (\<lambda>u c req s. (Inl (NewError CodeUnimplemented None), s)),
          ca_multi_stream = (\<lambda>u c req s. (Inr ([], None), s)),
          ca_check = (\<lambda>u c req. HealthCheck), ca_version = (\<lambda>u c req. HealthVersion ''dev'')\<rparr>,
       bn_now = read_clock sample_env\<rparr>)"

lemma sample_routes_bench:
  "routes_bench sample_chi sample_env sample_deps sample_mounts (Default sample_engine) ''{id}''"
  by (auto simp: routes_bench_def bench_paths_def org_handlers_def sample_chi_def routes_def sample_mounts_def
      has_prefix_def)

lemma sample_connected: "connected sample_env sample_deps bench_router ''http://h'' sample_bench_net"
proof -
  have p: "trim_prefix (''http://h'' @ p) ''http://h'' = p" for p
    by (simp add: trim_prefix_def has_prefix_def)
  have h: "hget (r_header (sample_request m p [] b)) ''X-Vectorless-Org'' = []" for m p b
    by (simp add: sample_request_def hget_def)
  have "delivers bench_router ''GET'' p (bn_get sample_bench_net (''http://h'' @ p))" for p
    unfolding delivers_def
    by (intro allI exI [of _ plain_writer] exI [of _ "sample_request ''GET'' p [] []"])
      (simp add: sample_bench_net_def p [simplified] h Let_def)
  moreover have "delivers bench_router ''POST'' p (bn_post sample_bench_net (''http://h'' @ p) ct b)" for p ct b
    unfolding delivers_def
    by (intro allI exI [of _ plain_writer] exI [of _ "sample_request ''POST'' p [] b"])
      (simp add: sample_bench_net_def p [simplified] h Let_def)
  ultimately show ?thesis
    by (auto simp: connected_def runs_method_def sample_bench_net_def)
qed


end
