(* ===== verification/Json_Round_Trip.thy ===== *)
theory Json_Round_Trip
  imports Json_Parse_Facts
begin

text \<open>
  What is encoded is read back: the decoder applied to an encoded value, followed by anything
  that cannot continue a number, gives the value with every invalid byte of its strings
  replaced, and the rest. Numbers are literals of the JSON grammar, and values nest at most as
  deep as the decoder allows.
\<close>

subsection \<open>Strings\<close>

function fix_utf8 :: "string \<Rightarrow> string" where
  "fix_utf8 s =
     (if s = [] then []
      else if rune_width s = 0 then utf8_enc replacement @ fix_utf8 (tl s)
      else take (rune_width s) s @ fix_utf8 (drop (rune_width s) s))"
  by pat_completeness auto
termination
  by (relation "measure length") auto

declare fix_utf8.simps [simp del]

lemma rune_width_le: "rune_width s \<le> length s"
  by (induction s rule: rune_width.induct) (auto simp: width2_def width3_def width4_def split: list.splits)

lemma width_append:
  "width2 t \<noteq> 0 \<Longrightarrow> width2 t = 2 \<and> width2 (take 1 t @ x) = 2"
  "width3 a t \<noteq> 0 \<Longrightarrow> width3 a t = 3 \<and> width3 a (take 2 t @ x) = 3"
  "width4 a t \<noteq> 0 \<Longrightarrow> width4 a t = 4 \<and> width4 a (take 3 t @ x) = 4"
  by (auto simp: width2_def width3_def width4_def split: list.splits if_splits)

lemma rune_width_append:
  assumes "rune_width s \<noteq> 0"
  shows "rune_width (take (rune_width s) s @ x) = rune_width s"
proof (cases s)
  case (Cons a t)
  from assms Cons consider (w1) "rune_width s = 1" "byte_val a < 128"
    | (w2) "rune_width s = width2 t" "\<not> byte_val a < 128" "byte_in 194 223 a"
    | (w3) "rune_width s = width3 a t" "\<not> byte_val a < 128" "\<not> byte_in 194 223 a" "byte_in 224 239 a"
    | (w4) "rune_width s = width4 a t" "\<not> byte_val a < 128" "\<not> byte_in 194 223 a" "\<not> byte_in 224 239 a"
        "byte_in 240 244 a"
    by (auto split: if_splits)
  then show ?thesis
  proof cases
    case w1
    with Cons show ?thesis by simp
  next
    case w2
    with Cons assms width_append(1) [of t x] have "take (rune_width s) s = a # take 1 t" by simp
    with w2 assms width_append(1) [of t x] show ?thesis by simp
  next
    case w3
    with Cons assms width_append(2) [of a t x] have "take (rune_width s) s = a # take 2 t" by simp
    with w3 assms width_append(2) [of a t x] show ?thesis by simp
  next
    case w4
    with Cons assms width_append(3) [of a t x] have "take (rune_width s) s = a # take 3 t" by simp
    with w4 assms width_append(3) [of a t x] show ?thesis by simp
  qed
qed (use assms in simp)

lemma rune_width_hd: "1 < rune_width s \<Longrightarrow> \<exists>a t. s = a # t \<and> 128 \<le> byte_val a"
  by (cases s) (auto split: if_splits)

lemma rune_width_one: "rune_width s = 1 \<Longrightarrow> \<exists>a t. s = a # t \<and> byte_val a < 128"
  by (cases s) (auto simp: width2_def width3_def width4_def split: if_splits list.splits)

lemma char_of_byte [simp]: "char_of (byte_val c) = c"
  by simp

lemma hex_val_digit: "d < 16 \<Longrightarrow> hex_val (hex_digit d) = Some d"
  by (auto simp: hex_val_def hex_digit_def is_digit_def Let_def)

lemma step_plain: "32 \<le> byte_val c \<Longrightarrow> c \<noteq> CHR 0x5C \<Longrightarrow> byte_val c < 128 \<Longrightarrow> string_step (c # x) = Some ([c], 1)"
  by (simp add: string_step_def)

lemma step_simple:
  "string_step (CHR 0x5C # d # x) = map_option (\<lambda>b. ([b], 2)) (simple_escape d)" if "d \<noteq> CHR ''u''"
  using that by (simp add: string_step_def)

lemma step_u00:
  assumes "byte_val c < 128"
  shows "string_step (esc_u00 (byte_val c) @ x) = Some ([c], 6)"
proof -
  have "byte_val c div 16 < 16" "byte_val c mod 16 < 16" using assms by auto
  then have "hex4 (''00'' @ [hex_digit (byte_val c div 16), hex_digit (byte_val c mod 16)] @ x)
      = Some (byte_val c)"
    by (simp add: hex4_def hex_val_digit) (simp add: hex_val_def is_digit_def)
  then show ?thesis
    using assms by (simp add: string_step_def esc_u00_def surrogate_pair_def utf8_enc_def)
qed

lemma step_esc_byte:
  assumes "byte_val c < 128"
  shows "string_step (esc_byte c @ x) = Some ([c], length (esc_byte c))"
proof -
  have "c \<noteq> CHR 0x5C \<Longrightarrow> \<not> byte_val c < 32 \<Longrightarrow> string_step (c # x) = Some ([c], 1)"
    using step_plain [of c x] assms by simp
  moreover have "string_step (esc_u00 (byte_val c) @ x) = Some ([c], length (esc_u00 (byte_val c)))"
    using step_u00 [OF assms, of x] by (simp add: esc_u00_def)
  ultimately show ?thesis
    by (auto simp: esc_byte_def step_simple simple_escape_def)
qed

lemma step_ufffd: "string_step (CHR 0x5C # ''ufffd'' @ x) = Some (utf8_enc replacement, 6)"
  by (simp add: string_step_def hex4_def hex_val_def is_digit_def surrogate_pair_def replacement_def)

lemma line_sep_bytes:
  "char_of (226 :: nat) = CHR 0xE2" "char_of (128 :: nat) = CHR 0x80"
  "char_of (168 :: nat) = CHR 0xA8" "char_of (169 :: nat) = CHR 0xA9"
  by code_simp+

lemma step_high:
  "128 \<le> byte_val (hd p) \<Longrightarrow> p \<noteq> [] \<Longrightarrow> rune_width (p @ x) = length p \<Longrightarrow>
     string_step (p @ x) = Some (p, length p)"
  by (cases p) (auto simp: string_step_def simp del: rune_width.simps)

lemma step_u202:
  "string_step (CHR 0x5C # ''u2028'' @ x) = Some ([CHR 0xE2, CHR 0x80, CHR 0xA8], 6)"
  "string_step (CHR 0x5C # ''u2029'' @ x) = Some ([CHR 0xE2, CHR 0x80, CHR 0xA9], 6)"
  by (simp_all add: string_step_def hex4_def hex_val_def is_digit_def surrogate_pair_def utf8_enc_def
      line_sep_bytes)

lemma unquote_step:
  assumes "string_step (p @ x) = Some (b, length p)" "p \<noteq> []" "hd p \<noteq> CHR 0x22"
  shows "unquote (p @ x) = map_option (\<lambda>(v, r). (b @ v, r)) (unquote x)"
  using assms by (subst unquote.simps) simp

lemma unquote_end: "unquote (CHR 0x22 # r) = Some ([], r)"
  by (subst unquote.simps) simp

lemma hd_esc_byte: "esc_byte c \<noteq> [] \<and> hd (esc_byte c) \<noteq> CHR 0x22"
  by (auto simp: esc_byte_def esc_u00_def)

lemma rune_width_line_sep:
  "take 3 s = [CHR 0xE2, CHR 0x80, a] \<Longrightarrow> byte_in 128 191 a \<Longrightarrow> rune_width s = 3"
  by (cases s rule: rune_width.cases; cases "tl s"; cases "tl (tl s)") (auto simp: width3_def byte_in_def)

lemma unquote_enc: "unquote (enc_chars s @ CHR 0x22 # r) = Some (fix_utf8 s, r)"
proof (induction s rule: enc_chars.induct)
  case (1 s)
  consider (empty) "s = []" | (invalid) "s \<noteq> []" "rune_width s = 0" | (one) "s \<noteq> []" "rune_width s = 1"
    | (more_bytes) "s \<noteq> []" "1 < rune_width s" by linarith
  then show ?case
  proof cases
    case empty
    then show ?thesis by (simp add: enc_chars.simps fix_utf8.simps unquote_end)
  next
    case invalid
    then have "enc_chars s @ CHR 0x22 # r = (CHR 0x5C # ''ufffd'') @ (enc_chars (tl s) @ CHR 0x22 # r)"
      by (subst enc_chars.simps) simp
    moreover have "unquote ((CHR 0x5C # ''ufffd'') @ (enc_chars (tl s) @ CHR 0x22 # r))
        = map_option (\<lambda>(v, r). (utf8_enc replacement @ v, r)) (unquote (enc_chars (tl s) @ CHR 0x22 # r))"
      by (rule unquote_step) (use step_ufffd in simp_all)
    moreover have "fix_utf8 s = utf8_enc replacement @ fix_utf8 (tl s)"
      using invalid by (subst fix_utf8.simps) simp
    ultimately show ?thesis using 1(1) [OF invalid] by simp
  next
    case one
    then obtain a t where s: "s = a # t" "byte_val a < 128" using rune_width_one by blast
    have "enc_chars s @ CHR 0x22 # r = esc_byte a @ (enc_chars t @ CHR 0x22 # r)"
      using one s by (subst enc_chars.simps) simp
    moreover have "unquote (esc_byte a @ (enc_chars t @ CHR 0x22 # r))
        = map_option (\<lambda>(v, r). ([a] @ v, r)) (unquote (enc_chars t @ CHR 0x22 # r))"
      by (rule unquote_step) (use step_esc_byte [OF s(2)] hd_esc_byte in simp_all)
    moreover have "fix_utf8 s = a # fix_utf8 t"
      using one s by (subst fix_utf8.simps) simp
    ultimately show ?thesis using 1(2) [OF one(1) _ one(2)] one s by simp
  next
    case more_bytes
    have w: "rune_width s \<noteq> 0" "rune_width s \<noteq> 1" using more_bytes(2) by simp_all
    have fixed: "fix_utf8 s = take (rune_width s) s @ fix_utf8 (drop (rune_width s) s)"
      using more_bytes w by (subst fix_utf8.simps) simp
    show ?thesis
    proof (cases "take 3 s = [CHR 0xE2, CHR 0x80, CHR 0xA8] \<or> take 3 s = [CHR 0xE2, CHR 0x80, CHR 0xA9]")
      case True
      then obtain a d where a: "take 3 s = [CHR 0xE2, CHR 0x80, a]" "byte_in 128 191 a"
        "enc_chars s = (CHR 0x5C # ''u202'' @ [d]) @ enc_chars (drop 3 s)"
        "string_step ((CHR 0x5C # ''u202'' @ [d]) @ (enc_chars (drop 3 s) @ CHR 0x22 # r)) = Some (take 3 s, 6)"
        and IH: "unquote (enc_chars (drop 3 s) @ CHR 0x22 # r) = Some (fix_utf8 (drop 3 s), r)"
      proof (elim disjE)
        assume l: "take 3 s = [CHR 0xE2, CHR 0x80, CHR 0xA8]"
        show thesis
          by (rule that [of "CHR 0xA8" "CHR ''8''"])
            (use l more_bytes w 1(3) step_u202(1) in \<open>simp_all add: enc_chars.simps [of s] byte_in_def\<close>)
      next
        assume l: "take 3 s = [CHR 0xE2, CHR 0x80, CHR 0xA9]"
        show thesis
          by (rule that [of "CHR 0xA9" "CHR ''9''"])
            (use l more_bytes w 1(4) step_u202(2) in \<open>simp_all add: enc_chars.simps [of s] byte_in_def\<close>)
      qed
      have "unquote ((CHR 0x5C # ''u202'' @ [d]) @ (enc_chars (drop 3 s) @ CHR 0x22 # r))
          = map_option (\<lambda>(v, r). (take 3 s @ v, r)) (unquote (enc_chars (drop 3 s) @ CHR 0x22 # r))"
        by (rule unquote_step) (use a(4) in simp_all)
      then show ?thesis using a(3) IH fixed rune_width_line_sep [OF a(1,2)] by simp
    next
      case False
      let ?w = "rune_width s"
      obtain a t where s: "s = a # t" "128 \<le> byte_val a" using rune_width_hd [OF more_bytes(2)] by blast
      have e: "enc_chars s = take ?w s @ enc_chars (drop ?w s)"
        using more_bytes w False by (subst enc_chars.simps) simp
      have p: "take ?w s \<noteq> []" "hd (take ?w s) = a" "length (take ?w s) = ?w"
        using s(1) w rune_width_le [of s] by (cases ?w; simp)+
      have "string_step (take ?w s @ x) = Some (take ?w s, length (take ?w s))" for x
        using rune_width_append [OF w(1), of x] p s by (intro step_high) simp_all
      then have "unquote (take ?w s @ (enc_chars (drop ?w s) @ CHR 0x22 # r))
          = map_option (\<lambda>(v, r). (take ?w s @ v, r)) (unquote (enc_chars (drop ?w s) @ CHR 0x22 # r))"
        by (rule unquote_step) (use p s in auto)
      then show ?thesis using e fixed 1(5) [OF more_bytes(1) w] False by simp
    qed
  qed
qed

subsection \<open>Numbers\<close>

text \<open>What can follow a value: nothing that would continue a number.\<close>

definition delim :: "string \<Rightarrow> bool" where
  "delim r \<longleftrightarrow> (case r of [] \<Rightarrow> True | c # _ \<Rightarrow>
     \<not> is_digit c \<and> c \<noteq> CHR ''.'' \<and> c \<noteq> CHR ''e'' \<and> c \<noteq> CHR ''E'' \<and> c \<noteq> CHR ''-'' \<and> c \<noteq> CHR ''+'')"

definition number_ok :: "string \<Rightarrow> bool" where
  "number_ok s \<longleftrightarrow> scan_number s = Some (s, [])"

lemma digits_append:
  "delim r \<Longrightarrow> takeWhile is_digit (s @ r) = takeWhile is_digit s \<and> dropWhile is_digit (s @ r) = dropWhile is_digit s @ r"
  by (induction s) (auto simp: delim_def split: list.splits)

lemma scan_int_append: "delim r \<Longrightarrow> scan_int s = Some (a, b) \<Longrightarrow> scan_int (s @ r) = Some (a, b @ r)"
  using digits_append [of r s] by (auto simp: scan_int_def split: list.splits if_splits)

lemma scan_frac_append: "delim r \<Longrightarrow> scan_frac s = Some (a, b) \<Longrightarrow> scan_frac (s @ r) = Some (a, b @ r)"
  using digits_append [of r "tl s"]
  by (cases s rule: remdups_adj.cases; cases r)
    (auto simp: scan_frac_def delim_def split: if_splits list.splits)

lemma scan_exp_append: "delim r \<Longrightarrow> scan_exp s = Some (a, b) \<Longrightarrow> scan_exp (s @ r) = Some (a, b @ r)"
  using digits_append [of r "tl s"] digits_append [of r "tl (tl s)"]
  by (cases s rule: remdups_adj.cases; cases r)
    (auto simp: scan_exp_def delim_def split: if_splits list.splits)

lemma scan_number_append:
  assumes "delim r" "scan_number s = Some (a, b)"
  shows "scan_number (s @ r) = Some (a, b @ r)"
proof (cases s)
  case Nil
  with assms(2) show ?thesis by (simp add: scan_number_def scan_int_def)
next
  case (Cons c t)
  obtain ip s2 fp s3 ep where parts: "scan_int (if c = CHR ''-'' then t else c # t) = Some (ip, s2)"
      "scan_frac s2 = Some (fp, s3)" "scan_exp s3 = Some (ep, b)"
    and a: "a = (if c = CHR ''-'' then [c] else []) @ ip @ fp @ ep"
    using assms(2) unfolding Cons scan_number_Cons by blast
  have "scan_int (if c = CHR ''-'' then t @ r else c # t @ r) = Some (ip, s2 @ r)"
    using scan_int_append [OF assms(1) parts(1)] by (simp split: if_splits)
  then show ?thesis
    using scan_frac_append [OF assms(1) parts(2)] scan_exp_append [OF assms(1) parts(3)] a
    unfolding Cons append_Cons scan_number_Cons by blast
qed

lemma scan_number_hd: "scan_number s = Some (a, b) \<Longrightarrow> s \<noteq> [] \<and> (hd s = CHR ''-'' \<or> is_digit (hd s))"
  using scan_number_start by fastforce

lemma number_hd:
  assumes "number_ok s"
  shows "s \<noteq> [] \<and> hd s \<noteq> CHR 0x22 \<and> hd s \<noteq> CHR ''['' \<and> hd s \<noteq> CHR ''{'' \<and> hd s \<noteq> CHR ''n'' \<and> hd s \<noteq> CHR ''t''
    \<and> hd s \<noteq> CHR ''f'' \<and> \<not> is_ws (hd s)"
  using scan_number_hd [OF assms [unfolded number_ok_def]] by (auto simp: is_digit_def is_ws_def)

lemma scan_literal_number: "number_ok s \<Longrightarrow> delim r \<Longrightarrow> scan_literal (s @ r) = Some (JNum s, r)"
  using number_hd [of s] scan_number_append [of r s s "[]"]
  by (cases s) (auto simp: scan_literal_def has_prefix_def number_ok_def)

subsection \<open>Values\<close>

text \<open>The value that is read back, its nesting, and the values of the grammar.\<close>

fun fix_json :: "json \<Rightarrow> json" where
  "fix_json (JStr s) = JStr (fix_utf8 s)"
| "fix_json (JArr js) = JArr (map fix_json js)"
| "fix_json (JObj kvs) = JObj (map (\<lambda>(k, v). (fix_utf8 k, fix_json v)) kvs)"
| "fix_json j = j"

fun nesting :: "json \<Rightarrow> nat" where
  "nesting (JArr js) = Suc (Max (insert 0 (set (map nesting js))))"
| "nesting (JObj kvs) = Suc (Max (insert 0 (set (map (\<lambda>(k, v). nesting v) kvs))))"
| "nesting j = 0"

fun grammatical :: "json \<Rightarrow> bool" where
  "grammatical (JNum s) \<longleftrightarrow> number_ok s"
| "grammatical (JArr js) \<longleftrightarrow> (\<forall>j \<in> set js. grammatical j)"
| "grammatical (JObj kvs) \<longleftrightarrow> (\<forall>kv \<in> set kvs. grammatical (snd kv))"
| "grammatical j \<longleftrightarrow> True"

lemma nesting_le:
  "nesting (JArr js) \<le> d \<longleftrightarrow> 0 < d \<and> (\<forall>j \<in> set js. nesting j \<le> d - 1)"
  "nesting (JObj kvs) \<le> d \<longleftrightarrow> 0 < d \<and> (\<forall>kv \<in> set kvs. nesting (snd kv) \<le> d - 1)"
  by (cases d; auto simp: Suc_le_eq less_Suc_eq_le)+

text \<open>An encoded value starts with a byte that is no white space, bracket, colon or comma.\<close>

lemma enc_json_hd:
  "grammatical j \<Longrightarrow> \<exists>c t. enc_json j = c # t \<and> \<not> is_ws c \<and> c \<noteq> CHR '']'' \<and> c \<noteq> CHR ''}''"
proof (cases j)
  case (JNum s)
  assume "grammatical j"
  with JNum have "number_ok s" by simp
  from scan_number_hd [OF this [unfolded number_ok_def]] JNum show ?thesis
    by (cases s) (auto simp: is_ws_def is_digit_def)
qed (auto simp: enc_str_def is_ws_def)

lemma skip_ws_stop: "\<not> is_ws c \<Longrightarrow> skip_ws (c # t) = c # t"
  by (simp add: skip_ws_def)

lemma skip_enc:
  assumes "grammatical j"
  shows "skip_ws (enc_json j @ r) = enc_json j @ r" "enc_json j @ r \<noteq> []"
    "hd (enc_json j @ r) \<noteq> CHR '']''" "hd (enc_json j @ r) \<noteq> CHR ''}''"
  using enc_json_hd [OF assms] by (auto simp: skip_ws_stop)

lemma not_ws [simp]: "\<not> is_ws (CHR '']'')" "\<not> is_ws (CHR ''}'')" "\<not> is_ws (CHR '','')" "\<not> is_ws (CHR '':'')"
  "\<not> is_ws (CHR 0x22)" "\<not> is_ws (CHR ''['')" "\<not> is_ws (CHR ''{'')"
  by (simp_all add: is_ws_def)

lemma delim_simps [simp]: "delim (CHR '']'' # r)" "delim (CHR ''}'' # r)" "delim (CHR '','' # r)" "delim []" "delim nl"
  by (simp_all add: delim_def is_digit_def nl_def)

text \<open>The elements of an array and the members of an object, given that each value is read back.\<close>

definition reads_back :: "json \<Rightarrow> nat \<Rightarrow> bool" where
  "reads_back j d \<longleftrightarrow>
     (\<forall>n r. length (enc_json j) < n \<longrightarrow> delim r \<longrightarrow> parse_value n d (enc_json j @ r) = Some (fix_json j, r))"

lemma parse_elems_back:
  assumes "js \<noteq> []" "\<forall>j \<in> set js. reads_back j d" "length (join_with '','' (map enc_json js)) + 1 < n"
  shows "parse_elems n d (join_with '','' (map enc_json js) @ CHR '']'' # r) = Some (map fix_json js, r)"
  using assms
proof (induction js arbitrary: n)
  case (Cons j js)
  then obtain m where n: "n = Suc m" by (cases n) auto
  show ?case
  proof (cases js)
    case Nil
    have "parse_value m d (enc_json j @ CHR '']'' # r) = Some (fix_json j, CHR '']'' # r)"
      using Cons.prems Nil n by (simp add: reads_back_def)
    then show ?thesis using Nil n by (simp add: skip_ws_stop)
  next
    case (Cons j2 js2)
    let ?rest = "join_with '','' (map enc_json js) @ CHR '']'' # r"
    have "parse_value m d (enc_json j @ CHR '','' # ?rest) = Some (fix_json j, CHR '','' # ?rest)"
      using Cons.prems Cons n by (simp add: reads_back_def)
    moreover have "parse_elems m d ?rest = Some (map fix_json js, r)"
      using Cons.prems Cons n by (intro Cons.IH) simp_all
    ultimately show ?thesis using Cons n by (simp add: skip_ws_stop)
  qed
qed simp

lemma parse_members_back:
  assumes "kvs \<noteq> []" "\<forall>kv \<in> set kvs. reads_back (snd kv) d"
    "length (join_with '','' (map (\<lambda>(k, v). enc_str k @ '':'' @ enc_json v) kvs)) + 1 < n"
  shows "parse_members n d (join_with '','' (map (\<lambda>(k, v). enc_str k @ '':'' @ enc_json v) kvs) @ CHR ''}'' # r)
    = Some (map (\<lambda>(k, v). (fix_utf8 k, fix_json v)) kvs, r)"
  using assms
proof (induction kvs arbitrary: n)
  case (Cons kv kvs)
  obtain k v where kv: "kv = (k, v)" by force
  from Cons obtain m where n: "n = Suc m" by (cases n) auto
  have key: "unquote (enc_chars k @ CHR 0x22 # x) = Some (fix_utf8 k, x)" for x by (rule unquote_enc)
  show ?case
  proof (cases kvs)
    case Nil
    have "parse_value m d (enc_json v @ CHR ''}'' # r) = Some (fix_json v, CHR ''}'' # r)"
      using Cons.prems Nil n kv by (simp add: reads_back_def)
    then show ?thesis using Nil n kv by (simp add: enc_str_def skip_ws_stop key)
  next
    case (Cons kv2 kvs2)
    let ?rest = "join_with '','' (map (\<lambda>(k, v). enc_str k @ '':'' @ enc_json v) kvs) @ CHR ''}'' # r"
    have "parse_value m d (enc_json v @ CHR '','' # ?rest) = Some (fix_json v, CHR '','' # ?rest)"
      using Cons.prems Cons n kv by (simp add: reads_back_def)
    moreover have "parse_members m d ?rest = Some (map (\<lambda>(k, v). (fix_utf8 k, fix_json v)) kvs, r)"
      using Cons.prems Cons n kv by (intro Cons.IH) simp_all
    ultimately show ?thesis using Cons n kv by (simp add: enc_str_def skip_ws_stop key)
  qed
qed simp

lemma parse_value_back: "grammatical j \<Longrightarrow> nesting j \<le> d \<Longrightarrow> reads_back j d"
proof (induction j arbitrary: d rule: enc_json.induct)
  case (5 js)
  show ?case
    unfolding reads_back_def
  proof (intro allI impI)
    fix n r
    assume n: "length (enc_json (JArr js)) < n"
    then obtain m where m: "n = Suc m" by (cases n) auto
    show "parse_value n d (enc_json (JArr js) @ r) = Some (fix_json (JArr js), r)"
    proof (cases "js = []")
      case True
      with 5 m show ?thesis by (simp add: nesting_le skip_ws_stop)
    next
      case False
      let ?es = "join_with '','' (map enc_json js) @ CHR '']'' # r"
      have "\<forall>j \<in> set js. nesting j \<le> d - 1" using 5(3) unfolding nesting_le by simp
      then have "\<forall>j \<in> set js. reads_back j (d - 1)" using 5(1,2) by auto
      then have "parse_elems m (d - 1) ?es = Some (map fix_json js, r)"
        using False n m by (intro parse_elems_back) simp_all
      moreover have "skip_ws ?es \<noteq> [] \<and> hd (skip_ws ?es) \<noteq> CHR '']''"
      proof -
        obtain j js2 where js: "js = j # js2" using False by (cases js) auto
        then obtain y where "?es = enc_json j @ y" by (cases js2) auto
        with skip_enc [of j y] js 5(2) show ?thesis by simp
      qed
      ultimately show ?thesis using 5 m by (simp add: nesting_le skip_ws_stop)
    qed
  qed
next
  case (6 kvs)
  show ?case
    unfolding reads_back_def
  proof (intro allI impI)
    fix n r
    assume n: "length (enc_json (JObj kvs)) < n"
    then obtain m where m: "n = Suc m" by (cases n) auto
    show "parse_value n d (enc_json (JObj kvs) @ r) = Some (fix_json (JObj kvs), r)"
    proof (cases "kvs = []")
      case True
      with 6 m show ?thesis by (simp add: nesting_le skip_ws_stop)
    next
      case False
      let ?ms = "join_with '','' (map (\<lambda>(k, v). enc_str k @ '':'' @ enc_json v) kvs) @ CHR ''}'' # r"
      have "\<forall>kv \<in> set kvs. nesting (snd kv) \<le> d - 1" using 6(3) unfolding nesting_le by simp
      then have "\<forall>kv \<in> set kvs. reads_back (snd kv) (d - 1)" using 6(1,2) by (metis grammatical.simps(3) prod.collapse)
      then have "parse_members m (d - 1) ?ms = Some (map (\<lambda>(k, v). (fix_utf8 k, fix_json v)) kvs, r)"
        using False n m by (intro parse_members_back) simp_all
      moreover have "skip_ws ?ms \<noteq> [] \<and> hd (skip_ws ?ms) \<noteq> CHR ''}''"
      proof -
        obtain k v kvs2 where "kvs = (k, v) # kvs2" using False by (cases kvs) auto
        then obtain y where "?ms = CHR 0x22 # y" by (cases kvs2) (auto simp: enc_str_def)
        then show ?thesis by (simp add: skip_ws_stop)
      qed
      ultimately show ?thesis using 6 m by (simp add: nesting_le skip_ws_stop)
    qed
  qed
next
  case (3 s)
  then have "number_ok s" by simp
  from number_hd [OF this] obtain c t where s: "s = c # t" by (cases s) auto
  show ?case
    unfolding reads_back_def
  proof (intro allI impI)
    fix n r
    assume n: "length (enc_json (JNum s)) < n" and r: "delim r"
    then obtain m where m: "n = Suc m" by (cases n) auto
    show "parse_value n d (enc_json (JNum s) @ r) = Some (fix_json (JNum s), r)"
      using number_hd [OF \<open>number_ok s\<close>] scan_literal_number [OF \<open>number_ok s\<close> r] s m by (simp add: skip_ws_stop)
  qed
next
  case (4 s)
  show ?case
    by (auto simp: reads_back_def enc_str_def skip_ws_stop unquote_enc elim!: less_natE)
qed (auto simp: reads_back_def scan_literal_def has_prefix_def skip_ws_stop is_ws_def elim!: less_natE)

text \<open>A whole encoded value, as the response bodies have it: followed by a newline.\<close>

lemma first_value_encoded:
  assumes "grammatical j" "nesting j \<le> max_depth" "delim r"
  shows "first_value (enc_json j @ r) = Some (fix_json j, r)"
  using parse_value_back [OF assms(1,2)] assms(3)
  unfolding first_value_def reads_back_def by (simp del: parse_value.simps)

end
