(* ===== verification/Rest_Types.thy ===== *)
theory Rest_Types
  imports Json_Round_Trip Handler_Facts Sample_Services
begin

text \<open>
  The type of what the REST handlers answer: one JSON document of the encoder followed by a
  newline, that a client's decoder reads back, or nothing, and when it is nothing. The two parameters whose texts the
  handlers embed, the tree view and the text of a float, are encodings of \<open>encoding/json\<close>: this
  is what is assumed of them.
\<close>

subsection \<open>Values of the grammar, with room to nest\<close>

definition fits :: "nat \<Rightarrow> json \<Rightarrow> bool" where
  "fits d j \<longleftrightarrow> grammatical j \<and> nesting j \<le> d"

lemma scan_int_nat_str: "scan_int (nat_str n) = Some (nat_str n, [])"
proof -
  have "n \<noteq> 0 \<Longrightarrow> hd (nat_str n) \<noteq> CHR ''0''"
  proof (induction n rule: nat_str.induct)
    case (1 n)
    show ?case
    proof (cases "n < 10")
      case True
      have "digit_byte n \<noteq> CHR ''0''"
      proof
        assume "digit_byte n = CHR ''0''"
        then have "of_char (digit_byte n) = (48 :: nat)" by simp
        with True 1(2) show False by (simp add: digit_byte_def)
      qed
      with True show ?thesis by (subst nat_str.simps) simp
    next
      case False
      then show ?thesis using 1 by (subst nat_str.simps) simp
    qed
  qed
  moreover have "nat_str 0 = ''0''" by (subst nat_str.simps) (simp add: digit_byte_def char_of_def bit_0)
  moreover have "takeWhile is_digit (nat_str n) = nat_str n" "dropWhile is_digit (nat_str n) = []"
    using nat_str_digits [of n] by (auto simp: list_all_iff)
  moreover obtain c cs where "nat_str n = c # cs" "is_digit c" using nat_str_Cons by blast
  ultimately show ?thesis by (cases "n = 0") (auto simp: scan_int_def)
qed

lemma number_ok_itoa: "number_ok (itoa n)"
proof -
  have sgn: "nat_str m = c # t \<Longrightarrow> c \<noteq> CHR ''-''" for m c t
    using nat_str_digits [of m] not_digit_sign by auto
  obtain c t where ct: "itoa n = c # t" by (cases "itoa n") (auto simp: itoa_def split: if_splits)
  then have "scan_int (if c = CHR ''-'' then t else c # t) = Some (if c = CHR ''-'' then t else c # t, [])"
    using sgn [of "nat n" c t] scan_int_nat_str [of "nat n"] scan_int_nat_str [of "nat (- n)"]
    by (auto simp: itoa_def split: if_splits)
  then show ?thesis
    unfolding number_ok_def ct scan_number_Cons by (auto simp: scan_frac_def scan_exp_def)
qed

lemma fits_simps [simp]:
  "fits d JNull" "fits d (JBool b)" "fits d (JStr s)" "fits d (JInt n)"
  "fits d (JNum t) \<longleftrightarrow> number_ok t"
  "fits d (JArr js) \<longleftrightarrow> 0 < d \<and> (\<forall>j \<in> set js. fits (d - 1) j)"
  "fits d (JObj kvs) \<longleftrightarrow> 0 < d \<and> (\<forall>kv \<in> set kvs. fits (d - 1) (snd kv))"
  "fits d (JMap kvs) \<longleftrightarrow> 0 < d \<and> (\<forall>kv \<in> set kvs. fits (d - 1) (snd kv))"
  unfolding fits_def JMap_def nesting_le by (auto simp: JInt_def number_ok_itoa)

lemma fits_time: "time_json t = Some j \<Longrightarrow> fits d j"
  by (auto simp: time_json_def split: if_splits)

lemma fits_map_json: "0 < d \<Longrightarrow> fits d (map_json m)"
  by (auto simp: map_json_def split: option.splits)

lemma fits_section: "0 < d \<Longrightarrow> fits d (query_section_json p)"
  by (cases p) (simp add: query_section_json_def)

lemma fits_doc_item: "doc_item doc = Some j \<Longrightarrow> 0 < d \<Longrightarrow> fits d j"
  by (auto simp: doc_item_def bind_eq_Some_conv fits_time)

lemma fits_document: "document_json doc n = Some j \<Longrightarrow> 1 < d \<Longrightarrow> fits d j"
  by (auto simp: document_json_def bind_eq_Some_conv fits_time fits_map_json)

lemma those_in: "those xs = Some ys \<Longrightarrow> y \<in> set ys \<Longrightarrow> Some y \<in> set xs"
  by (induction xs arbitrary: ys) (auto split: option.splits)

lemma fits_list: "list_response docs t = Some j \<Longrightarrow> 2 < d \<Longrightarrow> fits d j"
proof -
  assume "list_response docs t = Some j" "2 < d"
  moreover have "those (map doc_item docs) = Some items \<Longrightarrow> i \<in> set items \<Longrightarrow> 0 < n \<Longrightarrow> fits n i" for items i n
    by (drule those_in, assumption) (auto dest!: fits_doc_item [OF sym])
  ultimately show ?thesis by (auto simp: list_response_def)
qed

lemma fits_section_response: "1 < d \<Longrightarrow> fits d (section_response sec content)"
  by (simp add: section_response_def fits_map_json)

text \<open>What is assumed of the encodings the engine's types bring with them.\<close>

definition encodable :: "'w deps \<Rightarrow> bool" where
  "encodable d \<longleftrightarrow> (\<forall>x. number_ok (dp_float_text d x)) \<and> (\<forall>v. fits max_depth (dp_view_json d v))"

lemma fits_usage: "encodable d \<Longrightarrow> 0 < n \<Longrightarrow> fits n (usage_json d u)"
  by (simp add: usage_json_def encodable_def)

lemma fits_query: "encodable d \<Longrightarrow> 2 < n \<Longrightarrow> fits n (query_response d q name secs ms u)"
  by (auto simp: query_response_def fits_usage fits_section split: option.splits)

lemma fits_doc_result: "encodable d \<Longrightarrow> 2 < n \<Longrightarrow> fits n (doc_result_json d i secs u)"
  by (auto simp: doc_result_json_def fits_usage fits_section)

lemma fits_multi: "encodable d \<Longrightarrow> 4 < n \<Longrightarrow> fits n (multi_response d q name res docs ms)"
  by (auto simp: multi_response_def fits_usage fits_doc_result)

subsection \<open>Documents with a time that has no text\<close>

text \<open>A year outside 0 to 9999 or an offset of a day and more: \<open>time.Time\<close> fails to encode.\<close>

definition untimed :: "document \<Rightarrow> bool" where
  "untimed doc \<longleftrightarrow> time_json (d_created doc) = None \<or> time_json (d_updated doc) = None"

lemma untimed_texts:
  "doc_item doc = None \<longleftrightarrow> untimed doc" "document_json doc n = None \<longleftrightarrow> untimed doc"
  by (auto simp: doc_item_def document_json_def untimed_def bind_eq_None_conv)

lemma those_None: "those xs = None \<longleftrightarrow> None \<in> set xs"
  by (induction xs) (auto split: option.splits)

lemma untimed_list: "list_response docs t = None \<longleftrightarrow> list_ex untimed docs"
proof -
  have "None \<in> doc_item ` set docs \<longleftrightarrow> (\<exists>doc \<in> set docs. untimed doc)"
    unfolding untimed_texts(1) [symmetric] by (metis image_iff)
  then show ?thesis by (simp add: list_response_def those_None list_ex_iff)
qed

text \<open>The requests for which the database answers with such a document.\<close>

definition lists_untimed :: "'w deps \<Rightarrow> request \<Rightarrow> 'w st \<Rightarrow> bool" where
  "lists_untimed d r s =
     (case requireOrgID r of
        Inl ops \<Rightarrow> False
      | Inr org \<Rightarrow>
          (case fst (call (db_list (dp_db d) (r_ctx r) (list_opts_of r org)) s) of
             Inl err \<Rightarrow> False
           | Inr (docs, next_t) \<Rightarrow> list_ex untimed docs))"

definition gets_untimed :: "'w deps \<Rightarrow> request \<Rightarrow> 'w st \<Rightarrow> bool" where
  "gets_untimed d r s =
     (case requireOrgID r of
        Inl ops \<Rightarrow> False
      | Inr org \<Rightarrow>
          (case fst (call (db_get (dp_db d) (r_ctx r) (r_params r ''id'') org (storeID r)) s) of
             Inl err \<Rightarrow> False
           | Inr doc \<Rightarrow> untimed doc))"

subsection \<open>The operations of an answer\<close>

text \<open>
  \<open>json_answer bare bad ops\<close>: nothing but a 204, which only some endpoints may answer (\<open>bare\<close>),
  or a status, a content type and one document, which is missing exactly when \<open>bad\<close>.
\<close>

definition json_answer :: "bool \<Rightarrow> bool \<Rightarrow> wop list \<Rightarrow> bool" where
  "json_answer bare bad ops \<longleftrightarrow> bare \<and> \<not> bad \<and> ops = [WriteHeader 204] \<or>
     (\<exists>c v. ops = writeJSON c v \<and> c \<in> {200, 202, 400, 401, 404, 415, 500, 501, 503}
        \<and> (v = None \<longleftrightarrow> bad) \<and> (bad \<longrightarrow> c = 200) \<and> (\<forall>j. v = Some j \<longrightarrow> fits max_depth j))"

lemma answers_json:
  "c \<in> {200, 202, 400, 401, 404, 415, 500, 501, 503} \<Longrightarrow> fits max_depth j \<Longrightarrow>
     json_answer bare False (writeJSON c (Some j))"
  by (auto simp: json_answer_def)

lemma answers_ok:
  "(v = None \<longleftrightarrow> bad) \<Longrightarrow> (\<And>j. v = Some j \<Longrightarrow> fits max_depth j) \<Longrightarrow> json_answer bare bad (writeJSON 200 v)"
  by (auto simp: json_answer_def)

lemma answers_204: "json_answer True False [WriteHeader 204]"
  by (simp add: json_answer_def)

lemma answers_err: "c \<in> {400, 401, 404, 415, 500, 501, 503} \<Longrightarrow> json_answer bare False (writeErr c msg)"
  unfolding writeErr_def by (rule answers_json) (auto simp: max_depth_def)

lemma answers_lookup: "json_answer bare False (lookup_err m err)"
  by (simp add: lookup_err_def answers_err)

lemma answers_org: "requireOrgID r = Inl ops \<Longrightarrow> json_answer bare False ops"
  by (auto simp: requireOrgID_Inl answers_err)

lemma answers_upload: "read_upload d r = Inl ops \<Longrightarrow> json_answer bare False ops"
  by (auto simp: read_upload_def read_multipart_def read_json_upload_def Let_def answers_err
      split: if_splits sum.splits option.splits)

lemma answers_query_body: "query_body d r = Inl ops \<Longrightarrow> json_answer bare False ops"
  by (auto simp: query_body_def answers_err split: if_splits option.splits)

lemma answers_multi_body: "multi_body d r = Inl ops \<Longrightarrow> json_answer bare False ops"
  by (auto simp: multi_body_def answers_err split: if_splits option.splits)

lemmas answers_rules = answers_204 answers_err answers_lookup answers_org answers_upload answers_query_body
  answers_multi_body

subsection \<open>The handlers\<close>

definition json_handler :: "'w handler \<Rightarrow> bool \<Rightarrow> (request \<Rightarrow> 'w st \<Rightarrow> bool) \<Rightarrow> bool" where
  "json_handler h bare bad \<longleftrightarrow>
     (\<forall>w r s. res_outcome (h w r s) = Done \<longrightarrow> json_answer bare (bad r s) (res_ops (h w r s)))"

abbreviation always_encodes :: "request \<Rightarrow> 'w st \<Rightarrow> bool" where
  "always_encodes \<equiv> \<lambda>r s. False"

lemma json_handlerI:
  "(\<And>w r s. res_outcome (h w r s) = Done \<Longrightarrow> json_answer bare (bad r s) (res_ops (h w r s))) \<Longrightarrow>
     json_handler h bare bad"
  by (simp add: json_handler_def)

lemma json_list: "json_handler (HandleListDocuments d) False (lists_untimed d)"
  by (rule json_handlerI; auto simp: HandleListDocuments_def lists_untimed_def untimed_list max_depth_def fits_list
      answers_rules intro!: answers_ok split: sum.splits prod.splits)

lemma json_get: "json_handler (HandleGetDocument d) False (gets_untimed d)"
  by (rule json_handlerI; auto simp: HandleGetDocument_def gets_untimed_def untimed_texts Let_def max_depth_def
      fits_document answers_rules intro!: answers_ok split: sum.splits prod.splits)

lemma json_documents:
  "json_handler (HandleIngestDocument d) False always_encodes"
  "json_handler (HandleDeleteDocument d) True always_encodes"
  "json_handler (HandleGetSection d) False always_encodes"
  by (rule json_handlerI; auto simp: HandleIngestDocument_def HandleDeleteDocument_def HandleGetSection_def Let_def
      max_depth_def fits_section_response answers_rules intro!: answers_json
      split: sum.splits prod.splits option.splits)+

lemma json_tree: "encodable d \<Longrightarrow> json_handler (HandleGetTree d) False always_encodes"
  by (rule json_handlerI; auto simp: HandleGetTree_def Let_def answers_rules encodable_def intro!: answers_ok
      split: sum.splits prod.splits option.splits)

lemma json_health:
  "json_handler HandleHealth False always_encodes" "json_handler (HandleVersion v) False always_encodes"
  by (rule json_handlerI; auto simp: HandleHealth_def HandleVersion_def max_depth_def intro!: answers_ok)+

lemma json_webhook: "json_handler (HandleQueueWebhook d) True always_encodes"
  by (rule json_handlerI; auto simp: HandleQueueWebhook_def Let_def answers_rules
      split: sum.splits prod.splits option.splits)

lemma json_query: "encodable d \<Longrightarrow> json_handler (HandleQuery e d) False always_encodes"
  by (rule json_handlerI; auto simp: HandleQuery_def Let_def answers_rules fits_query max_depth_def
      intro!: answers_ok split: sum.splits prod.splits option.splits)

lemma json_multi: "encodable d \<Longrightarrow> json_handler (HandleQueryMulti e d) False always_encodes"
  by (rule json_handlerI; auto simp: HandleQueryMulti_def Let_def answers_rules fits_multi max_depth_def
      intro!: answers_ok split: sum.splits prod.splits option.splits)

subsection \<open>What a client reads\<close>

lemma first_value_answer: "fits max_depth j \<Longrightarrow> unmarshal (enc_json j @ nl) = Some (fix_json j)"
  using first_value_encoded [of j nl] delim_simps(5) by (simp add: unmarshal_def fits_def) (simp add: nl_def skip_ws_def is_ws_def)

lemma answer_200s: "c \<in> {200, 202, 400, 401, 404, 415, 500, 501, 503} \<Longrightarrow>
    body_allowed c \<and> \<not> (100 \<le> c \<and> c \<le> 199) \<and> c \<noteq> (204 :: int)"
  by (auto simp: body_allowed_def)

lemma respond_204: "rs_status (respond [WriteHeader 204]) = 204" "rs_body (respond [WriteHeader 204]) = []"
  by (simp_all add: respond_def trace_simps write_header_def ensure_header_def init_resp_def)

lemma answers_respond:
  assumes "json_answer bare bad ops"
  shows "bare \<and> rs_status (respond ops) = 204 \<and> rs_body (respond ops) = []
    \<or> hget (rs_sent (respond ops)) ''Content-Type'' = ''application/json''
        \<and> (if bad then rs_status (respond ops) = 200 \<and> rs_body (respond ops) = []
           else \<exists>j. rs_body (respond ops) = enc_json j @ nl \<and> unmarshal (rs_body (respond ops)) = Some (fix_json j))"
  using assms [unfolded json_answer_def]
proof (elim disjE exE conjE)
  fix c v
  assume ops: "ops = writeJSON c v" and c: "c \<in> {200, 202, 400, 401, 404, 415, 500, 501, 503}"
    and v: "v = None \<longleftrightarrow> bad" "bad \<longrightarrow> c = 200" "\<forall>j. v = Some j \<longrightarrow> fits max_depth j"
  note r = respond_writeJSON [of c v] answer_200s [OF c]
  show ?thesis
  proof (cases v)
    case None
    with r v show ?thesis by (simp add: ops)
  next
    case (Some j)
    with v(3) have "unmarshal (enc_json j @ nl) = Some (fix_json j)" by (simp add: first_value_answer)
    with r Some v(1) show ?thesis by (auto simp: ops)
  qed
qed (simp add: respond_204)

text \<open>
  The endpoints that answer JSON, each with whether it may answer an empty 204 and with the
  requests whose answer cannot be encoded.
\<close>

definition json_endpoints :: "'w env \<Rightarrow> 'w deps \<Rightarrow> ('w handler \<times> bool \<times> (request \<Rightarrow> 'w st \<Rightarrow> bool)) list" where
  "json_endpoints e d =
     [(HandleHealth, False, \<lambda>r s. False), (HandleVersion (dp_version d), False, \<lambda>r s. False),
      (HandleQueueWebhook d, True, \<lambda>r s. False), (HandleListDocuments d, False, lists_untimed d),
      (HandleIngestDocument d, False, \<lambda>r s. False), (HandleGetDocument d, False, gets_untimed d),
      (HandleDeleteDocument d, True, \<lambda>r s. False), (HandleGetTree d, False, \<lambda>r s. False),
      (HandleGetSection d, False, \<lambda>r s. False), (HandleQuery e d, False, \<lambda>r s. False),
      (HandleQueryMulti e d, False, \<lambda>r s. False)]"

lemma json_endpoint_handler:
  "encodable d \<Longrightarrow> (h, bare, bad) \<in> set (json_endpoints e d) \<Longrightarrow> json_handler h bare bad"
  by (auto simp: json_endpoints_def json_list json_get json_documents json_tree json_health json_webhook json_query
      json_multi)

text \<open>C24. The type of the REST answers: whatever the engine, the database, the queue and the storage
  return, every endpoint but the byte download and the two event streams answers, unless it
  panics, \<open>application/json\<close> with one encoded document and a newline that \<open>json.Unmarshal\<close>
  reads back as the value the handler built, invalid UTF-8 replaced. There are two exceptions:
  the deletion and the queue webhook may answer 204 with no body; and the list and the single
  document answer 200 with an empty body exactly when the database has returned a document whose
  creation or update time has no JSON text.\<close>

theorem rest_answers_are_json:
  assumes "encodable d" "(h, bare, bad) \<in> set (json_endpoints e d)" "res_outcome (h w r s) = Done"
  shows "let p = response (h w r s) in
     bare \<and> rs_status p = 204 \<and> rs_body p = []
   \<or> hget (rs_sent p) ''Content-Type'' = ''application/json''
       \<and> (if bad r s then rs_status p = 200 \<and> rs_body p = []
          else \<exists>j. rs_body p = enc_json j @ nl \<and> unmarshal (rs_body p) = Some (fix_json j))"
proof -
  have "json_answer bare (bad r s) (res_ops (h w r s))"
    using json_endpoint_handler [OF assms(1,2)] assms(3) by (simp add: json_handler_def)
  then show ?thesis unfolding Let_def response_def by (rule answers_respond)
qed

definition section_request :: request where
  "section_request = sample_request ''GET'' ''/v1/sections/s1'' [(''X-Vectorless-Org'', ''org-a'')] []"

lemma section_answer:
  fixes s :: "'w st"
  shows "res_outcome (HandleGetSection sample_deps w section_request s) = Done"
  "rs_status (response (HandleGetSection sample_deps w section_request s)) = 200"
  "rs_body (response (HandleGetSection sample_deps w section_request s)) \<noteq> []"
  by (simp_all add: HandleGetSection_def requireOrgID_def section_request_def sample_request_def sample_simps
      sample_deps_def sample_db_def call_def fetchContent_def sample_section_def sample_storage_def Let_def
      hget_hset respond_writeJSON body_allowed_def nl_def)

lemma sample_encodable: "encodable (sample_deps :: 'w deps)"
  by (simp add: encodable_def sample_deps_def max_depth_def number_ok_def) code_simp

lemma rest_answers_are_json_witness:
  "\<exists>j. rs_body (response (HandleGetSection sample_deps \<lparr>w_flusher = True\<rparr> section_request sample_state)) = enc_json j @ nl
    \<and> unmarshal (enc_json j @ nl) = Some (fix_json j)"
proof -
  let ?h = "HandleGetSection sample_deps :: int handler"
  have h: "(?h, False, \<lambda>r s. False) \<in> set (json_endpoints sample_env sample_deps)"
    by (simp add: json_endpoints_def)
  let ?p = "response (?h \<lparr>w_flusher = True\<rparr> section_request sample_state)"
  have "\<exists>j. rs_body ?p = enc_json j @ nl \<and> unmarshal (rs_body ?p) = Some (fix_json j)"
    using rest_answers_are_json [OF sample_encodable h section_answer(1) [where w = "\<lparr>w_flusher = True\<rparr>" and s = sample_state]]
      by (auto simp: Let_def)
  then show ?thesis by metis
qed

end
