(* ===== verification/Observability.thy ===== *)
theory Observability
  imports Rest_Types
begin

text \<open>
  What the access log, the metrics and the tracing middleware (\<open>logging.go\<close>, \<open>metrics.go\<close>,
  \<open>tracing.go\<close>) record of an answer, nested as the router nests them, against what the client
  gets.
\<close>

subsection \<open>Byte counts\<close>

lemma written_step: "length (rs_body (wop_step w (WriteBytes b))) = length (rs_body w) + written w b"
  by (auto simp: written_def Let_def ensure_header_def write_header_def)

lemma other_step_body: "\<forall>b. x \<noteq> WriteBytes b \<Longrightarrow> rs_body (wop_step w x) = rs_body w"
  by (cases x) (auto simp: Let_def ensure_header_def write_header_def)

text \<open>The two recorders that count bytes count exactly the bytes the server sends.\<close>

lemma log_bytes:
  "sr_bytes (record_ops status_rec_step ops w rc) + int (length (rs_body w))
     = sr_bytes rc + int (length (rs_body (play ops w)))"
proof (induction ops arbitrary: w rc)
  case (Cons x xs)
  show ?case
  proof (cases "\<exists>b. x = WriteBytes b")
    case True
    then obtain b where x: "x = WriteBytes b" ..
    show ?thesis
      using Cons.IH [of "wop_step w x" "status_rec_step w rc x"] written_step [of w b]
      unfolding x by (simp add: trace_simps del: wop_step.simps)
  next
    case False
    then have "sr_bytes (status_rec_step w rc x) = sr_bytes rc" by (cases x) simp_all
    with Cons.IH [of "wop_step w x" "status_rec_step w rc x"] other_step_body [of x w] False
    show ?thesis by (simp add: trace_simps)
  qed
qed (simp add: trace_simps)

lemma metrics_bytes:
  "mr_bytes (record_ops metrics_rec_step ops w rc) + int (length (rs_body w))
     = mr_bytes rc + int (length (rs_body (play ops w)))"
proof (induction ops arbitrary: w rc)
  case (Cons x xs)
  show ?case
  proof (cases "\<exists>b. x = WriteBytes b")
    case True
    then obtain b where x: "x = WriteBytes b" ..
    show ?thesis
      using Cons.IH [of "wop_step w x" "metrics_rec_step w rc x"] written_step [of w b]
      unfolding x by (simp add: trace_simps del: wop_step.simps)
  next
    case False
    then have "mr_bytes (metrics_rec_step w rc x) = mr_bytes rc" by (cases x) simp_all
    with Cons.IH [of "wop_step w x" "metrics_rec_step w rc x"] other_step_body [of x w] False
    show ?thesis by (simp add: trace_simps)
  qed
qed (simp add: trace_simps)

lemma ensure_header_body [simp]: "rs_body (ensure_header w) = rs_body w"
  by (simp add: ensure_header_def write_header_def)

lemma recorded_bytes:
  "sr_bytes (recorded status_rec_step status_rec_init ops) = int (length (rs_body (respond ops)))"
  "mr_bytes (recorded metrics_rec_step metrics_rec_init ops) = int (length (rs_body (respond ops)))"
  using log_bytes [of ops init_resp status_rec_init] metrics_bytes [of ops init_resp metrics_rec_init]
  by (simp_all add: recorded_def respond_def status_rec_init_def metrics_rec_init_def)

subsection \<open>Headers after the answer\<close>

lemma late_headers_body:
  "list_all is_header_op hs \<Longrightarrow> rs_body (play hs w) = rs_body w"
proof (induction hs arbitrary: w)
  case (Cons x xs)
  then show ?case by (cases x) (auto simp: trace_simps)
qed (simp add: trace_simps)

lemma single_header_commits: "single_header ops \<Longrightarrow> commits ops"
  by (auto simp: single_header_def)

lemma single_header_late:
  assumes "single_header ops" "list_all is_header_op hs"
  shows "single_header (ops @ hs)"
proof -
  obtain as c xs where ops: "ops = as @ WriteHeader c # xs" "list_all is_header_op as" "is_commit (WriteHeader c)"
    and xs: "\<forall>x \<in> set xs. \<forall>c'. x \<noteq> WriteHeader c'"
    using assms(1) by (auto simp: single_header_def)
  have "\<forall>x \<in> set (xs @ hs). \<forall>c'. x \<noteq> WriteHeader c'"
    using xs assms(2) by (auto simp: list_all_iff)
  with ops show ?thesis
    unfolding single_header_def by (intro exI [of _ as] exI [of _ c] exI [of _ "xs @ hs"]) simp
qed

lemma respond_late:
  assumes "single_header ops" "list_all is_header_op hs"
  shows "rs_status (respond (ops @ hs)) = rs_status (respond ops)"
    "rs_sent (respond (ops @ hs)) = rs_sent (respond ops)"
    "rs_body (respond (ops @ hs)) = rs_body (respond ops)"
  using respond_append_commits [OF single_header_commits [OF assms(1)]] late_headers_body [OF assms(2)]
  by (simp_all add: respond_def trace_simps)

subsection \<open>Handlers that write one header\<close>

definition single_headed :: "'w handler \<Rightarrow> bool" where
  "single_headed h \<longleftrightarrow> (\<forall>w r s. res_outcome (h w r s) = Done \<longrightarrow> single_header (res_ops (h w r s)))"

lemma single_header_answer: "json_answer bare bad ops \<Longrightarrow> single_header ops"
  unfolding json_answer_def
proof (elim disjE exE conjE)
  assume "ops = [WriteHeader 204]"
  then show "single_header ops"
    unfolding single_header_def by (intro exI [of _ "[]"] exI [of _ 204] exI [of _ "[]"]) simp
next
  fix c v
  assume "ops = writeJSON c v" and c: "c \<in> {200, 202, 400, 401, 404, 415, 500, 501, 503}"
  let ?xs = "case v of None \<Rightarrow> [] | Some j \<Rightarrow> [WriteBytes (enc_json j @ nl)]"
  have "ops = [SetHeader ''Content-Type'' ''application/json''] @ WriteHeader c # ?xs"
    "\<forall>x \<in> set ?xs. \<forall>c'. x \<noteq> WriteHeader c'"
    using \<open>ops = writeJSON c v\<close> by (simp_all add: writeJSON_def split: option.splits)
  moreover have "is_commit (WriteHeader c)" using answer_200s [OF c] by auto
  ultimately show "single_header ops"
    unfolding single_header_def
    by (intro exI [of _ "[SetHeader ''Content-Type'' ''application/json'']"] exI [of _ c] exI [of _ ?xs]) simp
qed

lemma json_endpoints_single_headed:
  "encodable d \<Longrightarrow> (h, bare, bad) \<in> set (json_endpoints e d) \<Longrightarrow> single_headed h"
  using json_endpoint_handler [of d h bare bad e] by (auto simp: single_headed_def json_handler_def intro: single_header_answer)

lemma json_endpoints_world_only: "(h, bare, bad) \<in> set (json_endpoints e d) \<Longrightarrow> world_only h"
  by (auto simp: json_endpoints_def world_only_documents world_only_health world_only_webhook
      world_only_query world_only_multi)

subsection \<open>The three observers\<close>

lemma header_ops_map: "list_all is_header_op (map (\<lambda>(k, v). SetHeader k v) kvs)"
  by (auto simp: list_all_iff)

text \<open>What \<open>Tracing\<close> adds: a span, and headers the client never gets.\<close>

lemma Tracing_observes:
  assumes "single_headed h" "res_outcome (Tracing e h w r s) = Done"
  obtains w1 hs sp where "list_all is_header_op hs"
    "sp_status sp = Some (rs_status (response (h wrapped r (s\<lparr>st_world := w1\<rparr>))))"
    "sp_error sp \<longleftrightarrow> 400 \<le> rs_status (response (h wrapped r (s\<lparr>st_world := w1\<rparr>)))"
    "res_outcome (h wrapped r (s\<lparr>st_world := w1\<rparr>)) = Done"
    "Tracing e h w r s =
       (let q = h wrapped r (s\<lparr>st_world := w1\<rparr>)
        in ((res_state q)\<lparr>st_spans := st_spans (res_state q) @ [sp]\<rparr>, res_ops q @ hs, Done))"
proof -
  let ?parent = "prop_extract e (r_header r) []"
  obtain sc w1 where sc: "tracer_start e ?parent (r_method r @ CHR '' '' # r_path r)
      [(''http.method'', r_method r), (''http.url'', r_url r), (''http.route'', r_path r),
       (''http.user_agent'', user_agent r), (''net.peer.ip'', r_remote r)] (st_world s) = (sc, w1)"
    by fastforce
  obtain s2 ops oc where q: "h wrapped r (s\<lparr>st_world := w1\<rparr>) = (s2, ops, oc)"
    by (metis prod_cases3)
  from assms(2) sc q have oc: "oc = Done" by (cases oc) (simp_all add: Tracing_def)
  have "single_header ops"
    using assms(1) q oc unfolding single_headed_def by (metis res_simps(2,3))
  then have st: "tr_status (recorded tracing_rec_step tracing_rec_init ops) = rs_status (respond ops)"
    by (rule tracing_recorder.status_of_single_header)
  show thesis
    by (rule that [of "map (\<lambda>(k, v). SetHeader k v) (prop_inject e sc)"
          "\<lparr>sp_context = sc, sp_status = Some (rs_status (respond ops)), sp_error = (rs_status (respond ops) \<ge> 400)\<rparr>" w1])
      (simp_all add: header_ops_map q oc response_def Tracing_def sc st Let_def)
qed

text \<open>The middleware as the router nests them when metrics and tracing are on.\<close>

definition observed :: "'w env \<Rightarrow> 'w middleware" where
  "observed e h = AccessLog e (Metrics e (Tracing e h))"

text \<open>C26. What is observed is what is sent: for a handler that writes one header (as the JSON endpoints
  do), the log line, the span and the request counter carry the status the client gets, and the
  log line and the byte counter the number of body bytes it gets. The client gets the status,
  headers and body of the handler: the trace context that \<open>Tracing\<close> injects into the response
  headers is never among them.\<close>

theorem observed_is_sent:
  assumes "single_headed h" "world_only h" "res_outcome (observed e h w r s) = Done"
  shows "\<exists>w1 le sp. let p = response (observed e h w r s); s' = res_state (observed e h w r s);
       q = response (h wrapped r (s\<lparr>st_world := w1\<rparr>)); route = (r_method r, r_path r) in
     rs_status p = rs_status q \<and> rs_sent p = rs_sent q \<and> rs_body p = rs_body q
   \<and> st_log s' = st_log s @ [le] \<and> le_status le = rs_status p \<and> le_bytes le = int (length (rs_body p))
   \<and> st_spans s' = st_spans s @ [sp] \<and> sp_status sp = Some (rs_status p) \<and> (sp_error sp \<longleftrightarrow> 400 \<le> rs_status p)
   \<and> m_requests (st_metrics s') (r_method r, r_path r, itoa (rs_status p))
       = m_requests (st_metrics s) (r_method r, r_path r, itoa (rs_status p)) + 1
   \<and> m_bytes (st_metrics s') route = m_bytes (st_metrics s) route + int (length (rs_body p))"
proof -
  obtain t1 v1 where c1: "time_now e (st_world s) = (t1, v1)" by fastforce
  obtain t2 v2 where c2: "time_now e v1 = (t2, v2)" by fastforce
  let ?s2 = "s\<lparr>st_world := v2\<rparr>"
  have "res_outcome (Tracing e h wrapped r ?s2) = Done"
    using assms(3) by (auto simp: observed_def AccessLog_def Metrics_def read_clock_def c1 c2 Let_def
        split: prod.splits outcome.splits)
  from Tracing_observes [OF assms(1) this] obtain w1 hs sp where hs: "list_all is_header_op hs"
    and sp: "sp_status sp = Some (rs_status (response (h wrapped r (?s2\<lparr>st_world := w1\<rparr>))))"
      "sp_error sp \<longleftrightarrow> 400 \<le> rs_status (response (h wrapped r (?s2\<lparr>st_world := w1\<rparr>)))"
    and ret: "res_outcome (h wrapped r (?s2\<lparr>st_world := w1\<rparr>)) = Done"
    and tr: "Tracing e h wrapped r ?s2 =
       (let q = h wrapped r (?s2\<lparr>st_world := w1\<rparr>)
        in ((res_state q)\<lparr>st_spans := st_spans (res_state q) @ [sp]\<rparr>, res_ops q @ hs, Done))"
    by metis
  have [simp]: "?s2\<lparr>st_world := w1\<rparr> = s\<lparr>st_world := w1\<rparr>" by simp
  obtain s3 ops oc where q: "h wrapped r (s\<lparr>st_world := w1\<rparr>) = (s3, ops, oc)"
    by (metis prod_cases3)
  have one: "single_header ops"
    using assms(1) [unfolded single_headed_def, rule_format, of wrapped r "s\<lparr>st_world := w1\<rparr>"] ret q by simp
  note late = respond_late [OF one hs]
  have st: "sr_status (recorded status_rec_step status_rec_init (ops @ hs)) = rs_status (respond ops)"
    "mr_status (recorded metrics_rec_step metrics_rec_init (ops @ hs)) = rs_status (respond ops)"
    using status_recorder.status_of_single_header [OF single_header_late [OF one hs]]
      metrics_recorder.status_of_single_header [OF single_header_late [OF one hs]] late by simp_all
  obtain w3 where s3: "s3 = s\<lparr>st_world := w3\<rparr>"
    using assms(2) [unfolded world_only_def ext_def, rule_format, of wrapped r "s\<lparr>st_world := w1\<rparr>"] q by auto
  obtain t3 v3 where c3: "time_now e w3 = (t3, v3)" by fastforce
  obtain t4 v4 where c4: "time_now e v3 = (t4, v4)" by fastforce
  show ?thesis
    using sp by (intro exI [of _ w1]) (simp add: observed_def AccessLog_def Metrics_def read_clock_def c1 c2 c3 c4 tr q s3 Let_def
      observe_def normalizePath_def response_def st recorded_bytes late)
qed

lemma section_outcome: "HandleGetSection sample_deps w section_request s = (s', ops, oc) \<Longrightarrow> oc = Done"
  using section_answer(1) [of w s] by simp

lemma tracing_outcome:
  "Tracing sample_env (HandleGetSection sample_deps) w section_request s = (s', ops, oc) \<Longrightarrow> oc = Done"
  by (auto simp: Tracing_def Let_def split: prod.splits outcome.splits dest: section_outcome)

lemma sample_observed: "res_outcome (observed sample_env (HandleGetSection sample_deps) w section_request s) = Done"
  by (auto simp: observed_def AccessLog_def Metrics_def read_clock_def Let_def
      split: prod.splits outcome.splits dest: tracing_outcome)

lemma observed_is_sent_witness:
  "\<exists>le. st_log (res_state (observed sample_env (HandleGetSection sample_deps) plain_writer section_request sample_state)) = [le]
    \<and> le_status le = 200"
proof -
  let ?h = "HandleGetSection sample_deps :: int handler"
  have h: "(?h, False, \<lambda>r s. False) \<in> set (json_endpoints sample_env sample_deps)"
    by (simp add: json_endpoints_def)
  show ?thesis
    using observed_is_sent [OF json_endpoints_single_headed [OF sample_encodable h] json_endpoints_world_only [OF h]
        sample_observed [of plain_writer sample_state]] section_answer(2) [where 'w = int]
    by (auto simp: Let_def)
qed

end
