(* ===== verification/Spec2Isabelle.thy ===== *)
theory Spec2Isabelle
  imports Idem_Race Transparency Load_Limits Body_Limits Rpc_Contracts Server_Threads Benchmark Observability
begin

text \<open>
  A model of \<open>vectorless-server\<close>, the HTTP and RPC front of the vectorless retrieval engine, and
  the theorems that make it correct.

  \<^bold>\<open>The program.\<close> \<open>cmd/server\<close> loads a configuration (\<open>internal/config\<close>), opens the engine and serves
  one router (\<open>internal/handler/router.go\<close>). The router runs each request through a stack of
  middleware (\<open>internal/middleware\<close>: CORS, request id, real ip, recovery, access log, metrics,
  tracing, authentication, two rate limits, body limit, deadlines, idempotency) and hands it to
  a REST handler (\<open>internal/handler\<close>) or to one of three RPC services (\<open>internal/connecthandler\<close>,
  messages in \<open>gen/vectorless/v1\<close>). Both kinds of handler call the engine: a database, a blob
  storage, a queue, a retrieval strategy and a multi-document dispatcher.

  \<^bold>\<open>The model.\<close> The state of the server (\<open>Server_State\<close>) is a record: the world outside, the global
  token bucket, the store of per-principal buckets, the idempotency cache, the access log, the
  log of panics, the metrics and the ended spans. A handler is a function from a writer, a
  request and a state to a new state, the trace of operations it performs on the writer and an
  outcome (done, panicked, crashed); a middleware is a function from handler to handler, as in
  the code. \<open>respond\<close> plays a trace as \<open>net/http\<close> does: the first status wins, headers freeze when
  the response is committed, a status that allows no body drops it. Errors are values of
  \<open>result\<close> or \<open>option\<close>; integers are kept at 64 or 32 bits where they are converted (\<open>wrap64\<close>,
  \<open>wrap32\<close>); floating point is \<open>float64\<close> rounding on rationals (\<open>Float64\<close>).

  \<^bold>\<open>Parameters.\<close> Code that is not in the repository is an argument: the engine (\<open>deps\<close>, \<open>Engine\<close>), the
  clock, the identifier source and the tracing library (\<open>env\<close>), the routing library (\<open>chi\<close>, with the
  two facts \<open>chi_use\<close> and \<open>chi_dispatches\<close> of its documentation), the YAML parser, the file system and
  the environment (\<open>config_env\<close>), the storage readers (\<open>reads\<close>, contract \<open>reader_ok\<close>), the sending
  side of an RPC stream, the Connect library (\<open>connect_lib\<close>, \<open>connect_calls\<close>), the constructors \<open>run\<close>
  calls (\<open>boot\<close>) and the network of the benchmark (\<open>bench_net\<close>). Theorems on them name what they rely on (\<open>backend_ok\<close>, \<open>same_tenant_db\<close>, \<open>encodable\<close>,
  \<open>undisturbed\<close>, \<open>metered\<close>).

  \<^bold>\<open>The theories.\<close>
  \<^item> \<open>VLS_Prelude\<close>: strings, integers, results; \<open>Float64\<close>: \<open>float64\<close>; \<open>Json\<close>, \<open>Json_Parse\<close>: \<open>encoding/json\<close>
    both ways, \<open>Json_Parse_Facts\<close>: the parser's fuel is no limit and what follows a value does not
    change it, \<open>Json_Round_Trip\<close>: what is encoded is read back; \<open>Rfc3339\<close>: times; \<open>Go_Http\<close>, \<open>Go_Net\<close>: what is used of \<open>net/http\<close> and \<open>net\<close>.
  \<^item> \<open>Token_Bucket\<close>, \<open>Limiter\<close>: \<open>ratelimit.go\<close>, \<open>ratelimit_principal.go\<close>. The number of admitted requests is
    bounded; principals do not influence each other; a patient client is always admitted and a
    busy bucket starves; reaping is unobservable.
  \<^item> \<open>Idem_Cache\<close>, \<open>Mw_Idempotency\<close>, \<open>Idem_Race\<close>: \<open>idempotency.go\<close>, the cache against its history, the
    middleware as one request sees it, and a step relation of overlapping requests with its
    invariant, in which lookups and the reaper are taken apart into the operations of the map.
  \<^item> \<open>Recorders\<close>, \<open>Mw_Edge\<close>, \<open>Mw_Auth\<close>, \<open>Mw_Limits\<close>: the other middleware. The locale \<open>edge_middleware\<close> is what
    the gate relies on; every edge middleware is interpreted in it, and in its extension
    \<open>status_middleware\<close> (\<open>Stack_Facts\<close>).
  \<^item> \<open>Server_Config\<close>: \<open>config.go\<close>: when a configuration loads, which error is reported when it does not,
    and which source of each setting wins.
  \<^item> \<open>Engine\<close>, \<open>Rest_Common\<close>, \<open>Rest_Documents\<close>, \<open>Rest_Query\<close>, \<open>Rest_Stream\<close>, \<open>Rest_Webhook\<close>: the REST handlers;
    \<open>Handler_Facts\<close>: a handler changes the world only; \<open>Rest_Props\<close>: tenant isolation; \<open>Pipeline\<close>: the
    ingest against an abstract view of the stores (locale \<open>ingest_routine\<close>, interpreted on
    the routine of each transport); \<open>Rest_Contracts\<close>: pagination, caps, event stream, webhook;
    \<open>Rest_Types\<close>: every answer is one JSON document, and which ones are empty; \<open>Observability\<close>: log, metrics and spans against
    what the client gets.
  \<^item> \<open>Router\<close>: the stack and the routes; the gate, preflights, panics, the access log, flushing.
    \<open>Transparency\<close>: a request that is let through gets its endpoint's own answer (\<open>passes\<close>, composed
    over the stack), or its stored answer. \<open>Load_Limits\<close>: the global limit bounds the work of the
    engine under any load. \<open>Body_Limits\<close>: what a client is told whose body is over the limit.
  \<^item> \<open>Rpc_Documents\<close>, \<open>Rpc_Query\<close>: the RPC services, with their own ingest routine, budget and loops; \<open>Rpc_Props\<close>, \<open>Rpc_Contracts\<close>: the two transports make the
    same engine calls and agree on the outcome, streams, readers, tenant isolation.
  \<^item> \<open>Connect_Services\<close>: the generated service code (\<open>vectorlessv1connect\<close>) and what the router mounts: a
    client's URL leads to the method of its name. \<open>Rpc_Clients\<close>: the methods of the generated clients.
  \<^item> \<open>Server_Main\<close>: \<open>cmd/server/main.go\<close> and \<open>internal/telemetry\<close>: a run of the binary, stage by stage, as
    the trace of what it acquires, starts and, through its stack of deferred calls, releases; what
    is held at the return; the choice of drivers, TLS and sampler. \<open>Server_Threads\<close>: the end of \<open>run\<close>,
    from the process the start-up leaves on, as a step relation of its goroutines, the channel
    between them and the signal; it terminates, shuts down in order in every interleaving, and
    does what the sequential \<open>run\<close> does.
  \<^item> \<open>Benchmark\<close>: \<open>cmd/benchmark/main.go\<close>: the calls it times, its statistics, and what it measures of
    the router.
  \<^item> \<open>Sample_World\<close>, \<open>Sample_Services\<close>: a concrete world and engine on which witnesses are evaluated.

  \<^bold>\<open>Bounds and fuel.\<close> The JSON parser takes one more fuel than its input has bytes, as every step
  shortens the input, and stops at the depth of 10000 of \<open>encoding/json\<close>; more fuel gives the
  same value (\<open>first_value_fuel\<close>), and for encoded values it is enough (\<open>first_value_encoded\<close>). The
  reader of the RPC ingest needs at most one read more than it has bytes. The concurrent end of
  \<open>run\<close> takes at most 11 steps, and the stack makes at most 24 calls of its services before the
  endpoint. Event channels are finite lists: a channel that is never closed is
  outside the model.

  \<^bold>\<open>Not modelled.\<close> Generated accessors, descriptors and reflection of the messages, log lines other
  than the access log, command-line parsing, stack traces, and the protobuf and HTTP wire formats.
  \<open>originMatches\<close> and \<open>TraceIDFromContext\<close> are called nowhere and are left out. \<open>respond\<close> does not know
  that \<open>net/http\<close> sends no body to a HEAD request and none beyond a declared \<open>Content-Length\<close>. A Go
  map is ranged over in one order, that of the list the dispatcher's result is, where Go's order
  is random in each loop. The cancel functions of the contexts of \<open>run\<close> are left out.
\<close>

end
